(* ===== verification/Prelude.thy ===== *)
theory Prelude
  imports Main "HOL-Library.Sorting_Algorithms"
begin

text \<open>
  Shared vocabulary of the development.

  \<^item> Computations that read and write a state and may throw: \<open>('s, 'e, 'a) prog\<close> is a
    function from a state to a result (\<open>Inl\<close> the exception, \<open>Inr\<close> the value) and the state
    left behind. An exception does not undo the writes made before it, as in TypeScript.
  \<^item> \<open>wp m Q E s\<close>: running \<open>m\<close> from \<open>s\<close> ends in a state that satisfies \<open>Q\<close> if it returns and
    \<open>E\<close> if it throws. The equations in \<open>wp_simps\<close> push \<open>wp\<close> through the combinators, so a
    handler is executed symbolically by the simplifier down to the calls of its ports, whose
    contracts are then applied with \<open>wp_mono\<close>.
  \<^item> Tables kept as lists in insertion order, with the lookups and updates the repositories use.
\<close>

named_theorems wp_simps \<open>equations that push wp through the program combinators\<close>
named_theorems table_simps \<open>lookups in and updates of tables\<close>

section \<open>Computations with state and exceptions\<close>

type_synonym ('s, 'e, 'a) prog = "'s \<Rightarrow> ('e + 'a) \<times> 's"

definition ret :: "'a \<Rightarrow> ('s, 'e, 'a) prog" where
  "ret x s = (Inr x, s)"

definition throw :: "'e \<Rightarrow> ('s, 'e, 'a) prog" where
  "throw e s = (Inl e, s)"

definition andThen :: "('s, 'e, 'a) prog \<Rightarrow> ('a \<Rightarrow> ('s, 'e, 'b) prog) \<Rightarrow> ('s, 'e, 'b) prog" where
  "andThen m k s = (case m s of (Inl e, s') \<Rightarrow> (Inl e, s') | (Inr x, s') \<Rightarrow> k x s')"

definition tryCatch :: "('s, 'e, 'a) prog \<Rightarrow> ('e \<Rightarrow> ('s, 'e, 'a) prog) \<Rightarrow> ('s, 'e, 'a) prog" where
  "tryCatch m h s = (case m s of (Inl e, s') \<Rightarrow> h e s' | (Inr x, s') \<Rightarrow> (Inr x, s'))"

definition reads :: "('s \<Rightarrow> 'a) \<Rightarrow> ('s, 'e, 'a) prog" where
  "reads f s = (Inr (f s), s)"

definition writes :: "('s \<Rightarrow> 's) \<Rightarrow> ('s, 'e, unit) prog" where
  "writes f s = (Inr (), f s)"

text \<open>\<open>try { m } finally { f }\<close> for a cleanup \<open>f\<close> that cannot throw.\<close>

definition andFinally :: "('s, 'e, 'a) prog \<Rightarrow> ('s \<Rightarrow> 's) \<Rightarrow> ('s, 'e, 'a) prog" where
  "andFinally m f s = (case m s of (r, s') \<Rightarrow> (r, f s'))"

definition raiseInl :: "'e + 'a \<Rightarrow> ('s, 'e, 'a) prog" where
  "raiseInl r s = (r, s)"

fun forEach :: "'a list \<Rightarrow> ('a \<Rightarrow> ('s, 'e, unit) prog) \<Rightarrow> ('s, 'e, unit) prog" where
  "forEach [] body = ret ()"
| "forEach (x # xs) body = andThen (body x) (\<lambda>_. forEach xs body)"

definition wp :: "('s, 'e, 'a) prog \<Rightarrow> ('a \<Rightarrow> 's \<Rightarrow> bool) \<Rightarrow> ('e \<Rightarrow> 's \<Rightarrow> bool) \<Rightarrow> 's \<Rightarrow> bool" where
  "wp m Q E s = (case m s of (Inl e, s') \<Rightarrow> E e s' | (Inr x, s') \<Rightarrow> Q x s')"

lemma wp_ret [wp_simps]: "wp (ret x) Q E s = Q x s"
  by (simp add: wp_def ret_def)

lemma wp_throw [wp_simps]: "wp (throw e) Q E s = E e s"
  by (simp add: wp_def throw_def)

lemma wp_reads [wp_simps]: "wp (reads f) Q E s = Q (f s) s"
  by (simp add: wp_def reads_def)

lemma wp_writes [wp_simps]: "wp (writes f) Q E s = Q () (f s)"
  by (simp add: wp_def writes_def)

lemma wp_raiseInl [wp_simps]:
  "wp (raiseInl r) Q E s = (case r of Inl e \<Rightarrow> E e s | Inr x \<Rightarrow> Q x s)"
  by (simp add: wp_def raiseInl_def split: sum.splits)

lemma wp_andThen [wp_simps]: "wp (andThen m k) Q E s = wp m (\<lambda>x. wp (k x) Q E) E s"
  by (simp add: wp_def andThen_def split: prod.splits sum.splits)

lemma wp_tryCatch [wp_simps]: "wp (tryCatch m h) Q E s = wp m Q (\<lambda>e. wp (h e) Q E) s"
  by (simp add: wp_def tryCatch_def split: prod.splits sum.splits)

lemma wp_andFinally [wp_simps]:
  "wp (andFinally m f) Q E s = wp m (\<lambda>x s'. Q x (f s')) (\<lambda>e s'. E e (f s')) s"
  by (simp add: wp_def andFinally_def split: prod.splits sum.splits)

lemma wp_if [wp_simps]: "wp (if b then m else n) Q E s = (if b then wp m Q E s else wp n Q E s)"
  by simp

lemma wp_mono:
  assumes "wp m Q E s"
    and "\<And>x s'. Q x s' \<Longrightarrow> Q' x s'" and "\<And>e s'. E e s' \<Longrightarrow> E' e s'"
  shows "wp m Q' E' s"
  using assms by (auto simp: wp_def split: prod.splits sum.splits)

lemma wp_conj: "wp m (\<lambda>x s'. Q x s' \<and> Q' x s') (\<lambda>e s'. E e s' \<and> E' e s') s
    \<longleftrightarrow> wp m Q E s \<and> wp m Q' E' s"
  by (auto simp: wp_def split: prod.splits sum.splits)

lemma wp_true: "wp m (\<lambda>_ _. True) (\<lambda>_ _. True) s"
  by (simp add: wp_def split: prod.splits sum.splits)

lemma wp_returns: "wp m Q E s \<Longrightarrow> m s = (Inr x, s') \<Longrightarrow> Q x s'"
  by (simp add: wp_def)

lemma wp_throws: "wp m Q E s \<Longrightarrow> m s = (Inl e, s') \<Longrightarrow> E e s'"
  by (simp add: wp_def)

lemma wp_state: "wp m (\<lambda>_. P) (\<lambda>_. P) s \<longleftrightarrow> P (snd (m s))"
  by (simp add: wp_def split: prod.splits sum.splits)

lemma wp_forEach:
  assumes "\<And>x s. x \<in> set xs \<Longrightarrow> I s \<Longrightarrow> wp (body x) (\<lambda>_. I) (\<lambda>_. I) s" and "I s"
  shows "wp (forEach xs body) (\<lambda>_. I) (\<lambda>_. I) s"
  using assms
proof (induction xs arbitrary: s)
  case Nil
  then show ?case by (simp add: wp_simps)
next
  case (Cons x xs)
  have "wp (body x) (\<lambda>_. I) (\<lambda>_. I) s" using Cons.prems by simp
  moreover have "wp (forEach xs body) (\<lambda>_. I) (\<lambda>_. I) s'" if "I s'" for s'
    using Cons.prems that by (intro Cons.IH) simp_all
  ultimately show ?case
    by (simp add: wp_simps) (rule wp_mono)
qed

lemma wp_forEach_returns:
  assumes "\<And>x s. x \<in> set xs \<Longrightarrow> I s \<Longrightarrow> wp (body x) (\<lambda>_. I) (\<lambda>_ _. True) s" and "I s"
  shows "wp (forEach xs body) (\<lambda>_. I) (\<lambda>_ _. True) s"
  using assms
proof (induction xs arbitrary: s)
  case (Cons x xs)
  show ?case unfolding forEach.simps wp_andThen
    by (rule wp_mono [OF Cons.prems(1)]) (use Cons in simp_all)
qed (simp add: wp_ret)

text \<open>A pass in which each element establishes a fact that lasts while the state grows.\<close>

lemma forEach_establishes:
  assumes "\<And>x s. x \<in> set xs \<Longrightarrow> wp (body x) (\<lambda>_ t. grows s t \<and> P x t) (\<lambda>_ _. True) s"
    and "\<And>x s t. P x s \<Longrightarrow> grows s t \<Longrightarrow> P x t"
    and refl: "\<And>s. grows s s" and trans: "\<And>s t u. grows s t \<Longrightarrow> grows t u \<Longrightarrow> grows s u"
  shows "wp (forEach xs body) (\<lambda>_ t. grows s t \<and> (\<forall>x \<in> set xs. P x t)) (\<lambda>_ _. True) s"
  using assms(1)
proof (induction xs arbitrary: s)
  case (Cons x xs)
  have rest: "wp (forEach xs body) (\<lambda>_ u. grows s u \<and> (\<forall>y \<in> set (x # xs). P y u)) (\<lambda>_ _. True) t"
    if t: "grows s t" "P x t" for t
    by (rule wp_mono [OF Cons.IH [OF Cons.prems]]) (use t assms(2) trans in auto)
  show ?case unfolding forEach.simps wp_andThen
    by (rule wp_mono [OF Cons.prems [of x]]) (use rest in auto)
qed (simp add: wp_ret refl)

lemma forEach_idle: "(\<And>x. x \<in> set xs \<Longrightarrow> body x s = (Inr (), s)) \<Longrightarrow> forEach xs body s = (Inr (), s)"
  by (induction xs) (simp_all add: ret_def andThen_def)

section \<open>Tables\<close>

text \<open>
  A table is the list of its rows, oldest first. \<open>lookupBy k x\<close> is the row whose key column \<open>k\<close>
  holds \<open>x\<close> (the key columns used are covered by a unique index, so there is at most one), and
  \<open>updateBy\<close> is an \<open>UPDATE ... WHERE k = x\<close>.
\<close>

definition lookupBy :: "('row \<Rightarrow> 'k) \<Rightarrow> 'k \<Rightarrow> 'row list \<Rightarrow> 'row option" where
  "lookupBy k x rows = find (\<lambda>r. k r = x) rows"

definition updateBy :: "('row \<Rightarrow> 'k) \<Rightarrow> 'k \<Rightarrow> ('row \<Rightarrow> 'row) \<Rightarrow> 'row list \<Rightarrow> 'row list" where
  "updateBy k x f rows = map (\<lambda>r. if k r = x then f r else r) rows"

lemma lookupBy_Nil [simp]: "lookupBy k x [] = None"
  by (simp add: lookupBy_def)

lemma lookupBy_Cons [simp]:
  "lookupBy k x (r # rows) = (if k r = x then Some r else lookupBy k x rows)"
  by (simp add: lookupBy_def)

lemma lookupBy_append [table_simps]:
  "lookupBy k x (rows @ more) =
     (case lookupBy k x rows of Some r \<Rightarrow> Some r | None \<Rightarrow> lookupBy k x more)"
  by (induction rows) auto

lemma lookupBy_Some: "lookupBy k x rows = Some r \<Longrightarrow> r \<in> set rows \<and> k r = x"
  by (induction rows) (auto split: if_splits)

lemma lookupBy_None: "lookupBy k x rows = None \<longleftrightarrow> (\<forall>r \<in> set rows. k r \<noteq> x)"
  by (induction rows) auto

lemma lookupBy_updateBy [table_simps]:
  assumes "\<And>r. k (f r) = k r"
  shows "lookupBy k x (updateBy k y f rows) =
    (if x = y then map_option f (lookupBy k x rows) else lookupBy k x rows)"
  unfolding updateBy_def by (induction rows) (auto simp: assms)

lemma lookupBy_updateBy_same [table_simps]:
  assumes "\<And>r. k r = x \<Longrightarrow> k (f r) = x"
  shows "lookupBy k x (updateBy k x f rows) = map_option f (lookupBy k x rows)"
  unfolding updateBy_def by (induction rows) (auto simp: assms)

lemma lookupBy_updateBy_other [table_simps]:
  assumes "\<And>r. k r = y \<Longrightarrow> k (f r) = y" and "x \<noteq> y"
  shows "lookupBy k x (updateBy k y f rows) = lookupBy k x rows"
  unfolding updateBy_def using assms(2) by (induction rows) (auto simp: assms(1))

lemma map_updateBy [table_simps]:
  assumes "\<And>r. g (f r) = g r"
  shows "map g (updateBy k y f rows) = map g rows"
  by (induction rows) (auto simp: updateBy_def assms)

lemma length_updateBy [simp]: "length (updateBy k y f rows) = length rows"
  by (simp add: updateBy_def)

lemma distinct_keys_lookup:
  assumes "distinct (map k rows)" and "r \<in> set rows"
  shows "lookupBy k (k r) rows = Some r"
  using assms by (induction rows) (auto simp: image_iff)

end
