(* ===== verification/Contract.thy ===== *)
theory Contract
  imports Prelude
begin

text \<open>
  The wire contract of \<open>packages/shared\<close>: JavaScript numbers, the amount rule, the reference and
  idempotency-key patterns, the generation of references, the description whitelist, the
  application codes with the exceptions that carry them, pagination and correlation ids.

  JavaScript strings are modelled by \<open>string\<close>, whose characters stand for the code points
  U+0000 to U+00FF; on them \<open>length\<close> is the JavaScript length. A finite JavaScript number is a
  dyadic rational \<open>Dyadic m k\<close>, the value \<open>m / 2 ^ k\<close>.
\<close>

section \<open>JavaScript values\<close>

datatype js_number = Dyadic int nat | NaN | Infinity bool

definition num :: "int \<Rightarrow> js_number" where
  "num i = Dyadic i 0"

fun isInteger :: "js_number \<Rightarrow> bool" where
  "isInteger (Dyadic m k) = (m mod 2 ^ k = 0)"
| "isInteger NaN = False"
| "isInteger (Infinity _) = False"

text \<open>The integer a number that passed \<open>isInteger\<close> denotes.\<close>

fun integerOf :: "js_number \<Rightarrow> int" where
  "integerOf (Dyadic m k) = m div 2 ^ k"
| "integerOf NaN = 0"
| "integerOf (Infinity _) = 0"

lemma isInteger_num [simp]: "isInteger (num i)"
  by (simp add: num_def)

lemma integerOf_num [simp]: "integerOf (num i) = i"
  by (simp add: num_def)

lemma isInteger_value: "isInteger (Dyadic m k) \<Longrightarrow> m = integerOf (Dyadic m k) * 2 ^ k"
  by (auto simp: mod_eq_0_iff_dvd)

text \<open>
  What a JSON body can hold in a field. \<open>Iso t\<close> is the ISO 8601 UTC string of the instant \<open>t\<close>
  (milliseconds), which \<open>toISOString\<close> writes and \<open>new Date\<close> reads back.
\<close>

datatype js_value =
    Undefined
  | Null
  | Bool bool
  | Number js_number
  | String string
  | Iso nat
  | Array "js_value list"
  | Object "(string \<times> js_value) list"

text \<open>\<open>String(n)\<close> of a non-negative integer.\<close>

fun show_nat :: "nat \<Rightarrow> string" where
  "show_nat n = (if n < 10 then [char_of (48 + n)] else show_nat (n div 10) @ [char_of (48 + n mod 10)])"

declare show_nat.simps [simp del]

section \<open>Amounts\<close>

definition AMOUNT_MIN :: int where "AMOUNT_MIN = 5"
definition AMOUNT_STEP :: int where "AMOUNT_STEP = 5"
definition AMOUNT_MAX :: int where "AMOUNT_MAX = 1000000000000"

fun isValidAmount :: "js_value \<Rightarrow> bool" where
  "isValidAmount (Number n) =
     (isInteger n \<and> AMOUNT_MIN \<le> integerOf n \<and> integerOf n \<le> AMOUNT_MAX
      \<and> integerOf n mod AMOUNT_STEP = 0)"
| "isValidAmount _ = False"

lemma isValidAmount_num [simp]:
  "isValidAmount (Number (num i)) \<longleftrightarrow> 5 \<le> i \<and> i \<le> 1000000000000 \<and> i mod 5 = 0"
  by (simp add: AMOUNT_MIN_def AMOUNT_MAX_def AMOUNT_STEP_def)

section \<open>References\<close>

datatype ReferencePrefix = USER | WALLET | PAYMENT | TRANSACTION

fun prefix_text :: "ReferencePrefix \<Rightarrow> string" where
  "prefix_text USER = ''usr''"
| "prefix_text WALLET = ''wlt''"
| "prefix_text PAYMENT = ''pay''"
| "prefix_text TRANSACTION = ''trx''"

definition ALPHABET :: string where
  "ALPHABET = ''0123456789abcdefghjkmnpqrstvwxyz''"

definition TIME_LENGTH :: nat where "TIME_LENGTH = 10"
definition REFERENCE_BODY_LENGTH :: nat where "REFERENCE_BODY_LENGTH = 26"
definition RANDOM_LENGTH :: nat where "RANDOM_LENGTH = REFERENCE_BODY_LENGTH - TIME_LENGTH"

text \<open>The character class \<open>[0-9a-hjkmnp-tv-z]\<close> of \<open>REFERENCE_BODY_PATTERN\<close>.\<close>

definition between :: "char \<Rightarrow> char \<Rightarrow> char \<Rightarrow> bool" where
  "between lo hi c \<longleftrightarrow> (of_char lo :: nat) \<le> of_char c \<and> (of_char c :: nat) \<le> of_char hi"

text \<open>The same comparison on the bits of a character, for evaluation.\<close>

fun bits_le :: "bool list \<Rightarrow> bool list \<Rightarrow> bool" where
  "bits_le (a # as) (b # bs) = (if as = bs then a \<longrightarrow> b else bits_le as bs)"
| "bits_le _ _ = True"

definition char_le :: "char \<Rightarrow> char \<Rightarrow> bool" where
  "char_le c d = ((of_char c :: nat) \<le> of_char d)"

lemma horner_inj: "length as = length bs \<Longrightarrow> horner_sum of_bool (2 :: nat) as = horner_sum of_bool 2 bs \<longleftrightarrow> as = bs"
proof (induction as bs rule: list_induct2)
  case (Cons a as b bs)
  have "of_bool a + 2 * x = of_bool b + 2 * y \<longleftrightarrow> a = b \<and> x = y" for x y :: nat
    by (cases a; cases b; simp; presburger?)
  with Cons show ?case by simp
qed simp

lemma horner_le: "length as = length bs \<Longrightarrow> horner_sum of_bool (2 :: nat) as \<le> horner_sum of_bool 2 bs \<longleftrightarrow> bits_le as bs"
proof (induction as bs rule: list_induct2)
  case (Cons a as b bs)
  have "of_bool a + 2 * x \<le> of_bool b + 2 * y \<longleftrightarrow> (if x = y then a \<longrightarrow> b else x \<le> y)" for x y :: nat
    by (cases a; cases b) auto
  with Cons show ?case by (simp add: horner_inj)
qed simp

lemma char_le_code [code]:
  "char_le (Char a0 a1 a2 a3 a4 a5 a6 a7) (Char b0 b1 b2 b3 b4 b5 b6 b7) =
     bits_le [a0, a1, a2, a3, a4, a5, a6, a7] [b0, b1, b2, b3, b4, b5, b6, b7]"
  unfolding char_le_def of_char_Char by (rule horner_le) simp

lemma between_code [code]: "between lo hi c = (char_le lo c \<and> char_le c hi)"
  by (simp add: between_def char_le_def)

definition reference_char :: "char \<Rightarrow> bool" where
  "reference_char c \<longleftrightarrow>
     between (CHR ''0'') (CHR ''9'') c \<or> between (CHR ''a'') (CHR ''h'') c \<or> c = CHR ''j''
     \<or> c = CHR ''k'' \<or> c = CHR ''m'' \<or> c = CHR ''n'' \<or> between (CHR ''p'') (CHR ''t'') c
     \<or> between (CHR ''v'') (CHR ''z'') c"

definition referencePattern :: "string \<Rightarrow> string \<Rightarrow> bool" where
  "referencePattern prefix s \<longleftrightarrow>
     (let body = drop (length prefix + 1) s in
      take (length prefix + 1) s = prefix @ ''_''
      \<and> length body = REFERENCE_BODY_LENGTH \<and> list_all reference_char body)"

lemma referencePattern_iff:
  "referencePattern p s \<longleftrightarrow> (\<exists>body. s = p @ ''_'' @ body \<and> length body = 26 \<and> list_all reference_char body)"
proof
  assume "referencePattern p s"
  then have "s = (p @ ''_'') @ drop (length p + 1) s"
    unfolding referencePattern_def Let_def by (metis append_take_drop_id)
  with \<open>referencePattern p s\<close> show "\<exists>body. s = p @ ''_'' @ body \<and> length body = 26 \<and> list_all reference_char body"
    by (auto simp: referencePattern_def Let_def REFERENCE_BODY_LENGTH_def)
qed (auto simp: referencePattern_def Let_def REFERENCE_BODY_LENGTH_def)

lemma referencePattern_length: "referencePattern p s \<Longrightarrow> length s = length p + 27"
  by (auto simp: referencePattern_iff)

text \<open>
  \<open>encodeTime\<close> prepends one digit per iteration; \<open>encodeRandom\<close> maps 16 random bytes to digits.
  The clock and the bytes are the inputs of the generator.
\<close>

definition digit :: "nat \<Rightarrow> char" where
  "digit d = ALPHABET ! (d mod 32)"

fun encodeTime_loop :: "nat \<Rightarrow> nat \<Rightarrow> string \<Rightarrow> string" where
  "encodeTime_loop 0 rest out = out"
| "encodeTime_loop (Suc i) rest out = encodeTime_loop i (rest div 32) (digit rest # out)"

definition encodeTime :: "nat \<Rightarrow> string" where
  "encodeTime now = encodeTime_loop TIME_LENGTH now []"

definition encodeRandom :: "(nat \<Rightarrow> nat) \<Rightarrow> string" where
  "encodeRandom bytes = map (\<lambda>i. digit (bytes i)) [0..<RANDOM_LENGTH]"

definition generateReference :: "ReferencePrefix \<Rightarrow> nat \<Rightarrow> (nat \<Rightarrow> nat) \<Rightarrow> string" where
  "generateReference prefix now bytes =
     prefix_text prefix @ ''_'' @ encodeTime now @ encodeRandom bytes"

lemma ALPHABET_length [simp]: "length ALPHABET = 32"
  by (simp add: ALPHABET_def)

lemma ALPHABET_class: "list_all reference_char ALPHABET"
  by (simp add: ALPHABET_def reference_char_def between_def)

lemma digit_class [simp]: "reference_char (digit d)"
  using ALPHABET_class by (simp add: digit_def list_all_length)

lemma encodeTime_loop_append: "encodeTime_loop n rest out = encodeTime_loop n rest [] @ out"
proof (induction n arbitrary: rest out)
  case (Suc n)
  show ?case
    by (simp) (metis Suc.IH append_Cons append_Nil append_assoc)
qed simp

lemma encodeTime_loop_Suc:
  "encodeTime_loop (Suc n) rest [] = encodeTime_loop n (rest div 32) [] @ [digit rest]"
  by (simp) (rule encodeTime_loop_append)

lemma encodeTime_loop_shape:
  "length (encodeTime_loop n rest []) = n \<and> list_all reference_char (encodeTime_loop n rest [])"
  by (induction n arbitrary: rest) (simp_all add: encodeTime_loop_Suc del: encodeTime_loop.simps(2))

lemma encodeTime_length [simp]: "length (encodeTime now) = 10"
  by (simp add: encodeTime_def encodeTime_loop_shape TIME_LENGTH_def)

lemma encodeRandom_length [simp]: "length (encodeRandom bytes) = 16"
  by (simp add: encodeRandom_def RANDOM_LENGTH_def REFERENCE_BODY_LENGTH_def TIME_LENGTH_def)

lemma generateReference_pattern: "referencePattern (prefix_text p) (generateReference p now bytes)"
proof -
  have "list_all reference_char (encodeTime now @ encodeRandom bytes)"
    using encodeTime_loop_shape by (simp add: encodeTime_def encodeRandom_def) (simp add: list_all_iff)
  then show ?thesis
    by (auto simp: referencePattern_iff generateReference_def)
qed

subsection \<open>Chronological order\<close>

definition char_less :: "(char \<times> char) set" where
  "char_less = {(a, b). (of_char a :: nat) < of_char b}"

lemma ALPHABET_sorted:
  assumes "i < j" and "j < 32"
  shows "(ALPHABET ! i, ALPHABET ! j) \<in> char_less"
proof -
  have "sorted_wrt (\<lambda>a b. (of_char a :: nat) < of_char b) ALPHABET"
    by (simp add: ALPHABET_def)
  with assms show ?thesis
    by (simp add: char_less_def sorted_wrt_iff_nth_less)
qed

lemma encodeTime_loop_order:
  assumes "a < b" and "b < 32 ^ n"
  shows "(encodeTime_loop n a [], encodeTime_loop n b []) \<in> lexord char_less"
  using assms
proof (induction n arbitrary: a b)
  case (Suc n)
  have len: "length (encodeTime_loop n c []) = n" for c
    using encodeTime_loop_shape by blast
  show ?case
  proof (cases "a div 32 < b div 32")
    case True
    moreover have "b div 32 < 32 ^ n" using Suc.prems(2) by (simp add: less_mult_imp_div_less mult.commute)
    ultimately have "(encodeTime_loop n (a div 32) [], encodeTime_loop n (b div 32) []) \<in> lexord char_less"
      by (rule Suc.IH)
    then show ?thesis
      unfolding encodeTime_loop_Suc by (rule lexord_sufI) (simp add: len)
  next
    case False
    with div_le_mono [of a b 32] \<open>a < b\<close> have eq: "a div 32 = b div 32"
      by simp
    then have "a mod 32 < b mod 32"
      using \<open>a < b\<close> div_mult_mod_eq [of a 32] div_mult_mod_eq [of b 32] by linarith
    then have "([digit a], [digit b]) \<in> lexord char_less"
      by (simp add: digit_def ALPHABET_sorted)
    with eq show ?thesis
      unfolding encodeTime_loop_Suc by (simp add: lexord_append_leftI)
  qed
qed simp

lemma generateReference_order:
  assumes "now < later" and "later < 2 ^ 50"
  shows "(generateReference p now bytes, generateReference p later bytes') \<in> lexord char_less"
proof -
  have "(encodeTime now, encodeTime later) \<in> lexord char_less"
    using assms unfolding encodeTime_def TIME_LENGTH_def by (intro encodeTime_loop_order) simp_all
  then show ?thesis
    by (simp add: generateReference_def lexord_sufI lexord_append_leftI)
qed

section \<open>Idempotency keys and descriptions\<close>

text \<open>\<open>TRANSACTION_ID_REGEX = /^[A-Za-z0-9:_-]{8,64}$/\<close>\<close>

definition alphanumeric :: "char \<Rightarrow> bool" where
  "alphanumeric c \<longleftrightarrow> between (CHR ''A'') (CHR ''Z'') c \<or> between (CHR ''a'') (CHR ''z'') c
     \<or> between (CHR ''0'') (CHR ''9'') c"

definition transaction_id_char :: "char \<Rightarrow> bool" where
  "transaction_id_char c \<longleftrightarrow> alphanumeric c \<or> c \<in> set '':_-''"

definition isTransactionId :: "string \<Rightarrow> bool" where
  "isTransactionId s \<longleftrightarrow> 8 \<le> length s \<and> length s \<le> 64 \<and> list_all transaction_id_char s"

text \<open>
  \<open>SAFE_DESCRIPTION_REGEX\<close>: letters and numbers (the Unicode classes L and N, restricted to the
  code points up to U+00FF), the space and a short punctuation set.
\<close>

definition unicode_letter :: "nat \<Rightarrow> bool" where
  "unicode_letter n \<longleftrightarrow> (65 \<le> n \<and> n \<le> 90) \<or> (97 \<le> n \<and> n \<le> 122) \<or> n = 170 \<or> n = 181 \<or> n = 186
     \<or> (192 \<le> n \<and> n \<le> 255 \<and> n \<noteq> 215 \<and> n \<noteq> 247)"

definition unicode_number :: "nat \<Rightarrow> bool" where
  "unicode_number n \<longleftrightarrow> (48 \<le> n \<and> n \<le> 57) \<or> n = 178 \<or> n = 179 \<or> n = 185 \<or> (188 \<le> n \<and> n \<le> 190)"

definition safe_description_char :: "char \<Rightarrow> bool" where
  "safe_description_char c \<longleftrightarrow> unicode_letter (of_char c) \<or> unicode_number (of_char c)
     \<or> c \<in> set '' .,:;!?()-+@'' \<or> of_char c = (34 :: nat) \<or> of_char c = (39 :: nat)"

definition DESCRIPTION_MAX_LENGTH :: nat where "DESCRIPTION_MAX_LENGTH = 255"

text \<open>\<open>IsSafeDescription({ required: true })\<close>\<close>

definition isSafeDescription :: "string \<Rightarrow> bool" where
  "isSafeDescription s \<longleftrightarrow> s \<noteq> [] \<and> length s \<le> DESCRIPTION_MAX_LENGTH \<and> list_all safe_description_char s"

lemma unsafe_description_chars: "list_all (\<lambda>c. \<not> safe_description_char c) ''#/$_&''"
  by code_simp

lemma safe_description_refuses:
  "c \<in> set ''#/$_&'' \<Longrightarrow> c \<in> set s \<Longrightarrow> \<not> isSafeDescription s"
  using unsafe_description_chars by (metis isSafeDescription_def list_all_iff)

lemma reference_char_alphanumeric: "reference_char c \<Longrightarrow> alphanumeric c"
  unfolding reference_char_def alphanumeric_def between_def
  by (elim disjE) auto

lemma alphanumeric_transaction_id [simp]: "alphanumeric c \<Longrightarrow> transaction_id_char c"
  by (simp add: transaction_id_char_def)

lemma prefix_chars: "list_all transaction_id_char ''usrwltpaytrx_''"
  by code_simp

lemma prefix_text_class: "list_all transaction_id_char (prefix_text p @ ''_'')"
  using prefix_chars by (cases p) simp_all

lemma prefix_text_length [simp]: "length (prefix_text p) = 3"
  by (cases p) simp_all

lemma reference_isTransactionId:
  assumes "referencePattern (prefix_text p) s" and "length rest \<le> 34" and "list_all transaction_id_char rest"
  shows "isTransactionId (s @ rest)"
proof -
  from assms(1) obtain body where s: "s = (prefix_text p @ ''_'') @ body"
    and body: "length body = 26" "list_all reference_char body"
    by (auto simp: referencePattern_iff)
  have "list_all transaction_id_char body"
    using body(2) reference_char_alphanumeric by (simp add: list_all_iff)
  then have "list_all transaction_id_char (s @ rest)"
    unfolding s using prefix_text_class assms(3) by (simp only: list_all_append)
  moreover have "length s = 30"
    using s body(1) by simp
  ultimately show ?thesis
    using assms(2) by (simp add: isTransactionId_def)
qed

end
