(* ===== verification/Shared.thy ===== *)
theory Shared
  imports Contract "HOL-Library.Log_Nat"
begin

text \<open>
  The rest of \<open>packages/shared\<close> the services rely on: application codes and exceptions, the
  response envelope with its interceptor and its catch-all filter, pagination, correlation ids,
  the classification of PostgreSQL errors and the reading of \<open>bigint\<close> columns as JavaScript
  numbers.
\<close>

section \<open>Application codes and exceptions\<close>

datatype ResponseMessage =
    SUCCESS | CREATED | VALIDATION_FAILED | INSUFFICIENT_BALANCE | WALLET_NOT_FOUND
  | TRANSACTION_NOT_FOUND | USER_NOT_FOUND | WALLET_FROZEN | DUPLICATE_TRANSACTION
  | IDEMPOTENCY_CONFLICT | CURRENCY_MISMATCH | RATE_LIMIT_EXCEEDED | UPSTREAM_UNAVAILABLE
  | INTERNAL_ERROR

fun ResponseCode :: "ResponseMessage \<Rightarrow> string" where
  "ResponseCode SUCCESS = ''200''"
| "ResponseCode CREATED = ''201''"
| "ResponseCode VALIDATION_FAILED = ''4000''"
| "ResponseCode INSUFFICIENT_BALANCE = ''4001''"
| "ResponseCode USER_NOT_FOUND = ''4002''"
| "ResponseCode WALLET_NOT_FOUND = ''4003''"
| "ResponseCode TRANSACTION_NOT_FOUND = ''4008''"
| "ResponseCode WALLET_FROZEN = ''4004''"
| "ResponseCode CURRENCY_MISMATCH = ''4005''"
| "ResponseCode DUPLICATE_TRANSACTION = ''4006''"
| "ResponseCode IDEMPOTENCY_CONFLICT = ''4007''"
| "ResponseCode RATE_LIMIT_EXCEEDED = ''4009''"
| "ResponseCode INTERNAL_ERROR = ''5000''"
| "ResponseCode UPSTREAM_UNAVAILABLE = ''5001''"

record 'p AppException =
  app_code :: string
  responseMessage :: ResponseMessage
  httpStatus :: nat
  payload :: "'p option"

definition AppException_of :: "ResponseMessage \<Rightarrow> nat \<Rightarrow> 'p option \<Rightarrow> 'p AppException" where
  "AppException_of msg st data =
     \<lparr>app_code = ResponseCode msg, responseMessage = msg, httpStatus = st, payload = data\<rparr>"

definition ValidationFailedException :: "'p option \<Rightarrow> 'p AppException" where
  "ValidationFailedException = AppException_of VALIDATION_FAILED 400"
definition UserNotFoundException :: "'p option \<Rightarrow> 'p AppException" where
  "UserNotFoundException = AppException_of USER_NOT_FOUND 404"
definition WalletNotFoundException :: "'p option \<Rightarrow> 'p AppException" where
  "WalletNotFoundException = AppException_of WALLET_NOT_FOUND 404"
definition TransactionNotFoundException :: "'p option \<Rightarrow> 'p AppException" where
  "TransactionNotFoundException = AppException_of TRANSACTION_NOT_FOUND 404"
definition WalletFrozenException :: "'p option \<Rightarrow> 'p AppException" where
  "WalletFrozenException = AppException_of WALLET_FROZEN 422"
definition InsufficientBalanceException :: "'p option \<Rightarrow> 'p AppException" where
  "InsufficientBalanceException = AppException_of INSUFFICIENT_BALANCE 422"
definition CurrencyMismatchException :: "'p option \<Rightarrow> 'p AppException" where
  "CurrencyMismatchException = AppException_of CURRENCY_MISMATCH 422"
definition IdempotencyConflictException :: "'p option \<Rightarrow> 'p AppException" where
  "IdempotencyConflictException = AppException_of IDEMPOTENCY_CONFLICT 409"
definition DuplicateTransactionException :: "'p option \<Rightarrow> 'p AppException" where
  "DuplicateTransactionException = AppException_of DUPLICATE_TRANSACTION 409"
definition UpstreamUnavailableException :: "'p option \<Rightarrow> 'p AppException" where
  "UpstreamUnavailableException = AppException_of UPSTREAM_UNAVAILABLE 503"
definition InternalErrorException :: "'p option \<Rightarrow> 'p AppException" where
  "InternalErrorException = AppException_of INTERNAL_ERROR 500"
definition RateLimitExceededException :: "'p AppException" where
  "RateLimitExceededException = AppException_of RATE_LIMIT_EXCEEDED 429 None"
text \<open>\<open>UnauthorizedInternalCallException\<close> of the internal API key guard.\<close>

definition UnauthorizedInternalCallException :: "'p AppException" where
  "UnauthorizedInternalCallException = AppException_of VALIDATION_FAILED 401 None"

lemmas app_exception_defs =
  ValidationFailedException_def UserNotFoundException_def WalletNotFoundException_def
  TransactionNotFoundException_def WalletFrozenException_def InsufficientBalanceException_def
  CurrencyMismatchException_def IdempotencyConflictException_def RateLimitExceededException_def
  DuplicateTransactionException_def UpstreamUnavailableException_def InternalErrorException_def
  UnauthorizedInternalCallException_def AppException_of_def

section \<open>Enumerations\<close>

datatype TransactionType = DEBIT | CREDIT | REFUND
datatype TransactionStatus = PENDING | APPROVED | DECLINED
datatype WalletStatus = ACTIVE | FROZEN
datatype DeclinedReason = INSUFFICIENT_BALANCE_DECLINE | WALLET_FROZEN_DECLINE | CURRENCY_MISMATCH_DECLINE

section \<open>Validation of a request body\<close>

text \<open>
  \<open>createValidationPipe\<close>: unknown properties are refused, every rule of every property is
  checked, and the failure names all faulty fields. A body is the list of its properties.
\<close>

type_synonym json_object = "(string \<times> js_value) list"
type_synonym field_rule = "string \<times> (js_value \<Rightarrow> bool)"

definition property_of :: "string \<Rightarrow> json_object \<Rightarrow> js_value" where
  "property_of name body = (case map_of body name of None \<Rightarrow> Undefined | Some v \<Rightarrow> v)"

definition faulty_fields :: "field_rule list \<Rightarrow> json_object \<Rightarrow> string list" where
  "faulty_fields rules body =
     filter (\<lambda>name. name \<notin> set (map fst rules)) (map fst body)
     @ map fst (filter (\<lambda>(name, rule). \<not> rule (property_of name body)) rules)"

definition optional_rule :: "(js_value \<Rightarrow> bool) \<Rightarrow> js_value \<Rightarrow> bool" where
  "optional_rule rule v \<longleftrightarrow> v = Undefined \<or> v = Null \<or> rule v"

fun text_rule :: "(string \<Rightarrow> bool) \<Rightarrow> js_value \<Rightarrow> bool" where
  "text_rule p (String s) = p s"
| "text_rule p _ = False"

fun text_of :: "js_value \<Rightarrow> string" where
  "text_of (String s) = s"
| "text_of _ = []"

fun optional_text_of :: "js_value \<Rightarrow> string option" where
  "optional_text_of (String s) = Some s"
| "optional_text_of _ = None"

fun integer_of :: "js_value \<Rightarrow> int" where
  "integer_of (Number n) = integerOf n"
| "integer_of _ = 0"

text \<open>\<open>IsCurrency\<close>: a string of length 3 among the values of the \<open>Currency\<close> enumeration.\<close>

definition isCurrency :: "string \<Rightarrow> bool" where
  "isCurrency s \<longleftrightarrow> length s = 3 \<and> s = ''XOF''"

text \<open>\<open>ReferencePipe(prefix).transform\<close>: the value, or a refusal that names the field.\<close>

definition ReferencePipe :: "ReferencePrefix \<Rightarrow> string \<Rightarrow> string list + string" where
  "ReferencePipe p v = (if referencePattern (prefix_text p) v then Inr v else Inl [''reference''])"

lemma faulty_fields_none:
  "faulty_fields rules body = [] \<Longrightarrow> (name, rule) \<in> set rules \<Longrightarrow> rule (property_of name body)"
  by (auto simp: faulty_fields_def filter_empty_conv)

section \<open>The response envelope\<close>

record 'd ApiResponse =
  env_code :: string
  env_message :: ResponseMessage
  env_data :: "'d option"

definition ApiResponse_ok :: "'d option \<Rightarrow> 'd ApiResponse" where
  "ApiResponse_ok data = \<lparr>env_code = ResponseCode SUCCESS, env_message = SUCCESS, env_data = data\<rparr>"

definition ApiResponse_created :: "'d option \<Rightarrow> 'd ApiResponse" where
  "ApiResponse_created data = \<lparr>env_code = ResponseCode CREATED, env_message = CREATED, env_data = data\<rparr>"

text \<open>\<open>ResponseInterceptor\<close>: a handler that built the envelope itself is passed through.\<close>

datatype 'd handler_result = Enveloped "'d ApiResponse" | Plain "'d option"

definition ResponseInterceptor :: "nat \<Rightarrow> 'd handler_result \<Rightarrow> 'd ApiResponse" where
  "ResponseInterceptor status result = (case result of
     Enveloped r \<Rightarrow> r
   | Plain body \<Rightarrow> if status = 201 then ApiResponse_created body else ApiResponse_ok body)"

text \<open>\<open>AllExceptionsFilter\<close>: a domain exception, a framework \<open>HttpException\<close> or anything else.\<close>

datatype 'p thrown = App "'p AppException" | Http nat | Unknown string

definition codeForHttpStatus :: "nat \<Rightarrow> string" where
  "codeForHttpStatus status = (if status \<ge> 500 then ResponseCode INTERNAL_ERROR else ResponseCode VALIDATION_FAILED)"

definition messageForHttpStatus :: "nat \<Rightarrow> ResponseMessage" where
  "messageForHttpStatus status = (if status \<ge> 500 then INTERNAL_ERROR else VALIDATION_FAILED)"

fun AllExceptionsFilter :: "'p thrown \<Rightarrow> nat \<times> 'p ApiResponse" where
  "AllExceptionsFilter (App e) =
     (httpStatus e, \<lparr>env_code = app_code e, env_message = responseMessage e, env_data = payload e\<rparr>)"
| "AllExceptionsFilter (Http status) =
     (status, \<lparr>env_code = codeForHttpStatus status, env_message = messageForHttpStatus status, env_data = None\<rparr>)"
| "AllExceptionsFilter (Unknown _) =
     (500, \<lparr>env_code = ResponseCode INTERNAL_ERROR, env_message = INTERNAL_ERROR, env_data = None\<rparr>)"

section \<open>Pagination\<close>

definition DEFAULT_PER_PAGE :: nat where "DEFAULT_PER_PAGE = 20"
definition MAX_PER_PAGE :: nat where "MAX_PER_PAGE = 100"
definition MAX_PAGE :: nat where "MAX_PAGE = 10000"

record PaginationQuery =
  query_page :: "nat option"
  query_per_page :: "nat option"

definition valid_pagination :: "PaginationQuery \<Rightarrow> bool" where
  "valid_pagination q \<longleftrightarrow>
     (case query_page q of None \<Rightarrow> True | Some p \<Rightarrow> 1 \<le> p \<and> p \<le> MAX_PAGE)
     \<and> (case query_per_page q of None \<Rightarrow> True | Some n \<Rightarrow> 1 \<le> n \<and> n \<le> MAX_PER_PAGE)"

record ResolvedPagination =
  page :: nat
  perPage :: nat
  skip :: nat

definition resolvePagination :: "PaginationQuery \<Rightarrow> ResolvedPagination" where
  "resolvePagination q =
     (let p = (case query_page q of None \<Rightarrow> 1 | Some p \<Rightarrow> p);
          n = (case query_per_page q of None \<Rightarrow> DEFAULT_PER_PAGE | Some n \<Rightarrow> n)
      in \<lparr>page = p, perPage = n, skip = (p - 1) * n\<rparr>)"

record 'a PaginatedData =
  items :: "'a list"
  page_number :: nat
  per_page :: nat
  total :: nat
  has_next :: bool

definition PaginatedData_of :: "'a list \<Rightarrow> nat \<Rightarrow> nat \<Rightarrow> nat \<Rightarrow> 'a PaginatedData" where
  "PaginatedData_of xs p n tot =
     \<lparr>items = xs, page_number = p, per_page = n, total = tot, has_next = p * n < tot\<rparr>"

text \<open>\<open>.skip(s).take(n).getManyAndCount()\<close> over the ordered rows that match the filter.\<close>

definition getManyAndCount :: "nat \<Rightarrow> nat \<Rightarrow> 'a list \<Rightarrow> 'a list \<times> nat" where
  "getManyAndCount s n rows = (take n (drop s rows), length rows)"

lemma resolvePagination_bounds:
  assumes "valid_pagination q"
  shows "1 \<le> page (resolvePagination q)" "1 \<le> perPage (resolvePagination q)"
    "perPage (resolvePagination q) \<le> 100" "skip (resolvePagination q) \<le> 999900"
proof -
  have p: "1 \<le> page (resolvePagination q)" "page (resolvePagination q) \<le> 10000"
    and n: "1 \<le> perPage (resolvePagination q)" "perPage (resolvePagination q) \<le> 100"
    using assms by (auto simp: valid_pagination_def resolvePagination_def Let_def MAX_PAGE_def
        MAX_PER_PAGE_def DEFAULT_PER_PAGE_def split: option.splits)
  show "1 \<le> page (resolvePagination q)" "1 \<le> perPage (resolvePagination q)"
    "perPage (resolvePagination q) \<le> 100" using p n by auto
  have "skip (resolvePagination q) = (page (resolvePagination q) - 1) * perPage (resolvePagination q)"
    by (simp add: resolvePagination_def Let_def)
  also have "\<dots> \<le> 9999 * 100"
    using p n by (intro mult_le_mono) auto
  finally show "skip (resolvePagination q) \<le> 999900" by simp
qed

lemma pages_tile:
  assumes "0 < n"
  shows "concat (map (\<lambda>p. fst (getManyAndCount ((p - 1) * n) n rows)) [1..<Suc k]) = take (k * n) rows"
proof (induction k)
  case (Suc k)
  have "take (Suc k * n) rows = take (k * n) rows @ take n (drop (k * n) rows)"
    using take_add [of "k * n" n rows] by (simp add: add.commute)
  with Suc show ?case
    by (simp add: getManyAndCount_def)
qed simp

section \<open>Correlation ids\<close>

text \<open>An HTTP header as Node presents it: absent, one value, or several.\<close>

datatype header = Absent | One string | Many "string list"

fun header_value :: "header \<Rightarrow> string option" where
  "header_value Absent = None"
| "header_value (One v) = Some v"
| "header_value (Many vs) = (case vs of [] \<Rightarrow> None | v # _ \<Rightarrow> Some v)"

definition correlation_char :: "char \<Rightarrow> bool" where
  "correlation_char c \<longleftrightarrow> alphanumeric c \<or> c \<in> set ''._:-''"

definition isSafeCorrelationId :: "string \<Rightarrow> bool" where
  "isSafeCorrelationId s \<longleftrightarrow> 1 \<le> length s \<and> length s \<le> 128 \<and> list_all correlation_char s"

definition correlationIdOf :: "header \<Rightarrow> string \<Rightarrow> string" where
  "correlationIdOf h generated = (case header_value h of
     None \<Rightarrow> generated
   | Some v \<Rightarrow> if v \<noteq> [] \<and> isSafeCorrelationId v then v else generated)"

lemma correlationIdOf_safe: "isSafeCorrelationId g \<Longrightarrow> isSafeCorrelationId (correlationIdOf h g)"
  by (simp add: correlationIdOf_def split: option.splits)

section \<open>PostgreSQL errors and bigint columns\<close>

record DriverError =
  sqlstate :: "string option"
  err_constraint :: "string option"

definition PG_UNIQUE_VIOLATION :: string where "PG_UNIQUE_VIOLATION = ''23505''"

definition isUniqueViolation :: "DriverError \<Rightarrow> string option \<Rightarrow> bool" where
  "isUniqueViolation e c \<longleftrightarrow>
     sqlstate e = Some PG_UNIQUE_VIOLATION \<and> (c = None \<or> err_constraint e = c)"

text \<open>A \<open>bigint\<close> column holds 64-bit values; storing anything else is an error, not a wrap-around.\<close>

definition bigint_ok :: "int \<Rightarrow> bool" where
  "bigint_ok i \<longleftrightarrow> - (2 ^ 63) \<le> i \<and> i < 2 ^ 63"

text \<open>
  \<open>Number(value)\<close> of a decimal string: the nearest IEEE double, ties to even. Integers below
  \<open>2 ^ 53\<close> are exact.
\<close>

definition to_double :: "int \<Rightarrow> int" where
  "to_double n =
     (let a = \<bar>n\<bar> in
      if a \<le> 2 ^ 53 then n
      else (let k = nat (bitlen a - 53); q = a div 2 ^ k; r = a mod 2 ^ k; half = 2 ^ (k - 1);
                q' = (if half < r \<or> (r = half \<and> odd q) then q + 1 else q)
            in sgn n * (q' * 2 ^ k)))"

fun bigintTransformer_from :: "int option \<Rightarrow> int" where
  "bigintTransformer_from None = 0"
| "bigintTransformer_from (Some v) = to_double v"

text \<open>Subtraction of two integral JavaScript numbers.\<close>

definition js_sub :: "int \<Rightarrow> int \<Rightarrow> int" where
  "js_sub a b = to_double (a - b)"

lemma to_double_exact [simp]: "\<bar>n\<bar> \<le> 2 ^ 53 \<Longrightarrow> to_double n = n"
  by (simp add: to_double_def)

lemma to_double_rounds: "to_double 9007199254740993 = 9007199254740992"
  by code_simp

end
