(* ===== verification/Errors.thy ===== *)
theory Errors
  imports Shared
begin

text \<open>
  Everything a computation of the payments service can throw: the domain errors of
  \<open>domain/errors\<close> with their codes and messages, the value-object errors, the transport failures of
  the HTTP client, errors of the driver, and the death of the process, which no \<open>catch\<close> sees.
\<close>

section \<open>Statuses and failure reasons\<close>

datatype PaymentStatus = Pending | Processing | Approved | Declined | Compensated | CompensationPending

fun ALLOWED_TRANSITIONS :: "PaymentStatus \<Rightarrow> PaymentStatus list" where
  "ALLOWED_TRANSITIONS Pending = [Processing, Declined]"
| "ALLOWED_TRANSITIONS Processing = [Approved, Declined, Compensated, CompensationPending]"
| "ALLOWED_TRANSITIONS CompensationPending = [Compensated]"
| "ALLOWED_TRANSITIONS Approved = []"
| "ALLOWED_TRANSITIONS Declined = []"
| "ALLOWED_TRANSITIONS Compensated = []"

definition TERMINAL_STATUSES :: "PaymentStatus list" where
  "TERMINAL_STATUSES = [Approved, Declined, Compensated]"

lemma terminal_iff: "s \<in> set TERMINAL_STATUSES \<longleftrightarrow> ALLOWED_TRANSITIONS s = []"
  by (cases s) (simp_all add: TERMINAL_STATUSES_def)

fun status_text :: "PaymentStatus \<Rightarrow> string" where
  "status_text Pending = ''Pending''"
| "status_text Processing = ''Processing''"
| "status_text Approved = ''Approved''"
| "status_text Declined = ''Declined''"
| "status_text Compensated = ''Compensated''"
| "status_text CompensationPending = ''CompensationPending''"

datatype FailureReason =
    INSUFFICIENT_BALANCE_REASON | WALLET_NOT_FOUND_REASON | WALLET_FROZEN_REASON
  | CURRENCY_MISMATCH_REASON | ACCOUNTS_UNAVAILABLE_REASON | CREDIT_FAILED_REASON

fun reason_text :: "FailureReason \<Rightarrow> string" where
  "reason_text INSUFFICIENT_BALANCE_REASON = ''INSUFFICIENT_BALANCE''"
| "reason_text WALLET_NOT_FOUND_REASON = ''WALLET_NOT_FOUND''"
| "reason_text WALLET_FROZEN_REASON = ''WALLET_FROZEN''"
| "reason_text CURRENCY_MISMATCH_REASON = ''CURRENCY_MISMATCH''"
| "reason_text ACCOUNTS_UNAVAILABLE_REASON = ''ACCOUNTS_UNAVAILABLE''"
| "reason_text CREDIT_FAILED_REASON = ''CREDIT_FAILED''"

section \<open>Domain errors\<close>

datatype DomainError =
    AccountsUnavailableError string "string option"
  | ConcurrentPaymentError string
  | InsufficientBalanceError string
  | InvalidTransitionError PaymentStatus PaymentStatus
  | PaymentNotFoundError string
  | IdempotencyConflictError string
  | RequestInProgressError string
  | WalletNotFoundError string
  | WalletFrozenError string
  | CurrencyMismatchError string
  | SameWalletError string

fun code :: "DomainError \<Rightarrow> string" where
  "code (AccountsUnavailableError _ _) = ''ACCOUNTS_UNAVAILABLE''"
| "code (ConcurrentPaymentError _) = ''PAYMENT_CONFLICT''"
| "code (InsufficientBalanceError _) = ''INSUFFICIENT_BALANCE''"
| "code (InvalidTransitionError _ _) = ''INVALID_TRANSITION''"
| "code (PaymentNotFoundError _) = ''PAYMENT_NOT_FOUND''"
| "code (IdempotencyConflictError _) = ''IDEMPOTENCY_CONFLICT''"
| "code (RequestInProgressError _) = ''REQUEST_IN_PROGRESS''"
| "code (WalletNotFoundError _) = ''WALLET_NOT_FOUND''"
| "code (WalletFrozenError _) = ''WALLET_FROZEN''"
| "code (CurrencyMismatchError _) = ''CURRENCY_MISMATCH''"
| "code (SameWalletError _) = ''SAME_WALLET''"

fun message :: "DomainError \<Rightarrow> string" where
  "message (AccountsUnavailableError operation _) = ''accounts is unavailable ('' @ operation @ '')''"
| "message (ConcurrentPaymentError _) = ''payment is already being processed or has changed''"
| "message (InsufficientBalanceError w) = ''wallet '' @ w @ '' does not hold enough funds''"
| "message (InvalidTransitionError from to) =
     ''a payment cannot move from '' @ status_text from @ '' to '' @ status_text to"
| "message (PaymentNotFoundError r) = ''payment '' @ r @ '' does not exist''"
| "message (IdempotencyConflictError k) =
     ''idempotency key '' @ k @ '' was already used with a different payload''"
| "message (RequestInProgressError k) =
     ''a request with idempotency key '' @ k @ '' is still in progress''"
| "message (WalletNotFoundError w) = ''wallet '' @ w @ '' does not exist''"
| "message (WalletFrozenError w) = ''wallet '' @ w @ '' is frozen''"
| "message (CurrencyMismatchError w) = ''wallet '' @ w @ '' is held in another currency''"
| "message (SameWalletError _) = ''the source and destination wallets must differ''"

text \<open>\<open>DomainError.details\<close>: extra context for the caller.\<close>

fun details :: "DomainError \<Rightarrow> (string \<times> js_value) list" where
  "details (AccountsUnavailableError operation cause) =
     (''operation'', String operation) #
     (case cause of Some c \<Rightarrow> if c = [] then [] else [(''cause'', String c)] | None \<Rightarrow> [])"
| "details (ConcurrentPaymentError r) = [(''reference'', String r)]"
| "details (InsufficientBalanceError w) = [(''wallet_reference'', String w)]"
| "details (InvalidTransitionError from to) =
     [(''from'', String (status_text from)), (''to'', String (status_text to))]"
| "details (PaymentNotFoundError r) = [(''reference'', String r)]"
| "details (IdempotencyConflictError k) = [(''transaction_id'', String k)]"
| "details (RequestInProgressError k) = [(''transaction_id'', String k)]"
| "details (WalletNotFoundError w) = [(''wallet_reference'', String w)]"
| "details (WalletFrozenError w) = [(''wallet_reference'', String w)]"
| "details (CurrencyMismatchError w) = [(''wallet_reference'', String w)]"
| "details (SameWalletError w) = [(''wallet_reference'', String w)]"

definition BY_CODE :: "string \<Rightarrow> FailureReason option" where
  "BY_CODE = map_of
    [(''INSUFFICIENT_BALANCE'', INSUFFICIENT_BALANCE_REASON),
     (''WALLET_NOT_FOUND'', WALLET_NOT_FOUND_REASON),
     (''WALLET_FROZEN'', WALLET_FROZEN_REASON),
     (''CURRENCY_MISMATCH'', CURRENCY_MISMATCH_REASON),
     (''ACCOUNTS_UNAVAILABLE'', ACCOUNTS_UNAVAILABLE_REASON)]"

definition failureReasonOf :: "DomainError \<Rightarrow> FailureReason" where
  "failureReasonOf e = (case BY_CODE (code e) of Some r \<Rightarrow> r | None \<Rightarrow> ACCOUNTS_UNAVAILABLE_REASON)"

lemma failureReasonOf_cases:
  "failureReasonOf e = (case e of
     InsufficientBalanceError _ \<Rightarrow> INSUFFICIENT_BALANCE_REASON
   | WalletNotFoundError _ \<Rightarrow> WALLET_NOT_FOUND_REASON
   | WalletFrozenError _ \<Rightarrow> WALLET_FROZEN_REASON
   | CurrencyMismatchError _ \<Rightarrow> CURRENCY_MISMATCH_REASON
   | _ \<Rightarrow> ACCOUNTS_UNAVAILABLE_REASON)"
  by (cases e) (simp_all add: failureReasonOf_def BY_CODE_def)

section \<open>Whatever can be thrown\<close>

text \<open>The shape of a transport failure, as \<open>shapeOf\<close> extracts it for the retry policy.\<close>

record FailureShape =
  shape_status :: "nat option"
  shape_code :: "string option"
  timedOut :: bool

datatype exn =
    Domain DomainError
  | MalformedReferenceError string string
  | InvalidMoneyError string js_number
  | UpstreamHttpError nat string
  | Transport FailureShape string
  | CircuitOpenError
  | Plain string
  | ProcessDied

fun isDomainError :: "exn \<Rightarrow> bool" where
  "isDomainError (Domain _) = True"
| "isDomainError _ = False"

text \<open>
  \<open>Transport\<close> carries the message the HTTP library gave. \<open>String(n)\<close> is written out for the integers a
  \<open>bigint\<close> column can hold; a fraction never reaches \<open>Money.of\<close> in this service.
\<close>

definition show_int :: "int \<Rightarrow> string" where
  "show_int i = (if i < 0 then CHR ''-'' # show_nat (nat (- i)) else show_nat (nat i))"

definition number_text :: "js_number \<Rightarrow> string" where
  "number_text n = (if isInteger n then show_int (integerOf n) else ''NaN'')"

text \<open>The \<open>message\<close> property of a thrown error, as the recovery job stores it.\<close>

fun exn_message :: "exn \<Rightarrow> string" where
  "exn_message (Domain e) = message e"
| "exn_message (MalformedReferenceError prefix value) =
     [CHR 0x22] @ value @ [CHR 0x22] @ '' is not a valid '' @ prefix @ ''_ reference''"
| "exn_message (InvalidMoneyError rule n) = rule @ '', got '' @ number_text n"
| "exn_message (UpstreamHttpError status msg) = ''accounts answered '' @ show_nat status @ '': '' @ msg"
| "exn_message (Transport _ msg) = msg"
| "exn_message CircuitOpenError = ''the circuit to accounts is open''"
| "exn_message (Plain s) = s"
| "exn_message ProcessDied = []"

end
