(* ===== verification/Domain.thy ===== *)
theory Domain
  imports Errors
begin

text \<open>
  \<open>services/payments/src/domain/model\<close> and \<open>domain/events\<close>: the value objects \<open>Money\<close> and
  \<open>Reference\<close>, the \<open>Payment\<close> aggregate with its transitions and the events it accumulates, and
  its flat snapshot. An operation of the aggregate is a computation on the payment itself, so an
  exception leaves whatever the method had already written.
\<close>

section \<open>Money\<close>

datatype Currency = XOF

fun currency_text :: "Currency \<Rightarrow> string" where
  "currency_text XOF = ''XOF''"

record Money =
  amount :: int
  currency :: Currency

definition MINIMUM :: int where "MINIMUM = 5"
definition STEP :: int where "STEP = 5"

definition Money_of :: "js_number \<Rightarrow> Currency \<Rightarrow> exn + Money" where
  "Money_of n c =
     (if \<not> isInteger n then Inl (InvalidMoneyError ''amount must be an integer'' n)
      else if integerOf n < MINIMUM then Inl (InvalidMoneyError ''amount must be at least 5'' n)
      else if integerOf n mod STEP \<noteq> 0 then Inl (InvalidMoneyError ''amount must be a multiple of 5'' n)
      else Inr \<lparr>amount = integerOf n, currency = c\<rparr>)"

definition wf_money :: "Money \<Rightarrow> bool" where
  "wf_money m \<longleftrightarrow> 5 \<le> amount m \<and> amount m mod 5 = 0"

lemma Money_of_wf: "Money_of n c = Inr m \<Longrightarrow> wf_money m \<and> currency m = c"
  by (auto simp: Money_of_def wf_money_def MINIMUM_def STEP_def split: if_splits)

lemma Money_of_num: "wf_money m \<Longrightarrow> Money_of (num (amount m)) (currency m) = Inr m"
  by (simp add: Money_of_def wf_money_def MINIMUM_def STEP_def)

text \<open>The domain rule and the DTO rule differ only in the upper bound.\<close>

lemma isValidAmount_Money:
  "isValidAmount (Number n) \<longleftrightarrow> (\<exists>m. Money_of n c = Inr m \<and> amount m \<le> AMOUNT_MAX)"
  by (auto simp: Money_of_def MINIMUM_def STEP_def AMOUNT_MIN_def AMOUNT_STEP_def split: if_splits)

section \<open>References\<close>

record Reference =
  prefix :: string
  "value" :: string

text \<open>The regular expression built from the alphabet itself, not the shared character class.\<close>

definition domain_pattern :: "string \<Rightarrow> string \<Rightarrow> bool" where
  "domain_pattern p s \<longleftrightarrow>
     (let body = drop (length p + 1) s in
      take (length p + 1) s = p @ ''_''
      \<and> length body = TIME_LENGTH + RANDOM_LENGTH \<and> list_all (\<lambda>c. c \<in> set ALPHABET) body)"

definition Reference_of :: "ReferencePrefix \<Rightarrow> string \<Rightarrow> exn + Reference" where
  "Reference_of p v =
     (if domain_pattern (prefix_text p) v then Inr \<lparr>prefix = prefix_text p, value = v\<rparr>
      else Inl (MalformedReferenceError (prefix_text p) v))"

text \<open>
  \<open>Reference.generate\<close>: \<open>random ()\<close> returns \<open>k / 2 ^ 53\<close> for some \<open>k < 2 ^ 53\<close>; the digit is
  \<open>Math.floor(random() * 32) % 32\<close>. \<open>draws i\<close> is the \<open>k\<close> of the i-th call.
\<close>

definition random_digit :: "nat \<Rightarrow> char" where
  "random_digit k = digit (k * 32 div 2 ^ 53)"

definition Reference_generate :: "ReferencePrefix \<Rightarrow> nat \<Rightarrow> (nat \<Rightarrow> nat) \<Rightarrow> Reference" where
  "Reference_generate p now draws =
     \<lparr>prefix = prefix_text p,
      value = prefix_text p @ ''_'' @ encodeTime now
                @ map (\<lambda>i. random_digit (draws i)) [0..<RANDOM_LENGTH]\<rparr>"

definition ref_equals :: "Reference \<Rightarrow> Reference \<Rightarrow> bool" where
  "ref_equals a b \<longleftrightarrow> value a = value b"

lemma char_eq_iff_code: "c = d \<longleftrightarrow> (of_char c :: nat) = of_char d"
  by (metis char_of_char)

lemma inj_of_char_nat: "inj (of_char :: char \<Rightarrow> nat)"
  by (rule injI) (metis char_of_char)

lemma ALPHABET_codes:
  "map of_char ALPHABET = [48..<58] @ [97..<105] @ [106, 107, 109, 110] @ [112..<117] @ [118..<123::nat]"
  by code_simp

lemma alphabet_is_class: "c \<in> set ALPHABET \<longleftrightarrow> reference_char c"
proof -
  have "c \<in> set ALPHABET \<longleftrightarrow> (of_char c :: nat) \<in> of_char ` set ALPHABET"
    by (simp add: inj_image_mem_iff inj_of_char_nat)
  also have "of_char ` set ALPHABET = set ([48..<58] @ [97..<105] @ [106, 107, 109, 110] @ [112..<117] @ [118..<123::nat])"
    unfolding ALPHABET_codes [symmetric] by simp
  also have "(of_char c :: nat) \<in> \<dots> \<longleftrightarrow> reference_char c"
    unfolding reference_char_def between_def char_eq_iff_code [of c] set_append set_upt by auto
  finally show ?thesis .
qed

lemma domain_pattern_shared: "domain_pattern p s = referencePattern p s"
  by (simp add: domain_pattern_def referencePattern_def alphabet_is_class RANDOM_LENGTH_def
      TIME_LENGTH_def REFERENCE_BODY_LENGTH_def)

lemma Reference_of_Inr [simp]:
  "Reference_of p v = Inr r \<longleftrightarrow> referencePattern (prefix_text p) v \<and> r = \<lparr>prefix = prefix_text p, value = v\<rparr>"
  by (auto simp: Reference_of_def domain_pattern_shared)

lemma Reference_of_Inl [simp]:
  "Reference_of p v = Inl e \<longleftrightarrow>
     \<not> referencePattern (prefix_text p) v \<and> e = MalformedReferenceError (prefix_text p) v"
  by (auto simp: Reference_of_def domain_pattern_shared)

definition wf_ref :: "ReferencePrefix \<Rightarrow> Reference \<Rightarrow> bool" where
  "wf_ref p r \<longleftrightarrow> prefix r = prefix_text p \<and> referencePattern (prefix_text p) (value r)"

lemma Reference_of_value: "wf_ref p r \<Longrightarrow> Reference_of p (value r) = Inr r"
  by (simp add: wf_ref_def)

lemma Reference_generate_wf: "wf_ref p (Reference_generate p now draws)"
proof -
  have "list_all reference_char (encodeTime now @ map (\<lambda>i. random_digit (draws i)) [0..<RANDOM_LENGTH])"
    using encodeTime_loop_shape
    by (simp add: encodeTime_def random_digit_def) (simp add: list_all_iff)
  moreover have "length (encodeTime now @ map (\<lambda>i. random_digit (draws i)) [0..<RANDOM_LENGTH]) = 26"
    by (simp add: RANDOM_LENGTH_def REFERENCE_BODY_LENGTH_def TIME_LENGTH_def)
  ultimately show ?thesis
    unfolding wf_ref_def Reference_generate_def referencePattern_iff by auto
qed

end
