(* ===== verification/Payment.thy ===== *)
theory Payment
  imports Domain
begin

text \<open>
  The \<open>Payment\<close> aggregate of \<open>domain/model/payment.ts\<close>, its events and its snapshot.
\<close>

section \<open>Events\<close>

datatype DomainEvent =
    PaymentApprovedEvent Reference Money Reference Reference nat
  | PaymentDeclinedEvent Reference Money FailureReason nat
  | PaymentCompensatedEvent Reference Money Reference nat

fun aggregateReference :: "DomainEvent \<Rightarrow> string" where
  "aggregateReference (PaymentApprovedEvent r _ _ _ _) = value r"
| "aggregateReference (PaymentDeclinedEvent r _ _ _) = value r"
| "aggregateReference (PaymentCompensatedEvent r _ _ _) = value r"

fun event_type :: "DomainEvent \<Rightarrow> string" where
  "event_type (PaymentApprovedEvent _ _ _ _ _) = ''payment.approved''"
| "event_type (PaymentDeclinedEvent _ _ _ _) = ''payment.declined''"
| "event_type (PaymentCompensatedEvent _ _ _ _) = ''payment.compensated''"

fun occurredAt :: "DomainEvent \<Rightarrow> nat" where
  "occurredAt (PaymentApprovedEvent _ _ _ _ t) = t"
| "occurredAt (PaymentDeclinedEvent _ _ _ t) = t"
| "occurredAt (PaymentCompensatedEvent _ _ _ t) = t"

fun event_payload :: "DomainEvent \<Rightarrow> (string \<times> js_value) list" where
  "event_payload (PaymentApprovedEvent r m d c _) =
     [(''payment_reference'', String (value r)), (''amount'', Number (num (amount m))),
      (''currency'', String (currency_text (currency m))),
      (''debit_transaction_reference'', String (value d)),
      (''credit_transaction_reference'', String (value c))]"
| "event_payload (PaymentDeclinedEvent r m reason _) =
     [(''payment_reference'', String (value r)), (''amount'', Number (num (amount m))),
      (''currency'', String (currency_text (currency m))),
      (''failure_reason'', String (reason_text reason))]"
| "event_payload (PaymentCompensatedEvent r m f _) =
     [(''payment_reference'', String (value r)), (''amount'', Number (num (amount m))),
      (''currency'', String (currency_text (currency m))),
      (''refund_transaction_reference'', String (value f))]"

section \<open>The aggregate\<close>

type_synonym metadata = "(string \<times> js_value) list"

record Payment =
  reference :: Reference
  transactionId :: string
  money :: Money
  source :: Reference
  destination :: Reference
  description :: string
  metadata :: "metadata option"
  status :: PaymentStatus
  createdAt :: nat
  updatedAt :: nat
  failureReason :: "FailureReason option"
  debitTransactionReference :: "Reference option"
  creditTransactionReference :: "Reference option"
  refundTransactionReference :: "Reference option"
  completedAt :: "nat option"
  events :: "DomainEvent list"

record InitiatePaymentInput =
  in_transactionId :: string
  in_money :: Money
  in_source :: Reference
  in_destination :: Reference
  in_description :: string
  in_metadata :: "metadata option"

text \<open>\<open>Payment.initiate(input, now)\<close>; \<open>fresh\<close> is the reference \<open>Reference.generate('pay')\<close> made.\<close>

definition initiate :: "InitiatePaymentInput \<Rightarrow> Reference \<Rightarrow> nat \<Rightarrow> exn + Payment" where
  "initiate input fresh now =
     (if ref_equals (in_source input) (in_destination input)
      then Inl (Domain (SameWalletError (value (in_source input))))
      else Inr \<lparr>reference = fresh, transactionId = in_transactionId input, money = in_money input,
        source = in_source input, destination = in_destination input,
        description = in_description input, metadata = in_metadata input,
        status = Pending, createdAt = now, updatedAt = now, failureReason = None,
        debitTransactionReference = None, creditTransactionReference = None,
        refundTransactionReference = None, completedAt = None, events = []\<rparr>)"

definition transitionTo :: "PaymentStatus \<Rightarrow> nat \<Rightarrow> (Payment, exn, unit) prog" where
  "transitionTo target now p =
     (if target \<notin> set (ALLOWED_TRANSITIONS (status p))
      then (Inl (Domain (InvalidTransitionError (status p) target)), p)
      else (Inr (), p\<lparr>status := target, updatedAt := now\<rparr>))"

definition assertCurrentlyIn :: "PaymentStatus \<Rightarrow> (Payment, exn, unit) prog" where
  "assertCurrentlyIn expected p =
     (if status p \<noteq> expected then (Inl (Domain (InvalidTransitionError (status p) expected)), p)
      else (Inr (), p))"

definition requireDebitReference :: "(Payment, exn, Reference) prog" where
  "requireDebitReference p = (case debitTransactionReference p of
     None \<Rightarrow> (Inl (Domain (InvalidTransitionError (status p) Approved)), p)
   | Some r \<Rightarrow> (Inr r, p))"

definition pushEvent :: "DomainEvent \<Rightarrow> Payment \<Rightarrow> Payment" where
  "pushEvent e p = p\<lparr>events := events p @ [e]\<rparr>"

definition markProcessing :: "nat \<Rightarrow> (Payment, exn, unit) prog" where
  "markProcessing now = transitionTo Processing now"

definition markDebited :: "Reference \<Rightarrow> nat \<Rightarrow> (Payment, exn, unit) prog" where
  "markDebited debitReference now =
     andThen (assertCurrentlyIn Processing) (\<lambda>_.
     writes (\<lambda>p. p\<lparr>debitTransactionReference := Some debitReference, updatedAt := now\<rparr>))"

definition approve :: "Reference \<Rightarrow> nat \<Rightarrow> (Payment, exn, unit) prog" where
  "approve creditReference now =
     andThen (transitionTo Approved now) (\<lambda>_.
     andThen (writes (\<lambda>p. p\<lparr>creditTransactionReference := Some creditReference, completedAt := Some now\<rparr>)) (\<lambda>_.
     andThen requireDebitReference (\<lambda>debitReference.
     writes (\<lambda>p. pushEvent (PaymentApprovedEvent (reference p) (money p) debitReference creditReference now) p))))"

definition decline :: "FailureReason \<Rightarrow> nat \<Rightarrow> (Payment, exn, unit) prog" where
  "decline reason now =
     andThen (transitionTo Declined now) (\<lambda>_.
     andThen (writes (\<lambda>p. p\<lparr>failureReason := Some reason, completedAt := Some now\<rparr>)) (\<lambda>_.
     writes (\<lambda>p. pushEvent (PaymentDeclinedEvent (reference p) (money p) reason now) p)))"

definition compensate :: "Reference \<Rightarrow> nat \<Rightarrow> (Payment, exn, unit) prog" where
  "compensate refundReference now =
     andThen (transitionTo Compensated now) (\<lambda>_.
     andThen (writes (\<lambda>p. p\<lparr>refundTransactionReference := Some refundReference,
        failureReason := (case failureReason p of None \<Rightarrow> Some CREDIT_FAILED_REASON | Some r \<Rightarrow> Some r),
        completedAt := Some now\<rparr>)) (\<lambda>_.
     writes (\<lambda>p. pushEvent (PaymentCompensatedEvent (reference p) (money p) refundReference now) p)))"

definition markCompensationPending :: "FailureReason \<Rightarrow> nat \<Rightarrow> (Payment, exn, unit) prog" where
  "markCompensationPending reason now =
     andThen (transitionTo CompensationPending now) (\<lambda>_.
     writes (\<lambda>p. p\<lparr>failureReason := Some reason\<rparr>))"

definition pullEvents :: "(Payment, exn, DomainEvent list) prog" where
  "pullEvents p = (Inr (events p), p\<lparr>events := []\<rparr>)"

datatype leg = debit_leg | credit_leg | refund_leg

fun leg_suffix :: "leg \<Rightarrow> string" where
  "leg_suffix debit_leg = ''''"
| "leg_suffix credit_leg = '':credit''"
| "leg_suffix refund_leg = '':refund''"

definition movementKey :: "Payment \<Rightarrow> leg \<Rightarrow> string" where
  "movementKey p l = value (reference p) @ leg_suffix l"

section \<open>Snapshots\<close>

record PaymentSnapshot =
  sn_reference :: string
  sn_transactionId :: string
  sn_amount :: int
  sn_currency :: Currency
  sn_sourceWallet :: string
  sn_destinationWallet :: string
  sn_description :: string
  sn_status :: PaymentStatus
  sn_failureReason :: "FailureReason option"
  sn_debitTransactionReference :: "string option"
  sn_creditTransactionReference :: "string option"
  sn_refundTransactionReference :: "string option"
  sn_metadata :: "metadata option"
  sn_createdAt :: nat
  sn_updatedAt :: nat
  sn_completedAt :: "nat option"

definition toSnapshot :: "Payment \<Rightarrow> PaymentSnapshot" where
  "toSnapshot p =
     \<lparr>sn_reference = value (reference p), sn_transactionId = transactionId p,
      sn_amount = amount (money p), sn_currency = currency (money p),
      sn_sourceWallet = value (source p), sn_destinationWallet = value (destination p),
      sn_description = description p, sn_status = status p, sn_failureReason = failureReason p,
      sn_debitTransactionReference = map_option value (debitTransactionReference p),
      sn_creditTransactionReference = map_option value (creditTransactionReference p),
      sn_refundTransactionReference = map_option value (refundTransactionReference p),
      sn_metadata = metadata p, sn_createdAt = createdAt p, sn_updatedAt = updatedAt p,
      sn_completedAt = completedAt p\<rparr>"

text \<open>An optional stored reference; the empty string is falsy and reads as null.\<close>

definition optional_reference :: "string option \<Rightarrow> exn + Reference option" where
  "optional_reference v = (case v of
     None \<Rightarrow> Inr None
   | Some s \<Rightarrow> if s = [] then Inr None
               else (case Reference_of TRANSACTION s of Inl e \<Rightarrow> Inl e | Inr r \<Rightarrow> Inr (Some r)))"

definition bindE :: "'e + 'a \<Rightarrow> ('a \<Rightarrow> 'e + 'b) \<Rightarrow> 'e + 'b" where
  "bindE r k = (case r of Inl e \<Rightarrow> Inl e | Inr x \<Rightarrow> k x)"

definition restore :: "PaymentSnapshot \<Rightarrow> exn + Payment" where
  "restore s =
     bindE (Reference_of PAYMENT (sn_reference s)) (\<lambda>ref.
     bindE (Money_of (num (sn_amount s)) (sn_currency s)) (\<lambda>mon.
     bindE (Reference_of WALLET (sn_sourceWallet s)) (\<lambda>src.
     bindE (Reference_of WALLET (sn_destinationWallet s)) (\<lambda>dst.
     bindE (optional_reference (sn_debitTransactionReference s)) (\<lambda>deb.
     bindE (optional_reference (sn_creditTransactionReference s)) (\<lambda>cre.
     bindE (optional_reference (sn_refundTransactionReference s)) (\<lambda>rfd.
     Inr \<lparr>reference = ref, transactionId = sn_transactionId s, money = mon, source = src,
       destination = dst, description = sn_description s, metadata = sn_metadata s,
       status = sn_status s, createdAt = sn_createdAt s, updatedAt = sn_updatedAt s,
       failureReason = sn_failureReason s, debitTransactionReference = deb,
       creditTransactionReference = cre, refundTransactionReference = rfd,
       completedAt = sn_completedAt s, events = []\<rparr>)))))))"

section \<open>Well-formed payments\<close>

definition optional_wf :: "Reference option \<Rightarrow> bool" where
  "optional_wf r \<longleftrightarrow> (case r of None \<Rightarrow> True | Some x \<Rightarrow> wf_ref TRANSACTION x)"

text \<open>Which fields are filled in which status.\<close>

fun fields_match :: "PaymentStatus \<Rightarrow> bool \<Rightarrow> bool \<Rightarrow> bool \<Rightarrow> bool \<Rightarrow> bool \<Rightarrow> bool" where
  "fields_match Pending debit credit refund failure completed \<longleftrightarrow>
     \<not> debit \<and> \<not> credit \<and> \<not> refund \<and> \<not> failure \<and> \<not> completed"
| "fields_match Processing debit credit refund failure completed \<longleftrightarrow>
     \<not> credit \<and> \<not> refund \<and> \<not> failure \<and> \<not> completed"
| "fields_match Approved debit credit refund failure completed \<longleftrightarrow>
     debit \<and> credit \<and> \<not> refund \<and> \<not> failure \<and> completed"
| "fields_match Declined debit credit refund failure completed \<longleftrightarrow>
     \<not> credit \<and> \<not> refund \<and> failure \<and> completed"
| "fields_match Compensated debit credit refund failure completed \<longleftrightarrow>
     \<not> credit \<and> refund \<and> failure \<and> completed"
| "fields_match CompensationPending debit credit refund failure completed \<longleftrightarrow>
     \<not> credit \<and> \<not> refund \<and> failure \<and> \<not> completed"

definition wf_fields :: "Payment \<Rightarrow> bool" where
  "wf_fields p \<longleftrightarrow> fields_match (status p)
     (debitTransactionReference p \<noteq> None) (creditTransactionReference p \<noteq> None)
     (refundTransactionReference p \<noteq> None) (failureReason p \<noteq> None) (completedAt p \<noteq> None)"

definition wf_payment :: "Payment \<Rightarrow> bool" where
  "wf_payment p \<longleftrightarrow>
     wf_ref PAYMENT (reference p) \<and> wf_money (money p) \<and> wf_ref WALLET (source p)
     \<and> wf_ref WALLET (destination p) \<and> value (source p) \<noteq> value (destination p)
     \<and> optional_wf (debitTransactionReference p) \<and> optional_wf (creditTransactionReference p)
     \<and> optional_wf (refundTransactionReference p) \<and> wf_fields p"

datatype payment_op =
    MarkProcessing
  | MarkDebited Reference
  | Approve Reference
  | Decline FailureReason
  | Compensate Reference
  | MarkCompensationPending FailureReason

fun apply_op :: "payment_op \<Rightarrow> nat \<Rightarrow> (Payment, exn, unit) prog" where
  "apply_op MarkProcessing now = markProcessing now"
| "apply_op (MarkDebited r) now = markDebited r now"
| "apply_op (Approve r) now = approve r now"
| "apply_op (Decline reason) now = decline reason now"
| "apply_op (Compensate r) now = compensate r now"
| "apply_op (MarkCompensationPending reason) now = markCompensationPending reason now"

fun op_wf :: "payment_op \<Rightarrow> bool" where
  "op_wf (MarkDebited r) = wf_ref TRANSACTION r"
| "op_wf (Approve r) = wf_ref TRANSACTION r"
| "op_wf (Compensate r) = wf_ref TRANSACTION r"
| "op_wf _ = True"

definition input_wf :: "InitiatePaymentInput \<Rightarrow> bool" where
  "input_wf i \<longleftrightarrow> wf_money (in_money i) \<and> wf_ref WALLET (in_source i) \<and> wf_ref WALLET (in_destination i)"

named_theorems payment_defs \<open>the operations of the aggregate, unfolded\<close>

lemmas payment_op_defs [payment_defs] =
  markProcessing_def markDebited_def approve_def decline_def compensate_def
  markCompensationPending_def transitionTo_def assertCurrentlyIn_def requireDebitReference_def
  pushEvent_def andThen_def writes_def

text \<open>What each operation does when it succeeds, and exactly when it does.\<close>

lemma markProcessing_iff: "markProcessing now p = (Inr (), p') \<longleftrightarrow>
    status p = Pending \<and> p' = p\<lparr>status := Processing, updatedAt := now\<rparr>"
  by (cases "status p") (auto simp: payment_defs)

lemma markDebited_iff: "markDebited r now p = (Inr (), p') \<longleftrightarrow>
    status p = Processing \<and> p' = p\<lparr>debitTransactionReference := Some r, updatedAt := now\<rparr>"
  by (auto simp: payment_defs)

lemma approve_iff: "approve r now p = (Inr (), p') \<longleftrightarrow>
    status p = Processing \<and> (\<exists>d. debitTransactionReference p = Some d
      \<and> p' = p\<lparr>status := Approved, updatedAt := now, creditTransactionReference := Some r,
           completedAt := Some now,
           events := events p @ [PaymentApprovedEvent (reference p) (money p) d r now]\<rparr>)"
  by (cases "status p") (auto simp: payment_defs split: option.splits)

lemma decline_iff: "decline reason now p = (Inr (), p') \<longleftrightarrow>
    status p \<in> {Pending, Processing}
    \<and> p' = p\<lparr>status := Declined, updatedAt := now, failureReason := Some reason,
           completedAt := Some now,
           events := events p @ [PaymentDeclinedEvent (reference p) (money p) reason now]\<rparr>"
  by (cases "status p") (auto simp: payment_defs)

lemma compensate_iff: "compensate r now p = (Inr (), p') \<longleftrightarrow>
    status p \<in> {Processing, CompensationPending}
    \<and> p' = p\<lparr>status := Compensated, updatedAt := now, refundTransactionReference := Some r,
           failureReason := (case failureReason p of None \<Rightarrow> Some CREDIT_FAILED_REASON | Some x \<Rightarrow> Some x),
           completedAt := Some now,
           events := events p @ [PaymentCompensatedEvent (reference p) (money p) r now]\<rparr>"
  by (cases "status p") (auto simp: payment_defs)

lemma markCompensationPending_iff: "markCompensationPending reason now p = (Inr (), p') \<longleftrightarrow>
    status p = Processing
    \<and> p' = p\<lparr>status := CompensationPending, updatedAt := now, failureReason := Some reason\<rparr>"
  by (cases "status p") (auto simp: payment_defs)

lemmas payment_op_iff =
  markProcessing_iff markDebited_iff approve_iff decline_iff compensate_iff
  markCompensationPending_iff

lemma apply_op_wf:
  assumes "wf_payment p" and "op_wf op" and "apply_op op now p = (Inr (), p')"
  shows "wf_payment p'"
  using assms
  by (cases op) (auto simp: payment_op_iff wf_payment_def wf_fields_def optional_wf_def split: option.splits)

lemma initiate_wf:
  assumes "initiate input fresh now = Inr p" and "input_wf input" and "wf_ref PAYMENT fresh"
  shows "wf_payment p"
  using assms by (auto simp: initiate_def wf_payment_def wf_fields_def input_wf_def ref_equals_def
      optional_wf_def split: if_splits)

lemma apply_op_identity:
  "reference (snd (apply_op op now p)) = reference p" "money (snd (apply_op op now p)) = money p"
  "source (snd (apply_op op now p)) = source p" "destination (snd (apply_op op now p)) = destination p"
  "transactionId (snd (apply_op op now p)) = transactionId p"
  by (cases op; cases "status p"; simp add: payment_defs split: option.splits)+

section \<open>The life of a payment\<close>

text \<open>
  \<open>lifecycle p pulled\<close>: \<open>p\<close> is an aggregate some sequence of successful operations can produce,
  and \<open>pulled\<close> the events handed over by \<open>pullEvents\<close> on the way, oldest first. Operations that throw add
  nothing, with one exception: \<open>approve\<close> changes the status before it asks for the debit reference.
\<close>

lemma refused_operation:
  assumes "apply_op op now p = (Inl e, p')"
  shows "p' = p \<or> (\<exists>c. op = Approve c) \<and> status p = Processing \<and> debitTransactionReference p = None
    \<and> status p' = Approved"
  using assms by (cases op; cases "status p") (auto simp: payment_defs split: option.splits if_splits)

inductive lifecycle :: "Payment \<Rightarrow> DomainEvent list \<Rightarrow> bool" where
  start: "initiate input fresh now = Inr p \<Longrightarrow> input_wf input \<Longrightarrow> wf_ref PAYMENT fresh \<Longrightarrow>
    lifecycle p []"
| operation: "lifecycle p pulled \<Longrightarrow> op_wf op \<Longrightarrow> apply_op op now p = (Inr (), p') \<Longrightarrow>
    lifecycle p' pulled"
| pull: "lifecycle p pulled \<Longrightarrow> pullEvents p = (Inr es, p') \<Longrightarrow> lifecycle p' (pulled @ es)"

text \<open>The announcement a status owes the outside world: one event for a terminal one.\<close>

fun announcement :: "Payment \<Rightarrow> DomainEvent list" where
  "announcement p = (case status p of
     Approved \<Rightarrow> [PaymentApprovedEvent (reference p) (money p) (the (debitTransactionReference p))
                   (the (creditTransactionReference p)) (the (completedAt p))]
   | Declined \<Rightarrow> [PaymentDeclinedEvent (reference p) (money p) (the (failureReason p)) (the (completedAt p))]
   | Compensated \<Rightarrow> [PaymentCompensatedEvent (reference p) (money p)
                   (the (refundTransactionReference p)) (the (completedAt p))]
   | _ \<Rightarrow> [])"

declare announcement.simps [simp del]

lemma announcement_events [simp]: "announcement (p\<lparr>events := es\<rparr>) = announcement p"
  by (simp add: announcement.simps split: PaymentStatus.split)

lemma announcement_op:
  assumes "apply_op op now p = (Inr (), p')" and "pulled @ events p = announcement p"
  shows "pulled @ events p' = announcement p'"
  using assms by (cases op) (auto simp: payment_op_iff announcement.simps)

lemma lifecycle_inv: "lifecycle p pulled \<Longrightarrow> wf_payment p \<and> pulled @ events p = announcement p"
proof (induction rule: lifecycle.induct)
  case (start input fresh now p)
  moreover have "announcement p = []" and "events p = []"
    using start by (auto simp: initiate_def announcement.simps split: if_splits)
  ultimately show ?case using initiate_wf by simp
next
  case (operation p pulled op now p')
  then show ?case using apply_op_wf announcement_op by blast
next
  case (pull p pulled es p')
  then show ?case
    by (auto simp: pullEvents_def wf_payment_def wf_fields_def)
qed

text \<open>A terminal payment rejects every operation and keeps every field.\<close>

lemma terminal_absorbing:
  assumes "status p \<in> set TERMINAL_STATUSES"
  shows "\<exists>target. apply_op op now p = (Inl (Domain (InvalidTransitionError (status p) target)), p)"
  using assms by (cases op; cases "status p") (auto simp: payment_defs TERMINAL_STATUSES_def)

lemma apply_op_status:
  "apply_op op now p = (Inr (), p') \<Longrightarrow>
     status p' = status p \<or> status p' \<in> set (ALLOWED_TRANSITIONS (status p))"
  by (cases op) (auto simp: payment_op_iff)

section \<open>Round trips and keys\<close>

lemma wf_ref_nonempty: "wf_ref p r \<Longrightarrow> value r \<noteq> []"
  by (auto simp: wf_ref_def referencePattern_iff)

lemma optional_reference_value: "optional_wf r \<Longrightarrow> optional_reference (map_option value r) = Inr r"
  using wf_ref_nonempty
  by (auto simp: optional_wf_def optional_reference_def Reference_of_value wf_ref_nonempty split: option.splits)

lemma restore_toSnapshot: "wf_payment p \<Longrightarrow> restore (toSnapshot p) = Inr (p\<lparr>events := []\<rparr>)"
  by (simp add: wf_payment_def restore_def toSnapshot_def bindE_def Reference_of_value Money_of_num
      optional_reference_value)

lemma payment_reference_length: "wf_ref p r \<Longrightarrow> length (value r) = 30"
  by (cases p) (auto simp: wf_ref_def dest: referencePattern_length)

lemma leg_suffix_inj: "leg_suffix l = leg_suffix m \<Longrightarrow> l = m"
  by (cases l; cases m) auto

lemma movementKey_inj:
  assumes "wf_ref PAYMENT (reference p)" and "wf_ref PAYMENT (reference q)"
    and "movementKey p l = movementKey q m"
  shows "value (reference p) = value (reference q) \<and> l = m"
proof -
  have "length (value (reference p)) = length (value (reference q))"
    using assms(1,2) payment_reference_length by metis
  with assms(3) show ?thesis
    by (auto simp: movementKey_def dest: leg_suffix_inj)
qed

lemma leg_suffix_chars: "list_all transaction_id_char '':creditrefund''"
  by code_simp

lemma movementKey_accepted:
  assumes "wf_ref PAYMENT (reference p)"
  shows "isTransactionId (movementKey p l)"
proof -
  have "length (leg_suffix l) \<le> 34"
    by (cases l) simp_all
  moreover have "list_all transaction_id_char (leg_suffix l)"
    using leg_suffix_chars by (cases l) simp_all
  ultimately show ?thesis
    using assms unfolding movementKey_def wf_ref_def by (intro reference_isTransactionId [of PAYMENT]) simp_all
qed

end
