(* ===== verification/Payment_Properties.thy ===== *)
theory Payment_Properties
  imports Payment
begin

text \<open>
  The properties of the payment aggregate and of the references it is named by, with a concrete
  payment on which they are instantiated.
\<close>

section \<open>A concrete payment\<close>

definition demo_reference :: "ReferencePrefix \<Rightarrow> nat \<Rightarrow> Reference" where
  "demo_reference p n = Reference_generate p n (\<lambda>_. 0)"

definition demo_input :: InitiatePaymentInput where
  "demo_input = \<lparr>in_transactionId = ''order-0001'', in_money = \<lparr>amount = 300, currency = XOF\<rparr>,
     in_source = demo_reference WALLET 1, in_destination = demo_reference WALLET 3,
     in_description = ''Invoice'', in_metadata = None\<rparr>"

definition demo_pending :: Payment where
  "demo_pending = \<lparr>reference = demo_reference PAYMENT 5, transactionId = ''order-0001'',
     money = \<lparr>amount = 300, currency = XOF\<rparr>, source = demo_reference WALLET 1,
     destination = demo_reference WALLET 3, description = ''Invoice'', metadata = None,
     status = Pending, createdAt = 1000, updatedAt = 1000, failureReason = None,
     debitTransactionReference = None, creditTransactionReference = None,
     refundTransactionReference = None, completedAt = None, events = []\<rparr>"

definition demo_debited :: Payment where
  "demo_debited = demo_pending\<lparr>status := Processing, updatedAt := 1002,
     debitTransactionReference := Some (demo_reference TRANSACTION 7)\<rparr>"

definition demo_approved :: Payment where
  "demo_approved = snd (apply_op (Approve (demo_reference TRANSACTION 8)) 1003 demo_debited)"

lemma demo_refs [simp]: "wf_ref p (demo_reference p n)"
  by (simp add: demo_reference_def Reference_generate_wf)

lemma demo_wallets_differ: "value (demo_reference WALLET 1) \<noteq> value (demo_reference WALLET 3)"
proof -
  have "encodeTime 1 \<noteq> encodeTime 3" by code_simp
  then show ?thesis by (simp add: demo_reference_def Reference_generate_def)
qed

lemma demo_initiate: "initiate demo_input (demo_reference PAYMENT 5) 1000 = Inr demo_pending"
  using demo_wallets_differ by (simp add: demo_pending_def initiate_def demo_input_def ref_equals_def)

lemma demo_pending_fields: "status demo_pending = Pending" "events demo_pending = []"
    "reference demo_pending = demo_reference PAYMENT 5"
  by (simp_all add: demo_pending_def)

lemma demo_input_wf: "input_wf demo_input"
  by (simp add: input_wf_def demo_input_def wf_money_def)

lemma demo_debited_lifecycle: "lifecycle demo_debited []"
proof -
  have "lifecycle demo_pending []"
    by (rule lifecycle.start [OF demo_initiate demo_input_wf]) simp
  then have "lifecycle (demo_pending\<lparr>status := Processing, updatedAt := 1001\<rparr>) []"
    by (rule lifecycle.operation [where op = MarkProcessing and now = 1001])
       (simp_all add: markProcessing_iff demo_pending_fields)
  then show ?thesis
    by (rule lifecycle.operation [where op = "MarkDebited (demo_reference TRANSACTION 7)" and now = 1002])
       (simp_all add: markDebited_iff demo_debited_def)
qed

lemma demo_approve: "apply_op (Approve (demo_reference TRANSACTION 8)) 1003 demo_debited = (Inr (), demo_approved)"
proof -
  have "fst (apply_op (Approve (demo_reference TRANSACTION 8)) 1003 demo_debited) = Inr ()"
    by (simp add: demo_debited_def payment_defs)
  then show ?thesis by (metis demo_approved_def prod.collapse)
qed

lemma demo_approved_lifecycle: "lifecycle demo_approved []"
  by (rule lifecycle.operation [OF demo_debited_lifecycle _ demo_approve]) simp

section \<open>The aggregate\<close>

text \<open>
  Along any sequence of successful operations of the aggregate, the events handed out
  by \<open>pullEvents\<close> followed by those still held are exactly what the status owes the outside world:
  nothing before a terminal status, and one event, carrying the recorded references, in it. So no
  payment is announced twice, in two ways, or before it is settled.
\<close>

theorem announced_exactly_once:
  assumes "lifecycle p pulled"
  shows "pulled @ events p = announcement p"
  using lifecycle_inv [OF assms] by blast

theorem announced_exactly_once_witness:
  "[] @ events demo_approved = announcement demo_approved
   \<and> events demo_approved = [PaymentApprovedEvent (demo_reference PAYMENT 5) (money demo_pending)
        (demo_reference TRANSACTION 7) (demo_reference TRANSACTION 8) 1003]"
proof -
  have "events demo_approved = [PaymentApprovedEvent (demo_reference PAYMENT 5) (money demo_pending)
        (demo_reference TRANSACTION 7) (demo_reference TRANSACTION 8) 1003]"
    by (simp add: demo_approved_def demo_debited_def payment_defs demo_pending_fields)
  with announced_exactly_once [OF demo_approved_lifecycle] show ?thesis by simp
qed

text \<open>
  After any sequence of successful operations the fields of a payment agree with its status: a debit and a
  credit reference exactly when it is approved, a refund reference exactly when it is compensated, a
  failure reason exactly when it is declined, compensated or pending compensation, a completion time
  exactly when it is terminal; its wallets differ and its amount is a positive multiple of five.
\<close>

theorem lifecycle_fields_agree:
  assumes "lifecycle p pulled"
  shows "(creditTransactionReference p \<noteq> None \<longleftrightarrow> status p = Approved)
       \<and> (status p = Approved \<longrightarrow> debitTransactionReference p \<noteq> None)
       \<and> (refundTransactionReference p \<noteq> None \<longleftrightarrow> status p = Compensated)
       \<and> (failureReason p \<noteq> None \<longleftrightarrow> status p \<in> {Declined, Compensated, CompensationPending})
       \<and> (completedAt p \<noteq> None \<longleftrightarrow> status p \<in> set TERMINAL_STATUSES)
       \<and> value (source p) \<noteq> value (destination p) \<and> 5 \<le> amount (money p) \<and> amount (money p) mod 5 = 0"
  using lifecycle_inv [OF assms]
  by (cases "status p") (auto simp: wf_payment_def wf_fields_def wf_money_def TERMINAL_STATUSES_def)

theorem lifecycle_fields_agree_witness:
  "status demo_approved = Approved \<and> creditTransactionReference demo_approved \<noteq> None
   \<and> completedAt demo_approved \<noteq> None \<and> refundTransactionReference demo_approved = None"
proof -
  have "status demo_approved = Approved"
    by (simp add: demo_approved_def demo_debited_def payment_defs)
  with lifecycle_fields_agree [OF demo_approved_lifecycle] show ?thesis
    by (auto simp: TERMINAL_STATUSES_def)
qed

text \<open>
  Property C31. A terminal payment refuses every operation of the aggregate with an invalid
  transition and keeps every one of its fields, so an outcome is never replaced.
\<close>

theorem terminal_is_final:
  assumes "status p \<in> set TERMINAL_STATUSES"
  shows "\<exists>target. apply_op op now p = (Inl (Domain (InvalidTransitionError (status p) target)), p)"
  using assms by (rule terminal_absorbing)

theorem terminal_is_final_witness:
  "\<exists>target. apply_op (Decline ACCOUNTS_UNAVAILABLE_REASON) 2000 demo_approved
      = (Inl (Domain (InvalidTransitionError (status demo_approved) target)), demo_approved)"
proof -
  have "status demo_approved \<in> set TERMINAL_STATUSES"
    by (simp add: demo_approved_def demo_debited_def payment_defs TERMINAL_STATUSES_def)
  then show ?thesis by (rule terminal_is_final)
qed

text \<open>
  Storing a payment and reading it back loses nothing but its pulled events: restoring
  the snapshot of any reachable payment succeeds and gives the payment back.
\<close>

theorem snapshot_round_trip:
  assumes "lifecycle p pulled"
  shows "restore (toSnapshot p) = Inr (p\<lparr>events := []\<rparr>)"
  using lifecycle_inv [OF assms] restore_toSnapshot by blast

theorem snapshot_round_trip_witness:
  "restore (toSnapshot demo_approved) = Inr (demo_approved\<lparr>events := []\<rparr>)
   \<and> sn_creditTransactionReference (toSnapshot demo_approved) = Some (value (demo_reference TRANSACTION 8))"
proof -
  have "creditTransactionReference demo_approved = Some (demo_reference TRANSACTION 8)"
    by (simp add: demo_approved_def demo_debited_def payment_defs)
  with snapshot_round_trip [OF demo_approved_lifecycle] show ?thesis by (simp add: toSnapshot_def)
qed

text \<open>
  The idempotency keys of the movements of a payment pass the validation of the accounts
  service, and two movements share a key only if they are the same leg of the same payment.
\<close>

theorem movement_keys_are_injective:
  assumes "wf_ref PAYMENT (reference p)" and "wf_ref PAYMENT (reference q)"
  shows "isTransactionId (movementKey p l)
       \<and> (movementKey p l = movementKey q m \<longrightarrow> value (reference p) = value (reference q) \<and> l = m)"
  using movementKey_accepted [OF assms(1)] movementKey_inj [OF assms] by blast

theorem movement_keys_are_injective_witness:
  "isTransactionId (movementKey demo_pending credit_leg)
   \<and> movementKey demo_pending credit_leg \<noteq> movementKey demo_pending refund_leg"
proof -
  have "wf_ref PAYMENT (reference demo_pending)" by (simp add: demo_pending_fields)
  from movement_keys_are_injective [OF this this] show ?thesis by blast
qed

text \<open>
  A generated reference always matches the pattern its readers check, and references
  generated at later milliseconds sort after earlier ones, until the ten time digits overflow.
\<close>

theorem references_are_ordered:
  assumes "now < later" and "later < 2 ^ 50"
  shows "referencePattern (prefix_text p) (generateReference p now bytes)
       \<and> (generateReference p now bytes, generateReference p later bytes') \<in> lexord char_less"
  using generateReference_pattern generateReference_order [OF assms] by blast

theorem references_are_ordered_witness:
  "referencePattern ''pay'' (generateReference PAYMENT 1700000000000 (\<lambda>_. 255))
   \<and> (generateReference PAYMENT 1700000000000 (\<lambda>_. 255), generateReference PAYMENT 1700000000001 (\<lambda>_. 0))
      \<in> lexord char_less"
  using references_are_ordered [of 1700000000000 1700000000001 PAYMENT "\<lambda>_. 255" "\<lambda>_. 0"] by simp

end
