(* ===== verification/Accounts.thy ===== *)
theory Accounts
  imports Shared
begin

text \<open>
  The accounts service: users, wallets and the append-only ledger, as tables of one database;
  \<open>UsersService\<close> and \<open>WalletsService\<close> with their repositories; the conditional balance update.
  A request runs among other traffic: \<open>other k\<close> is what the rest of the world commits at its
  k-th pause, so the races the code defends against are runs of the model.

  A row of the ledger holds the JavaScript numbers its \<open>bigint\<close> columns read back as; the balance
  of a wallet is the exact 64-bit integer, read through \<open>bigintTransformer\<close>.
\<close>

section \<open>Tables\<close>

record User =
  user_id :: nat
  user_reference :: string
  customer_firstname :: string
  customer_lastname :: string
  customer_email :: string
  customer_phone_number :: string
  customer_address :: "string option"
  customer_city :: "string option"
  customer_country :: "string option"
  customer_zip_code :: "string option"
  user_created_at :: nat

record Wallet =
  wallet_id :: nat
  wallet_reference :: string
  wallet_user_id :: nat
  wallet_currency :: string
  balance :: int
  reserved_amount :: int
  wallet_label :: "string option"
  wallet_status :: WalletStatus
  wallet_created_at :: nat

record LedgerEntry =
  entry_reference :: string
  entry_wallet_id :: nat
  entry_transaction_id :: string
  entry_type :: TransactionType
  entry_amount :: int
  entry_currency :: string
  balance_before :: int
  balance_after :: int
  entry_description :: string
  entry_payment_reference :: "string option"
  entry_created_at :: nat

text \<open>
  \<open>refs n\<close> is what the clock and the random source give the n-th generated reference, \<open>drawn\<close>
  how many were generated, \<open>now_ms\<close> the database's \<open>now()\<close>.
\<close>

record accounts_db =
  users :: "User list"
  wallets :: "Wallet list"
  ledger :: "LedgerEntry list"
  refs :: "nat \<Rightarrow> nat \<times> (nat \<Rightarrow> nat)"
  drawn :: nat
  now_ms :: nat

type_synonym traffic = "nat \<Rightarrow> accounts_db \<Rightarrow> accounts_db"

definition calm :: traffic where
  "calm k db = db"

section \<open>Requests and responses\<close>

record BalanceOperationRequest =
  transaction_id :: string
  request_amount :: int
  request_currency :: string
  request_description :: string
  payment_reference :: "string option"

record BalanceOperationResponse =
  response_transaction_id :: string
  response_reference :: "string option"
  response_amount :: int
  response_currency :: string
  response_before :: int
  response_after :: int
  response_status :: TransactionStatus
  declined_reason :: "DeclinedReason option"

definition approved :: "LedgerEntry \<Rightarrow> BalanceOperationResponse" where
  "approved e =
     \<lparr>response_transaction_id = entry_transaction_id e, response_reference = Some (entry_reference e),
      response_amount = entry_amount e, response_currency = entry_currency e,
      response_before = balance_before e, response_after = balance_after e,
      response_status = APPROVED, declined_reason = None\<rparr>"

definition declined :: "BalanceOperationRequest \<Rightarrow> int \<Rightarrow> DeclinedReason \<Rightarrow> BalanceOperationResponse" where
  "declined request bal reason =
     \<lparr>response_transaction_id = transaction_id request, response_reference = None,
      response_amount = request_amount request, response_currency = request_currency request,
      response_before = bal, response_after = bal, response_status = DECLINED,
      declined_reason = Some reason\<rparr>"

datatype accounts_payload =
    Operation BalanceOperationResponse
  | Details json_object
  | FieldErrors "string list"

datatype accounts_exn = Refused "accounts_payload AppException" | Driver DriverError

type_synonym 'a accounts_prog = "(accounts_db, accounts_exn, 'a) prog"

definition refuse :: "(accounts_payload option \<Rightarrow> accounts_payload AppException) \<Rightarrow> accounts_payload \<Rightarrow> 'a accounts_prog" where
  "refuse exception data = throw (Refused (exception (Some data)))"

definition unique_violation :: "string \<Rightarrow> 'a accounts_prog" where
  "unique_violation c = throw (Driver \<lparr>sqlstate = Some ''23505'', err_constraint = Some c\<rparr>)"

definition numeric_out_of_range :: "'a accounts_prog" where
  "numeric_out_of_range = throw (Driver \<lparr>sqlstate = Some ''22003'', err_constraint = None\<rparr>)"

definition isUniqueViolationOf :: "string \<Rightarrow> accounts_exn \<Rightarrow> bool" where
  "isUniqueViolationOf c e = (case e of Driver d \<Rightarrow> isUniqueViolation d (Some c) | Refused _ \<Rightarrow> False)"

section \<open>Repositories\<close>

definition freshReference :: "ReferencePrefix \<Rightarrow> string accounts_prog" where
  "freshReference p db =
     (case refs db (drawn db) of (ms, bytes) \<Rightarrow>
        (Inr (generateReference p ms bytes), db\<lparr>drawn := drawn db + 1\<rparr>))"

text \<open>\<open>dataSource.transaction\<close>: an exception undoes every write to the tables.\<close>

definition transaction :: "'a accounts_prog \<Rightarrow> 'a accounts_prog" where
  "transaction m db = (case m db of
     (Inl e, db') \<Rightarrow> (Inl e, db'\<lparr>users := users db, wallets := wallets db, ledger := ledger db\<rparr>)
   | (Inr x, db') \<Rightarrow> (Inr x, db'))"

definition UserRepository_create :: "User \<Rightarrow> User accounts_prog" where
  "UserRepository_create u db =
     (if lookupBy user_reference (user_reference u) (users db) \<noteq> None
      then unique_violation ''uq_users_reference'' db
      else if lookupBy customer_email (customer_email u) (users db) \<noteq> None
      then unique_violation ''uq_users_email'' db
      else (let row = u\<lparr>user_id := length (users db), user_created_at := now_ms db\<rparr>
            in (Inr row, db\<lparr>users := users db @ [row]\<rparr>)))"

definition UserRepository_findByReference :: "string \<Rightarrow> User option accounts_prog" where
  "UserRepository_findByReference r = reads (\<lambda>db. lookupBy user_reference r (users db))"

definition WalletRepository_create :: "Wallet \<Rightarrow> Wallet accounts_prog" where
  "WalletRepository_create w db =
     (if lookupBy wallet_reference (wallet_reference w) (wallets db) \<noteq> None
      then unique_violation ''uq_wallets_reference'' db
      else if \<not> bigint_ok (balance w) then numeric_out_of_range db
      else (let row = w\<lparr>wallet_id := length (wallets db), wallet_created_at := now_ms db\<rparr>
            in (Inr row, db\<lparr>wallets := wallets db @ [row]\<rparr>)))"

definition WalletRepository_findByReference :: "string \<Rightarrow> Wallet option accounts_prog" where
  "WalletRepository_findByReference r = reads (\<lambda>db. lookupBy wallet_reference r (wallets db))"

text \<open>
  The conditional \<open>UPDATE\<close> of \<open>WalletRepository.move\<close>: \<open>None\<close> when no row satisfies the
  conditions (\<open>applied: false\<close>), else the balance it returns.
\<close>

definition move :: "nat \<Rightarrow> int \<Rightarrow> string \<Rightarrow> int option accounts_prog" where
  "move walletId delta cur db =
     (case lookupBy wallet_id walletId (wallets db) of
        None \<Rightarrow> (Inr None, db)
      | Some w \<Rightarrow>
          if wallet_status w = ACTIVE \<and> wallet_currency w = cur
             \<and> (delta < 0 \<longrightarrow> balance w - reserved_amount w \<ge> - delta)
          then (if bigint_ok (balance w + delta)
                then (Inr (Some (bigintTransformer_from (Some (balance w + delta)))),
                      db\<lparr>wallets := updateBy wallet_id walletId (\<lambda>v. v\<lparr>balance := balance v + delta\<rparr>) (wallets db)\<rparr>)
                else numeric_out_of_range db)
          else (Inr None, db))"

definition entry_key :: "LedgerEntry \<Rightarrow> nat \<times> string" where
  "entry_key e = (entry_wallet_id e, entry_transaction_id e)"

definition append_entry :: "LedgerEntry \<Rightarrow> LedgerEntry accounts_prog" where
  "append_entry e db =
     (if lookupBy entry_key (entry_key e) (ledger db) \<noteq> None
      then unique_violation ''uq_ledger_entries_wallet_transaction'' db
      else if lookupBy entry_reference (entry_reference e) (ledger db) \<noteq> None
      then unique_violation ''uq_ledger_entries_reference'' db
      else if \<not> bigint_ok (balance_before e) \<or> \<not> bigint_ok (balance_after e) \<or> \<not> bigint_ok (entry_amount e)
      then numeric_out_of_range db
      else (let row = e\<lparr>entry_created_at := now_ms db\<rparr>
            in (Inr row, db\<lparr>ledger := ledger db @ [row]\<rparr>)))"

definition findByIdempotencyKey :: "nat \<Rightarrow> string \<Rightarrow> LedgerEntry option accounts_prog" where
  "findByIdempotencyKey walletId transactionId =
     reads (\<lambda>db. lookupBy entry_key (walletId, transactionId) (ledger db))"

section \<open>\<open>WalletsService\<close>: movements\<close>

definition read_balance :: "Wallet \<Rightarrow> int" where
  "read_balance w = bigintTransformer_from (Some (balance w))"

definition assertOperable :: "Wallet \<Rightarrow> BalanceOperationRequest \<Rightarrow> unit accounts_prog" where
  "assertOperable w request =
     (if wallet_status w = FROZEN
      then refuse WalletFrozenException (Operation (declined request (read_balance w) WALLET_FROZEN_DECLINE))
      else if wallet_currency w \<noteq> request_currency request
      then refuse CurrencyMismatchException (Operation (declined request (read_balance w) CURRENCY_MISMATCH_DECLINE))
      else ret ())"

fun type_text :: "TransactionType \<Rightarrow> string" where
  "type_text DEBIT = ''DEBIT''"
| "type_text CREDIT = ''CREDIT''"
| "type_text REFUND = ''REFUND''"

definition replay :: "LedgerEntry \<Rightarrow> BalanceOperationRequest \<Rightarrow> TransactionType \<Rightarrow> BalanceOperationResponse accounts_prog" where
  "replay original request type =
     (if entry_type original = type \<and> entry_amount original = request_amount request
         \<and> entry_currency original = request_currency request
      then ret (approved original)
      else refuse IdempotencyConflictException (Details
        [(''transaction_id'', String (transaction_id request)),
         (''reference'', String (entry_reference original)),
         (''recorded_type'', String (type_text (entry_type original))),
         (''recorded_amount'', Number (num (entry_amount original))),
         (''recorded_currency'', String (entry_currency original))]))"

definition delta_of :: "TransactionType \<Rightarrow> int \<Rightarrow> int" where
  "delta_of type a = (if type = CREDIT then a else - a)"

text \<open>The re-read after a refused update sees what others committed meanwhile (\<open>other 2\<close>).\<close>

definition applyInTransaction :: "traffic \<Rightarrow> Wallet \<Rightarrow> BalanceOperationRequest \<Rightarrow> TransactionType \<Rightarrow> BalanceOperationResponse accounts_prog" where
  "applyInTransaction other wallet request type =
     (let delta = delta_of type (request_amount request) in
      andThen (move (wallet_id wallet) delta (request_currency request)) (\<lambda>moved. case moved of
        None \<Rightarrow>
          andThen (reads (\<lambda>db. lookupBy wallet_reference (wallet_reference wallet) (wallets (other 2 db)))) (\<lambda>found.
          (case found of
             None \<Rightarrow> refuse WalletNotFoundException (Details [(''reference'', String (wallet_reference wallet))])
           | Some current \<Rightarrow>
               andThen (assertOperable current request) (\<lambda>_.
               refuse InsufficientBalanceException
                 (Operation (declined request (read_balance current) INSUFFICIENT_BALANCE_DECLINE)))))
      | Some after \<Rightarrow>
          andThen (freshReference TRANSACTION) (\<lambda>fresh.
          andThen (append_entry
            \<lparr>entry_reference = fresh, entry_wallet_id = wallet_id wallet,
             entry_transaction_id = transaction_id request, entry_type = type,
             entry_amount = request_amount request, entry_currency = request_currency request,
             balance_before = js_sub after delta, balance_after = after,
             entry_description = request_description request,
             entry_payment_reference = payment_reference request, entry_created_at = 0\<rparr>) (\<lambda>entry.
          ret (approved entry)))))"

definition applyMovement :: "traffic \<Rightarrow> string \<Rightarrow> BalanceOperationRequest \<Rightarrow> TransactionType \<Rightarrow> BalanceOperationResponse accounts_prog" where
  "applyMovement other reference request type =
     andThen (WalletRepository_findByReference reference) (\<lambda>found. case found of
       None \<Rightarrow> refuse WalletNotFoundException (Details [(''reference'', String reference)])
     | Some wallet \<Rightarrow>
         andThen (writes (other 0)) (\<lambda>_.
         andThen (findByIdempotencyKey (wallet_id wallet) (transaction_id request)) (\<lambda>replayed. case replayed of
           Some original \<Rightarrow> replay original request type
         | None \<Rightarrow>
             andThen (assertOperable wallet request) (\<lambda>_.
             andThen (writes (other 1)) (\<lambda>_.
             tryCatch (transaction (applyInTransaction other wallet request type)) (\<lambda>error.
               if \<not> isUniqueViolationOf ''uq_ledger_entries_wallet_transaction'' error then throw error
               else andThen (writes (other 3)) (\<lambda>_.
                    andThen (findByIdempotencyKey (wallet_id wallet) (transaction_id request)) (\<lambda>again.
                      case again of None \<Rightarrow> throw error | Some original \<Rightarrow> replay original request type))))))))"

definition credit :: "traffic \<Rightarrow> string \<Rightarrow> BalanceOperationRequest \<Rightarrow> BalanceOperationResponse accounts_prog" where
  "credit other reference request = applyMovement other reference request CREDIT"

definition debit :: "traffic \<Rightarrow> string \<Rightarrow> BalanceOperationRequest \<Rightarrow> BalanceOperationResponse accounts_prog" where
  "debit other reference request = applyMovement other reference request DEBIT"

definition findMovement :: "traffic \<Rightarrow> string \<Rightarrow> string \<Rightarrow> LedgerEntry option accounts_prog" where
  "findMovement other reference transactionId =
     andThen (WalletRepository_findByReference reference) (\<lambda>found. case found of
       None \<Rightarrow> refuse WalletNotFoundException (Details [(''reference'', String reference)])
     | Some wallet \<Rightarrow>
         andThen (writes (other 0)) (\<lambda>_. findByIdempotencyKey (wallet_id wallet) transactionId))"


section \<open>Users and wallets\<close>

record CreateUserRequest =
  new_firstname :: string
  new_lastname :: string
  new_email :: string
  new_phone_number :: string
  new_address :: "string option"
  new_city :: "string option"
  new_country :: "string option"
  new_zip_code :: "string option"

text \<open>Case mapping on the code points a \<open>string\<close> holds, whose images stay among them.\<close>

definition lower_char :: "char \<Rightarrow> char" where
  "lower_char c = (let n = of_char c :: nat in
     if (65 \<le> n \<and> n \<le> 90) \<or> (192 \<le> n \<and> n \<le> 222 \<and> n \<noteq> 215) then char_of (n + 32) else c)"

definition upper_char :: "char \<Rightarrow> char" where
  "upper_char c = (let n = of_char c :: nat in
     if (97 \<le> n \<and> n \<le> 122) \<or> (224 \<le> n \<and> n \<le> 254 \<and> n \<noteq> 247) then char_of (n - 32) else c)"

definition toLowerCase :: "string \<Rightarrow> string" where
  "toLowerCase s = map lower_char s"

definition toUpperCase :: "string \<Rightarrow> string" where
  "toUpperCase s = map upper_char s"

definition createUser :: "CreateUserRequest \<Rightarrow> User accounts_prog" where
  "createUser request =
     tryCatch
       (andThen (freshReference USER) (\<lambda>fresh.
        UserRepository_create
          \<lparr>user_id = 0, user_reference = fresh, customer_firstname = new_firstname request,
           customer_lastname = new_lastname request,
           customer_email = toLowerCase (new_email request),
           customer_phone_number = new_phone_number request, customer_address = new_address request,
           customer_city = new_city request,
           customer_country = map_option toUpperCase (new_country request),
           customer_zip_code = new_zip_code request, user_created_at = 0\<rparr>))
       (\<lambda>error. if isUniqueViolationOf ''uq_users_email'' error
                then refuse ValidationFailedException (FieldErrors [''customer_email''])
                else throw error)"

definition findUser :: "string \<Rightarrow> User accounts_prog" where
  "findUser r =
     andThen (UserRepository_findByReference r) (\<lambda>found. case found of
       None \<Rightarrow> refuse UserNotFoundException (Details [(''reference'', String r)])
     | Some u \<Rightarrow> ret u)"

record CreateWalletRequest =
  for_user :: string
  new_currency :: string
  initial_balance :: "int option"
  new_label :: "string option"

text \<open>\<open>`opening-${reference.replace('_', '-')}`\<close>: only the first underscore is replaced.\<close>

fun replace_first :: "char \<Rightarrow> char \<Rightarrow> string \<Rightarrow> string" where
  "replace_first c d [] = []"
| "replace_first c d (x # xs) = (if x = c then d # xs else x # replace_first c d xs)"

definition opening_key :: "string \<Rightarrow> string" where
  "opening_key r = ''opening-'' @ replace_first (CHR ''_'') (CHR ''-'') r"

definition createWallet :: "CreateWalletRequest \<Rightarrow> (Wallet \<times> string) accounts_prog" where
  "createWallet request =
     andThen (findUser (for_user request)) (\<lambda>user.
     (let openingBalance = (case initial_balance request of None \<Rightarrow> 0 | Some b \<Rightarrow> b) in
      andThen (freshReference WALLET) (\<lambda>fresh.
      andThen (transaction (
        andThen (WalletRepository_create
          \<lparr>wallet_id = 0, wallet_reference = fresh, wallet_user_id = user_id user,
           wallet_currency = new_currency request, balance = openingBalance, reserved_amount = 0,
           wallet_label = new_label request, wallet_status = ACTIVE, wallet_created_at = 0\<rparr>) (\<lambda>created.
        andThen (if openingBalance > 0
                 then andThen (freshReference TRANSACTION) (\<lambda>movement.
                      andThen (append_entry
                        \<lparr>entry_reference = movement, entry_wallet_id = wallet_id created,
                         entry_transaction_id = opening_key fresh, entry_type = CREDIT,
                         entry_amount = openingBalance, entry_currency = wallet_currency created,
                         balance_before = 0, balance_after = openingBalance,
                         entry_description = ''Opening balance'', entry_payment_reference = None,
                         entry_created_at = 0\<rparr>) (\<lambda>_. ret ()))
                 else ret ()) (\<lambda>_.
        ret created)))) (\<lambda>wallet. ret (wallet, user_reference user)))))"

definition getWithOwner :: "string \<Rightarrow> (Wallet \<times> string) accounts_prog" where
  "getWithOwner r =
     andThen (reads (\<lambda>db. case lookupBy wallet_reference r (wallets db) of
        None \<Rightarrow> None
      | Some w \<Rightarrow> map_option (\<lambda>u. (w, user_reference u)) (lookupBy user_id (wallet_user_id w) (users db))))
       (\<lambda>found. case found of
          None \<Rightarrow> refuse WalletNotFoundException (Details [(''reference'', String r)])
        | Some x \<Rightarrow> ret x)"

section \<open>The HTTP face\<close>

text \<open>\<open>Buffer.from(s, 'utf8')\<close> and the constant-time comparison of the internal API key guard.\<close>

fun utf8 :: "string \<Rightarrow> nat list" where
  "utf8 [] = []"
| "utf8 (c # cs) = (let n = of_char c in
     if n < 128 then n # utf8 cs else (192 + n div 64) # (128 + n mod 64) # utf8 cs)"

definition matches :: "string \<Rightarrow> nat list \<Rightarrow> bool" where
  "matches candidate expected \<longleftrightarrow>
     (let received = utf8 candidate;
          padded = take (length expected) received @ replicate (length expected - length received) 0
      in padded = expected \<and> length received = length expected)"

record internal_credentials =
  expectedKey :: "nat list"
  expectedSecret :: "nat list"

definition header_text :: "header \<Rightarrow> string" where
  "header_text h = (case header_value h of None \<Rightarrow> [] | Some v \<Rightarrow> v)"

definition canActivate :: "internal_credentials \<Rightarrow> header \<Rightarrow> header \<Rightarrow> unit accounts_prog" where
  "canActivate config apiKey apiSecret =
     (if \<not> matches (header_text apiKey) (expectedKey config)
         \<or> \<not> matches (header_text apiSecret) (expectedSecret config)
      then throw (Refused UnauthorizedInternalCallException) else ret ())"

definition BalanceOperation_rules :: "field_rule list" where
  "BalanceOperation_rules =
     [(''transaction_id'', text_rule isTransactionId),
      (''amount'', isValidAmount),
      (''currency'', text_rule isCurrency),
      (''description'', text_rule isSafeDescription),
      (''payment_reference'', optional_rule (text_rule (referencePattern ''pay'')))]"

definition validated :: "field_rule list \<Rightarrow> json_object \<Rightarrow> unit accounts_prog" where
  "validated rules body =
     (case faulty_fields rules body of
        [] \<Rightarrow> ret ()
      | faults \<Rightarrow> refuse ValidationFailedException (FieldErrors faults))"

definition BalanceOperationRequest_of :: "json_object \<Rightarrow> BalanceOperationRequest" where
  "BalanceOperationRequest_of body =
     \<lparr>transaction_id = text_of (property_of ''transaction_id'' body),
      request_amount = integer_of (property_of ''amount'' body),
      request_currency = text_of (property_of ''currency'' body),
      request_description = text_of (property_of ''description'' body),
      payment_reference = optional_text_of (property_of ''payment_reference'' body)\<rparr>"

definition pipe_reference :: "ReferencePrefix \<Rightarrow> string \<Rightarrow> string accounts_prog" where
  "pipe_reference p v = (case ReferencePipe p v of
     Inr r \<Rightarrow> ret r
   | Inl faults \<Rightarrow> refuse ValidationFailedException (FieldErrors faults))"

text \<open>\<open>POST accounts/:reference/credit\<close> and \<open>debit\<close>: the guard, then the pipes, then the handler.\<close>

definition post_movement :: "internal_credentials \<Rightarrow> traffic \<Rightarrow> TransactionType \<Rightarrow> header \<Rightarrow> header
    \<Rightarrow> string \<Rightarrow> json_object \<Rightarrow> BalanceOperationResponse accounts_prog" where
  "post_movement config other type apiKey apiSecret path body =
     andThen (canActivate config apiKey apiSecret) (\<lambda>_.
     andThen (pipe_reference WALLET path) (\<lambda>r.
     andThen (validated BalanceOperation_rules body) (\<lambda>_.
     (if type = CREDIT then credit other r (BalanceOperationRequest_of body)
      else debit other r (BalanceOperationRequest_of body)))))"

text \<open>\<open>POST accounts\<close>\<close>

fun opening_rule :: "js_value \<Rightarrow> bool" where
  "opening_rule (Number n) = (isInteger n \<and> 0 \<le> integerOf n \<and> integerOf n \<le> AMOUNT_MAX)"
| "opening_rule _ = False"

definition CreateWallet_rules :: "field_rule list" where
  "CreateWallet_rules =
     [(''user_reference'', text_rule (referencePattern ''usr'')),
      (''currency'', text_rule isCurrency),
      (''initial_balance'', optional_rule opening_rule),
      (''label'', optional_rule (text_rule (\<lambda>s. length s \<le> 100)))]"

definition CreateWalletRequest_of :: "json_object \<Rightarrow> CreateWalletRequest" where
  "CreateWalletRequest_of body =
     \<lparr>for_user = text_of (property_of ''user_reference'' body),
      new_currency = text_of (property_of ''currency'' body),
      initial_balance = (case property_of ''initial_balance'' body of
         Number n \<Rightarrow> Some (integerOf n) | _ \<Rightarrow> None),
      new_label = optional_text_of (property_of ''label'' body)\<rparr>"

definition post_wallet :: "json_object \<Rightarrow> (Wallet \<times> string) accounts_prog" where
  "post_wallet body =
     andThen (validated CreateWallet_rules body) (\<lambda>_. createWallet (CreateWalletRequest_of body))"

text \<open>\<open>GET accounts/:reference/movements/:transaction_id\<close>\<close>

definition MovementNotFoundException :: "accounts_payload option \<Rightarrow> accounts_payload AppException" where
  "MovementNotFoundException = AppException_of TRANSACTION_NOT_FOUND 404"

definition get_movement :: "internal_credentials \<Rightarrow> traffic \<Rightarrow> header \<Rightarrow> header \<Rightarrow> string \<Rightarrow> string
    \<Rightarrow> BalanceOperationResponse accounts_prog" where
  "get_movement config other apiKey apiSecret path transactionId =
     andThen (canActivate config apiKey apiSecret) (\<lambda>_.
     andThen (pipe_reference WALLET path) (\<lambda>r.
     andThen (findMovement other r transactionId) (\<lambda>found. case found of
       None \<Rightarrow> refuse MovementNotFoundException
         (Details [(''reference'', String r), (''transaction_id'', String transactionId)])
     | Some e \<Rightarrow> ret (approved e))))"

record BalanceResponse =
  view_reference :: string
  view_user_reference :: string
  view_currency :: string
  view_balance :: int
  available_balance :: int
  view_status :: WalletStatus

definition BalanceResponse_from :: "Wallet \<Rightarrow> string \<Rightarrow> BalanceResponse" where
  "BalanceResponse_from w user =
     \<lparr>view_reference = wallet_reference w, view_user_reference = user,
      view_currency = wallet_currency w, view_balance = read_balance w,
      available_balance = js_sub (read_balance w) (bigintTransformer_from (Some (reserved_amount w))),
      view_status = wallet_status w\<rparr>"

definition get_balance :: "string \<Rightarrow> BalanceResponse accounts_prog" where
  "get_balance path =
     andThen (pipe_reference WALLET path) (\<lambda>r.
     andThen (getWithOwner r) (\<lambda>(w, user). ret (BalanceResponse_from w user)))"

text \<open>What leaves the service: the status line and the envelope.\<close>

definition thrown_of :: "accounts_exn \<Rightarrow> accounts_payload thrown" where
  "thrown_of e = (case e of Refused x \<Rightarrow> App x | Driver _ \<Rightarrow> Unknown [])"

definition respond :: "nat \<Rightarrow> (accounts_exn + 'a) \<Rightarrow> ('a \<Rightarrow> accounts_payload) \<Rightarrow> nat \<times> accounts_payload ApiResponse" where
  "respond status r view = (case r of
     Inr x \<Rightarrow> (status, ResponseInterceptor status (Shared.Plain (Some (view x))))
   | Inl e \<Rightarrow> AllExceptionsFilter (thrown_of e))"

section \<open>The service as a whole\<close>

datatype accounts_call =
    PostUser CreateUserRequest
  | GetUser string
  | PostWallet json_object
  | GetBalance string
  | PostCredit header header string json_object
  | PostDebit header header string json_object
  | GetMovement header header string string

datatype accounts_answer =
    UserAnswer User
  | WalletAnswer Wallet string
  | BalanceAnswer BalanceResponse
  | MovementAnswer BalanceOperationResponse

definition fmap_prog :: "('a \<Rightarrow> 'b) \<Rightarrow> 'a accounts_prog \<Rightarrow> 'b accounts_prog" where
  "fmap_prog f m = andThen m (\<lambda>x. ret (f x))"

fun serve :: "internal_credentials \<Rightarrow> traffic \<Rightarrow> accounts_call \<Rightarrow> accounts_answer accounts_prog" where
  "serve config other (PostUser request) = fmap_prog UserAnswer (createUser request)"
| "serve config other (GetUser path) =
     andThen (pipe_reference USER path) (\<lambda>r. fmap_prog UserAnswer (findUser r))"
| "serve config other (PostWallet body) = fmap_prog (\<lambda>(w, u). WalletAnswer w u) (post_wallet body)"
| "serve config other (GetBalance path) = fmap_prog BalanceAnswer (get_balance path)"
| "serve config other (PostCredit apiKey apiSecret path body) =
     fmap_prog MovementAnswer (post_movement config other CREDIT apiKey apiSecret path body)"
| "serve config other (PostDebit apiKey apiSecret path body) =
     fmap_prog MovementAnswer (post_movement config other DEBIT apiKey apiSecret path body)"
| "serve config other (GetMovement apiKey apiSecret path transactionId) =
     fmap_prog MovementAnswer (get_movement config other apiKey apiSecret path transactionId)"

end
