(* ===== verification/Accounts_Ledger.thy ===== *)
theory Accounts_Ledger
  imports Accounts
begin

text \<open>
  What makes the accounts service correct. \<open>accounts_inv\<close>: every balance is the sum of the signed
  movements booked on its wallet, no wallet is overdrawn, no key moved a wallet twice, and the
  \<open>balance_before\<close>/\<open>balance_after\<close> columns chain. \<open>evolves own\<close>: a change of the database that
  keeps wallets and history and books no movement under the idempotency keys \<open>own\<close>. The decision
  table \<open>movement_spec\<close> is the abstract specification of a movement.
\<close>

section \<open>The invariant\<close>

definition signed_amount :: "LedgerEntry \<Rightarrow> int" where
  "signed_amount e = delta_of (entry_type e) (entry_amount e)"

definition booked :: "nat \<Rightarrow> LedgerEntry list \<Rightarrow> int" where
  "booked wid es = sum_list (map signed_amount (filter (\<lambda>e. entry_wallet_id e = wid) es))"

definition chained :: "LedgerEntry list \<Rightarrow> bool" where
  "chained es \<longleftrightarrow> (\<forall>i < length es.
     balance_after (es ! i) = to_double (booked (entry_wallet_id (es ! i)) (take (Suc i) es))
     \<and> balance_before (es ! i) = js_sub (balance_after (es ! i)) (signed_amount (es ! i)))"

definition wallet_ok :: "LedgerEntry list \<Rightarrow> Wallet \<Rightarrow> bool" where
  "wallet_ok es w \<longleftrightarrow> balance w = booked (wallet_id w) es \<and> bigint_ok (balance w)
     \<and> 0 \<le> reserved_amount w \<and> reserved_amount w \<le> balance w"

definition accounts_inv :: "accounts_db \<Rightarrow> bool" where
  "accounts_inv db \<longleftrightarrow>
     map wallet_id (wallets db) = [0..<length (wallets db)]
     \<and> distinct (map wallet_reference (wallets db))
     \<and> distinct (map entry_key (ledger db))
     \<and> distinct (map entry_reference (ledger db))
     \<and> (\<forall>e \<in> set (ledger db). entry_wallet_id e < length (wallets db) \<and> 0 < entry_amount e
          \<and> entry_type e \<in> {CREDIT, DEBIT})
     \<and> list_all (wallet_ok (ledger db)) (wallets db)
     \<and> chained (ledger db)"

definition wallet_identity :: "Wallet \<Rightarrow> nat \<times> string \<times> string" where
  "wallet_identity w = (wallet_id w, wallet_reference w, wallet_currency w)"

definition evolves :: "string set \<Rightarrow> accounts_db \<Rightarrow> accounts_db \<Rightarrow> bool" where
  "evolves own db db' \<longleftrightarrow>
     (\<exists>more. map wallet_identity (wallets db') = map wallet_identity (wallets db) @ more)
     \<and> (\<exists>es. ledger db' = ledger db @ es \<and> (\<forall>e \<in> set es. entry_transaction_id e \<notin> own))"

definition legit :: "string set \<Rightarrow> traffic \<Rightarrow> bool" where
  "legit own other \<longleftrightarrow>
     (\<forall>k db. accounts_inv db \<longrightarrow> accounts_inv (other k db) \<and> evolves own db (other k db))"

lemma evolves_refl [simp]: "evolves own db db"
  by (simp add: evolves_def)

lemma evolves_trans: "evolves own a b \<Longrightarrow> evolves own b c \<Longrightarrow> evolves own a c"
  by (force simp: evolves_def)

lemma evolves_mono: "evolves own a b \<Longrightarrow> own' \<subseteq> own \<Longrightarrow> evolves own' a b"
  by (auto simp: evolves_def)

lemma evolves_tables:
  "wallets b = wallets a \<Longrightarrow> ledger b = ledger a \<Longrightarrow> evolves own a b"
  by (simp add: evolves_def)

lemma accounts_inv_tables:
  "wallets b = wallets a \<Longrightarrow> ledger b = ledger a \<Longrightarrow> accounts_inv b = accounts_inv a"
  by (simp add: accounts_inv_def)

lemma legit_calm: "legit own calm"
  by (simp add: legit_def calm_def)

lemma legitD: "legit own other \<Longrightarrow> accounts_inv db \<Longrightarrow> accounts_inv (other k db) \<and> evolves own db (other k db)"
  by (simp add: legit_def)

lemma evolves_wallet:
  assumes "evolves own a b" and "lookupBy wallet_reference r (wallets a) = Some w"
  shows "\<exists>w'. lookupBy wallet_reference r (wallets b) = Some w' \<and> wallet_identity w' = wallet_identity w"
proof -
  obtain more where eq: "map wallet_identity (wallets b) = map wallet_identity (wallets a) @ more"
    using assms(1) by (auto simp: evolves_def)
  have "lookupBy wallet_reference r ws = Some w \<Longrightarrow>
      map wallet_identity vs = map wallet_identity ws @ more \<Longrightarrow>
      \<exists>w'. lookupBy wallet_reference r vs = Some w' \<and> wallet_identity w' = wallet_identity w" for ws vs
  proof (induction ws arbitrary: vs)
    case (Cons x ws)
    then show ?case
      by (cases vs) (auto simp: wallet_identity_def split: if_splits)
  qed simp
  with assms(2) eq show ?thesis by blast
qed

lemma evolves_entry:
  assumes "evolves own a b" and "lookupBy entry_key k (ledger a) = Some e"
  shows "lookupBy entry_key k (ledger b) = Some e"
  using assms by (auto simp: evolves_def lookupBy_append)

lemma evolves_no_entry:
  assumes "evolves own a b" and "lookupBy entry_key k (ledger a) = None" and "snd k \<in> own"
  shows "lookupBy entry_key k (ledger b) = None"
  using assms by (fastforce simp: evolves_def lookupBy_append lookupBy_None entry_key_def)

lemma booked_snoc: "booked wid (es @ [e]) = booked wid es + (if entry_wallet_id e = wid then signed_amount e else 0)"
  by (simp add: booked_def)

lemma chained_snoc:
  "chained (es @ [e]) \<longleftrightarrow> chained es
     \<and> balance_after e = to_double (booked (entry_wallet_id e) (es @ [e]))
     \<and> balance_before e = js_sub (balance_after e) (signed_amount e)"
  by (auto simp: chained_def nth_append less_Suc_eq)

lemma signed_created_at [simp]: "signed_amount (e\<lparr>entry_created_at := t\<rparr>) = signed_amount e"
  by (simp add: signed_amount_def)

text \<open>Ids are positions: looking a wallet up by its id is indexing.\<close>

lemma wallet_by_id:
  assumes "map wallet_id ws = [0..<length ws]" and "w \<in> set ws"
  shows "lookupBy wallet_id (wallet_id w) ws = Some w"
  using assms by (metis distinct_keys_lookup distinct_upt)

lemma wallet_id_unique:
  assumes "map wallet_id ws = [0..<length ws]" and "w \<in> set ws" and "v \<in> set ws" and "wallet_id v = wallet_id w"
  shows "v = w"
  using assms by (metis wallet_by_id option.inject)

section \<open>The two writes of a movement, together\<close>

text \<open>The state after a move of \<open>delta\<close> and the entry that records it.\<close>

lemma book_movement:
  assumes inv: "accounts_inv db"
    and w: "w \<in> set (wallets db)"
    and e: "entry_wallet_id e = wallet_id w" "signed_amount e = delta" "0 < entry_amount e" "entry_type e \<in> {CREDIT, DEBIT}"
      "balance_after e = to_double (balance w + delta)" "balance_before e = js_sub (balance_after e) delta"
    and fresh: "lookupBy entry_key (entry_key e) (ledger db) = None"
      "lookupBy entry_reference (entry_reference e) (ledger db) = None"
    and ok: "bigint_ok (balance w + delta)" "delta < 0 \<longrightarrow> balance w - reserved_amount w \<ge> - delta"
  shows "accounts_inv (db\<lparr>wallets := updateBy wallet_id (wallet_id w) (\<lambda>v. v\<lparr>balance := balance v + delta\<rparr>) (wallets db),
    drawn := n, ledger := ledger db @ [e]\<rparr>)"
proof -
  let ?ws = "updateBy wallet_id (wallet_id w) (\<lambda>v. v\<lparr>balance := balance v + delta\<rparr>) (wallets db)"
  note inv' = inv [unfolded accounts_inv_def]
  have ids: "map wallet_id ?ws = [0..<length ?ws]"
    using inv' by (simp add: map_updateBy)
  have refs: "map wallet_reference ?ws = map wallet_reference (wallets db)"
    by (simp add: map_updateBy)
  have bal: "balance w = booked (wallet_id w) (ledger db)"
    using inv' w by (auto simp: list_all_iff wallet_ok_def)
  have chain: "chained (ledger db @ [e])"
    using inv' e bal by (simp add: chained_snoc booked_snoc)
  have all: "list_all (wallet_ok (ledger db @ [e])) ?ws"
  proof (unfold list_all_iff, rule ballI)
    fix v assume "v \<in> set ?ws"
    then obtain u where u: "u \<in> set (wallets db)"
      and v: "v = (if wallet_id u = wallet_id w then u\<lparr>balance := balance u + delta\<rparr> else u)"
      by (auto simp: updateBy_def)
    have uok: "wallet_ok (ledger db) u" using inv' u by (simp add: list_all_iff)
    show "wallet_ok (ledger db @ [e]) v"
    proof (cases "wallet_id u = wallet_id w")
      case True
      then have "u = w" using inv' u w wallet_id_unique by blast
      then show ?thesis
        using uok v e ok by (auto simp: wallet_ok_def booked_snoc)
    next
      case False
      then show ?thesis using uok v e by (auto simp: wallet_ok_def booked_snoc)
    qed
  qed
  have len: "wallet_id w < length (wallets db)"
    using inv' w by (metis atLeastLessThan_iff imageI list.set_map set_upt)
  show ?thesis
    using inv' ids refs chain all e len fresh
    by (auto simp: accounts_inv_def lookupBy_None image_iff)
qed

section \<open>Movements\<close>

definition same_operation :: "LedgerEntry \<Rightarrow> BalanceOperationRequest \<Rightarrow> TransactionType \<Rightarrow> bool" where
  "same_operation e request type \<longleftrightarrow> entry_type e = type
     \<and> entry_amount e = request_amount request \<and> entry_currency e = request_currency request"

lemma wp_refuse [wp_simps]: "wp (refuse x p) Q E s = E (Refused (x (Some p))) s"
  by (simp add: refuse_def wp_simps)

lemma wp_option [wp_simps]:
  "wp (case m of None \<Rightarrow> f | Some x \<Rightarrow> g x) Q E s = (case m of None \<Rightarrow> wp f Q E s | Some x \<Rightarrow> wp (g x) Q E s)"
  by (simp split: option.split)

lemma wp_transaction: "wp (transaction m) Q E db =
    wp m Q (\<lambda>e db'. E e (db'\<lparr>users := users db, wallets := wallets db, ledger := ledger db\<rparr>)) db"
  by (simp add: wp_def transaction_def split: prod.splits sum.splits)

lemma wp_assertOperable: "wp (assertOperable w request) Q E db \<longleftrightarrow>
    (if wallet_status w = FROZEN then
       E (Refused (WalletFrozenException (Some (Operation (declined request (read_balance w) WALLET_FROZEN_DECLINE))))) db
     else if wallet_currency w \<noteq> request_currency request then
       E (Refused (CurrencyMismatchException (Some (Operation (declined request (read_balance w) CURRENCY_MISMATCH_DECLINE))))) db
     else Q () db)"
  by (simp add: assertOperable_def wp_simps)

lemma wp_replay: "wp (replay e request type) Q E db \<longleftrightarrow>
    (if same_operation e request type then Q (approved e) db
     else E (Refused (IdempotencyConflictException (Some (Details
        [(''transaction_id'', String (transaction_id request)),
         (''reference'', String (entry_reference e)),
         (''recorded_type'', String (type_text (entry_type e))),
         (''recorded_amount'', Number (num (entry_amount e))),
         (''recorded_currency'', String (entry_currency e))])))) db)"
  by (simp add: replay_def same_operation_def wp_simps)

lemma isUniqueViolationOf_Refused [simp]: "\<not> isUniqueViolationOf c (Refused x)"
  by (simp add: isUniqueViolationOf_def)

text \<open>
  Inside its transaction a movement either books exactly one entry, under a key not yet used, or
  writes nothing that survives; the unique index fires exactly when the key is taken.
\<close>

lemma applyInTransaction_spec:
  assumes inv: "accounts_inv db" and amt: "0 < request_amount request" and type: "type \<in> {CREDIT, DEBIT}"
    and w: "w \<in> set (wallets db)" and id: "wallet_id wallet = wallet_id w"
  shows "wp (applyInTransaction other wallet request type)
     (\<lambda>resp db'. \<exists>e. resp = approved e \<and> ledger db' = ledger db @ [e] \<and> accounts_inv db'
        \<and> entry_key e = (wallet_id w, transaction_id request) \<and> same_operation e request type
        \<and> map wallet_identity (wallets db') = map wallet_identity (wallets db)
        \<and> lookupBy entry_key (wallet_id w, transaction_id request) (ledger db) = None)
     (\<lambda>e db'. True) db"
proof -
  let ?d = "delta_of type (request_amount request)"
  have found: "lookupBy wallet_id (wallet_id wallet) (wallets db) = Some w"
    using inv w id by (simp add: accounts_inv_def wallet_by_id)
  have found': "lookupBy wallet_id (wallet_id w) (wallets db) = Some w"
    using found id by simp
  obtain ms bytes where draw: "refs db (drawn db) = (ms, bytes)" by fastforce
  let ?r = "generateReference TRANSACTION ms bytes"
  let ?row = "\<lparr>entry_reference = ?r, entry_wallet_id = wallet_id wallet,
             entry_transaction_id = transaction_id request, entry_type = type,
             entry_amount = request_amount request, entry_currency = request_currency request,
             balance_before = js_sub (to_double (balance w + ?d)) ?d, balance_after = to_double (balance w + ?d),
             entry_description = request_description request,
             entry_payment_reference = payment_reference request, entry_created_at = now_ms db\<rparr>"
  let ?db = "db\<lparr>wallets := updateBy wallet_id (wallet_id w) (\<lambda>v. v\<lparr>balance := balance v + ?d\<rparr>) (wallets db),
    drawn := drawn db + 1, ledger := ledger db @ [?row]\<rparr>"
  show ?thesis
  proof (cases "wallet_status w = ACTIVE \<and> wallet_currency w = request_currency request
             \<and> (?d < 0 \<longrightarrow> balance w - reserved_amount w \<ge> - ?d)")
    case False
    then have "wp (move (wallet_id wallet) ?d (request_currency request)) Q E db = Q None db" for Q E
      unfolding wp_def move_def found by auto
    then show ?thesis
      by (simp add: applyInTransaction_def Let_def wp_simps wp_assertOperable split: option.split)
  next
    case moved: True
    show ?thesis
    proof (cases "bigint_ok (balance w + ?d) \<and> lookupBy entry_key (wallet_id w, transaction_id request) (ledger db) = None
        \<and> lookupBy entry_reference ?r (ledger db) = None \<and> bigint_ok (balance_before ?row) \<and> bigint_ok (balance_after ?row)
        \<and> bigint_ok (request_amount request)")
      case True
      have "accounts_inv ?db"
        using True moved id type amt
        by (intro book_movement [OF inv w]) (auto simp: signed_amount_def entry_key_def)
      then show ?thesis
        using True moved id
        by (simp add: applyInTransaction_def Let_def wp_def andThen_def move_def found found' freshReference_def draw
            append_entry_def ret_def same_operation_def entry_key_def map_updateBy wallet_identity_def)
    next
      case False
      then show ?thesis
        using moved id
        by (auto simp: applyInTransaction_def Let_def wp_def andThen_def move_def found found' freshReference_def draw
            append_entry_def ret_def entry_key_def numeric_out_of_range_def unique_violation_def throw_def)
    qed
  qed
qed

lemma lookup_identity:
  assumes "accounts_inv db" and "lookupBy wallet_reference r (wallets db) = Some w" and "wallet_identity w' = wallet_identity w"
    and "lookupBy wallet_reference r (wallets db') = Some w'"
  shows "wallet_id w' = wallet_id w"
  using assms by (simp add: wallet_identity_def)

definition race_handler :: "traffic \<Rightarrow> Wallet \<Rightarrow> BalanceOperationRequest \<Rightarrow> TransactionType \<Rightarrow> accounts_exn \<Rightarrow> BalanceOperationResponse accounts_prog" where
  "race_handler other w request type error =
     (if \<not> isUniqueViolationOf ''uq_ledger_entries_wallet_transaction'' error then throw error
      else andThen (writes (other 3)) (\<lambda>_.
           andThen (findByIdempotencyKey (wallet_id w) (transaction_id request)) (\<lambda>again.
             case again of None \<Rightarrow> throw error | Some original \<Rightarrow> replay original request type)))"

lemma applyMovement_fresh:
  assumes "lookupBy wallet_reference r (wallets db) = Some w"
    and "lookupBy entry_key (wallet_id w, transaction_id request) (ledger (other 0 db)) = None"
  shows "wp (applyMovement other r request type) Q E db =
    wp (assertOperable w request)
      (\<lambda>_ db'. wp (tryCatch (transaction (applyInTransaction other w request type)) (race_handler other w request type))
        Q E (other 1 db')) E (other 0 db)"
  using assms unfolding race_handler_def [abs_def]
  by (simp add: applyMovement_def WalletRepository_findByReference_def findByIdempotencyKey_def
        wp_andThen wp_reads wp_writes wp_assertOperable)

lemma applyMovement_spec:
  assumes inv: "accounts_inv db" and legit: "legit own other" and amt: "0 < request_amount request"
    and type: "type \<in> {CREDIT, DEBIT}"
  shows "wp (applyMovement other r request type)
     (\<lambda>resp db'. accounts_inv db' \<and> evolves (own - {transaction_id request}) db db'
        \<and> (\<exists>w e. lookupBy wallet_reference r (wallets db) = Some w
             \<and> lookupBy entry_key (wallet_id w, transaction_id request) (ledger db') = Some e
             \<and> same_operation e request type \<and> resp = approved e
             \<and> (evolves own db db' \<or> lookupBy entry_key (wallet_id w, transaction_id request) (ledger db) = None
                \<and> (\<exists>db0. evolves own db db0 \<and> ledger db' = ledger db0 @ [e]))))
     (\<lambda>e db'. accounts_inv db' \<and> evolves own db db') db"
proof (cases "lookupBy wallet_reference r (wallets db)")
  case None
  then show ?thesis
    using inv by (simp add: applyMovement_def WalletRepository_findByReference_def wp_simps)
next
  case (Some w)
  let ?k = "(wallet_id w, transaction_id request)"
  define db0 where "db0 = other 0 db"
  define db1 where "db1 = other 1 db0"
  have 0: "accounts_inv db0" "evolves own db db0" and 1: "accounts_inv db1" "evolves own db0 db1"
    unfolding db1_def db0_def using legitD [OF legit] inv by blast+
  have 01: "evolves own db db1" using 0 1 evolves_trans by blast
  obtain w1 where w1: "lookupBy wallet_reference r (wallets db1) = Some w1" "wallet_identity w1 = wallet_identity w"
    using evolves_wallet [OF 01 Some] by blast
  then have w1m: "w1 \<in> set (wallets db1)" and id: "wallet_id w = wallet_id w1"
    using lookupBy_Some by (fastforce simp: wallet_identity_def)+
  have replayed: ?thesis if "lookupBy entry_key ?k (ledger db0) = Some e" for e
    using that Some 0 evolves_mono [OF 0(2), of "own - {transaction_id request}"]
    by (auto simp: applyMovement_def WalletRepository_findByReference_def findByIdempotencyKey_def
        wp_simps wp_replay db0_def)
  have fresh: ?thesis if none: "lookupBy entry_key ?k (ledger db0) = None"
  proof -
    have new: "lookupBy entry_key ?k (ledger db) = None"
      using none evolves_entry [OF 0(2)] by (cases "lookupBy entry_key ?k (ledger db)") auto
    let ?Q = "\<lambda>resp db'. accounts_inv db' \<and> evolves (own - {transaction_id request}) db db'
        \<and> (\<exists>e. lookupBy entry_key ?k (ledger db') = Some e
             \<and> same_operation e request type \<and> resp = approved e
             \<and> (evolves own db db' \<or> (\<exists>db0. evolves own db db0 \<and> ledger db' = ledger db0 @ [e])))"
    let ?E = "\<lambda>e db'. accounts_inv db' \<and> evolves own db db'"
    have handler: "wp (race_handler other w request type e) ?Q ?E db'" if tables: "wallets db' = wallets db1" "ledger db' = ledger db1" for e db'
    proof -
      have "accounts_inv db'" "evolves own db db'"
        using 1(1) 01 tables evolves_trans [OF 01 evolves_tables] accounts_inv_tables by blast+
      moreover from this have "accounts_inv (other 3 db')" "evolves own db (other 3 db')"
        using legitD [OF legit] evolves_trans by blast+
      moreover from this have "evolves (own - {transaction_id request}) db (other 3 db')"
        using evolves_mono by blast
      ultimately show ?thesis
        by (simp add: race_handler_def wp_simps findByIdempotencyKey_def wp_replay split: option.split)
    qed
    have "wp (tryCatch (transaction (applyInTransaction other w request type)) (race_handler other w request type)) ?Q ?E db1"
      unfolding wp_tryCatch wp_transaction
    proof (rule wp_mono [OF applyInTransaction_spec [OF 1(1) amt type w1m id]], goal_cases)
      case (1 resp db')
      then obtain e where e: "resp = approved e" "ledger db' = ledger db1 @ [e]" "accounts_inv db'"
        "entry_key e = ?k" "same_operation e request type"
        "map wallet_identity (wallets db') = map wallet_identity (wallets db1)"
        "lookupBy entry_key ?k (ledger db1) = None"
        using id by auto
      have "evolves (own - {transaction_id request}) db1 db'"
        using e by (auto simp: evolves_def entry_key_def)
      then have "evolves (own - {transaction_id request}) db db'"
        using evolves_mono [OF 01] evolves_trans by blast
      moreover have "lookupBy entry_key ?k (ledger db') = Some e"
        using e by (simp add: lookupBy_append)
      ultimately show ?case using e 01 by blast
    next
      case (2 e db')
      then show ?case by (intro handler) simp_all
    qed
    then have "wp (tryCatch (transaction (applyInTransaction other w request type)) (race_handler other w request type))
      (\<lambda>resp db'. accounts_inv db' \<and> evolves (own - {transaction_id request}) db db'
        \<and> (\<exists>w e. lookupBy wallet_reference r (wallets db) = Some w
             \<and> lookupBy entry_key (wallet_id w, transaction_id request) (ledger db') = Some e
             \<and> same_operation e request type \<and> resp = approved e
             \<and> (evolves own db db' \<or> lookupBy entry_key (wallet_id w, transaction_id request) (ledger db) = None
                \<and> (\<exists>db0. evolves own db db0 \<and> ledger db' = ledger db0 @ [e])))) ?E (other 1 db0)"
      unfolding db1_def [symmetric] by (rule wp_mono) (use Some new in auto)
    with applyMovement_fresh [where db = db] Some none 0 show ?thesis
      by (simp add: wp_assertOperable db0_def [symmetric])
  qed
  from replayed fresh show ?thesis by (cases "lookupBy entry_key ?k (ledger db0)") blast+
qed

section \<open>The other operations\<close>

abbreviation keeps :: "string set \<Rightarrow> 'a accounts_prog \<Rightarrow> bool" where
  "keeps own m \<equiv> \<forall>db. accounts_inv db \<longrightarrow>
     wp m (\<lambda>_ db'. accounts_inv db' \<and> evolves own db db') (\<lambda>_ db'. accounts_inv db' \<and> evolves own db db') db"

lemma keeps_andThen:
  assumes "keeps own m" and "\<And>x. keeps own (k x)"
  shows "keeps own (andThen m k)"
proof (intro allI impI)
  fix db assume "accounts_inv db"
  with assms(1) have "wp m (\<lambda>_ db'. accounts_inv db' \<and> evolves own db db')
      (\<lambda>_ db'. accounts_inv db' \<and> evolves own db db') db" by blast
  then show "wp (andThen m k) (\<lambda>_ db'. accounts_inv db' \<and> evolves own db db')
      (\<lambda>_ db'. accounts_inv db' \<and> evolves own db db') db"
    unfolding wp_andThen
  proof (rule wp_mono)
    fix x db' assume s: "accounts_inv db' \<and> evolves own db db'"
    with assms(2) have "wp (k x) (\<lambda>_ d. accounts_inv d \<and> evolves own db' d)
        (\<lambda>_ d. accounts_inv d \<and> evolves own db' d) db'" by blast
    then show "wp (k x) (\<lambda>_ d. accounts_inv d \<and> evolves own db d) (\<lambda>_ d. accounts_inv d \<and> evolves own db d) db'"
      by (rule wp_mono) (use s evolves_trans in blast)+
  qed simp
qed

lemma keeps_tables:
  assumes "\<And>db. wallets (snd (m db)) = wallets db \<and> ledger (snd (m db)) = ledger db"
  shows "keeps own m"
proof (intro allI impI)
  fix db assume "accounts_inv db"
  then have "accounts_inv (snd (m db)) \<and> evolves own db (snd (m db))"
    using assms [of db] accounts_inv_tables evolves_tables by blast
  then show "wp m (\<lambda>_ db'. accounts_inv db' \<and> evolves own db db') (\<lambda>_ db'. accounts_inv db' \<and> evolves own db db') db"
    by (simp add: wp_state)
qed

lemma keeps_ret [simp]: "keeps own (ret x)" "keeps own (throw e)" "keeps own (reads f)"
  by (simp_all add: wp_simps)

lemma keeps_refuse [simp]: "keeps own (refuse x p)"
  by (simp add: wp_simps)

lemma keeps_fmap: "keeps own m \<Longrightarrow> keeps own (fmap_prog f m)"
  unfolding fmap_prog_def by (rule keeps_andThen) simp_all

lemma keeps_createUser: "keeps own (createUser request)"
  by (rule keeps_tables)
     (simp add: createUser_def tryCatch_def andThen_def freshReference_def UserRepository_create_def
        unique_violation_def throw_def refuse_def Let_def split: prod.splits)

lemma keeps_pipe: "keeps own (pipe_reference p v)"
  by (simp add: pipe_reference_def split: sum.split)

lemma keeps_validated: "keeps own (validated rules body)"
  by (simp add: validated_def split: list.split)

lemma keeps_guard: "keeps own (canActivate config apiKey apiSecret)"
  by (simp add: canActivate_def)

lemma keeps_findUser: "keeps own (findUser r)"
  unfolding findUser_def UserRepository_findByReference_def
  by (rule keeps_andThen) (simp_all split: option.split)

lemma keeps_get_balance: "keeps own (get_balance path)"
  unfolding get_balance_def getWithOwner_def
  by (intro keeps_andThen keeps_pipe) (simp_all split: option.split prod.split)

lemma keeps_writes_other: "legit own other \<Longrightarrow> keeps own (writes (other k))"
  by (simp add: wp_simps legit_def)

lemma keeps_findMovement: "legit own other \<Longrightarrow> keeps own (findMovement other r k)"
  unfolding findMovement_def WalletRepository_findByReference_def findByIdempotencyKey_def
  by (intro keeps_andThen) (simp_all add: keeps_andThen keeps_writes_other split: option.split)

lemma opening_inv:
  assumes inv: "accounts_inv db" and b: "0 \<le> b" "bigint_ok b" "\<bar>b\<bar> \<le> 2 ^ 53"
    and fresh: "lookupBy wallet_reference (wallet_reference w) (wallets db) = None"
    and w: "wallet_id w = length (wallets db)" "balance w = b" "reserved_amount w = 0"
    and db': "wallets db' = wallets db @ [w]"
      "ledger db' = (if b > 0 then ledger db @ [e] else ledger db)"
    and e: "b > 0 \<Longrightarrow> entry_wallet_id e = wallet_id w \<and> signed_amount e = b \<and> entry_amount e = b \<and> entry_type e = CREDIT
       \<and> balance_after e = b \<and> balance_before e = 0
       \<and> lookupBy entry_key (entry_key e) (ledger db) = None
       \<and> lookupBy entry_reference (entry_reference e) (ledger db) = None"
  shows "accounts_inv db'"
proof -
  note inv' = inv [unfolded accounts_inv_def]
  have none: "booked (length (wallets db)) (ledger db) = 0"
  proof -
    have "filter (\<lambda>e. entry_wallet_id e = length (wallets db)) (ledger db) = []"
      using inv' by (auto simp: filter_empty_conv)
    then show ?thesis by (simp add: booked_def)
  qed
  have old: "\<forall>v \<in> set (wallets db). wallet_id v \<noteq> length (wallets db)"
    using inv' by (metis atLeastLessThan_iff imageI list.set_map nless_le set_upt)
  have "chained (ledger db')"
    using inv' db' e none b w by (auto simp: chained_snoc booked_snoc js_sub_def)
  moreover have "list_all (wallet_ok (ledger db')) (wallets db')"
    using inv' db' e none b w old by (auto simp: list_all_iff wallet_ok_def booked_snoc)
  moreover have "map wallet_id (wallets db') = [0..<length (wallets db')]"
    using inv' db' w by simp
  ultimately show ?thesis
    using inv' db' e fresh w by (auto simp: accounts_inv_def lookupBy_None image_iff less_Suc_eq)
qed

text \<open>The two rows a successful creation leaves.\<close>

lemma createWallet_rows:
  assumes run: "createWallet request db = (Inr x, db')"
    and op: "op = (case initial_balance request of None \<Rightarrow> 0 | Some b \<Rightarrow> b)"
  shows "\<exists>w e. wallets db' = wallets db @ [w] \<and> ledger db' = (if op > 0 then ledger db @ [e] else ledger db)
     \<and> lookupBy wallet_reference (wallet_reference w) (wallets db) = None
     \<and> wallet_id w = length (wallets db) \<and> balance w = op \<and> reserved_amount w = 0 \<and> fst x = w
     \<and> (op > 0 \<longrightarrow> entry_wallet_id e = wallet_id w \<and> signed_amount e = op \<and> entry_amount e = op
       \<and> entry_type e = CREDIT \<and> balance_after e = op \<and> balance_before e = 0
       \<and> entry_transaction_id e = opening_key (wallet_reference w)
       \<and> lookupBy entry_key (entry_key e) (ledger db) = None
       \<and> lookupBy entry_reference (entry_reference e) (ledger db) = None)"
proof -
  obtain u where u: "lookupBy user_reference (for_user request) (users db) = Some u"
    using run by (cases "lookupBy user_reference (for_user request) (users db)")
      (simp_all add: createWallet_def andThen_def findUser_def UserRepository_findByReference_def reads_def
        refuse_def throw_def)
  obtain m1 b1 where d1: "refs db (drawn db) = (m1, b1)" by fastforce
  obtain m2 b2 where d2: "refs db (Suc (drawn db)) = (m2, b2)" by fastforce
  let ?w = "\<lparr>wallet_id = length (wallets db), wallet_reference = generateReference WALLET m1 b1,
    wallet_user_id = user_id u, wallet_currency = new_currency request, balance = op, reserved_amount = 0,
    wallet_label = new_label request, wallet_status = ACTIVE, wallet_created_at = now_ms db\<rparr>"
  let ?e = "\<lparr>entry_reference = generateReference TRANSACTION m2 b2, entry_wallet_id = length (wallets db),
    entry_transaction_id = opening_key (generateReference WALLET m1 b1), entry_type = CREDIT,
    entry_amount = op, entry_currency = new_currency request, balance_before = 0, balance_after = op,
    entry_description = ''Opening balance'', entry_payment_reference = None, entry_created_at = now_ms db\<rparr>"
  have "wallets db' = wallets db @ [?w] \<and> ledger db' = (if op > 0 then ledger db @ [?e] else ledger db)
     \<and> lookupBy wallet_reference (wallet_reference ?w) (wallets db) = None \<and> fst x = ?w
     \<and> (op > 0 \<longrightarrow> lookupBy entry_key (entry_key ?e) (ledger db) = None
          \<and> lookupBy entry_reference (entry_reference ?e) (ledger db) = None)"
    using run
    by (simp add: createWallet_def andThen_def findUser_def UserRepository_findByReference_def reads_def
          ret_def freshReference_def transaction_def Let_def op [symmetric] u d1 d2 entry_key_def
          WalletRepository_create_def append_entry_def unique_violation_def numeric_out_of_range_def throw_def
          split: if_splits) (auto)
  then show ?thesis
    by (intro exI [of _ ?w] exI [of _ ?e]) (simp add: signed_amount_def delta_of_def)
qed

lemma createWallet_refused:
  assumes "createWallet request db = (Inl e, db')"
  shows "wallets db' = wallets db \<and> ledger db' = ledger db"
  using assms
  by (auto simp: createWallet_def andThen_def findUser_def UserRepository_findByReference_def reads_def
          refuse_def throw_def ret_def freshReference_def transaction_def Let_def
          split: prod.splits sum.splits option.splits)

lemma keeps_createWallet:
  assumes b: "case initial_balance request of None \<Rightarrow> True | Some b \<Rightarrow> 0 \<le> b \<and> b \<le> AMOUNT_MAX"
    and own: "\<And>r. opening_key r \<notin> own"
  shows "keeps own (createWallet request)"
proof (intro allI impI)
  fix db assume inv: "accounts_inv db"
  define op where "op = (case initial_balance request of None \<Rightarrow> 0 | Some b \<Rightarrow> b)"
  have op: "0 \<le> op" "op \<le> 1000000000000" "bigint_ok op" "\<bar>op\<bar> \<le> 2 ^ 53"
    using b by (auto simp: op_def bigint_ok_def AMOUNT_MAX_def split: option.splits)
  obtain db' res where run: "createWallet request db = (res, db')" by fastforce
  have "accounts_inv db' \<and> evolves own db db'"
  proof (cases res)
    case (Inl e)
    with run show ?thesis
      using inv createWallet_refused accounts_inv_tables evolves_tables by blast
  next
    case (Inr x)
    with run createWallet_rows [OF _ op_def] obtain w e where
      rows: "wallets db' = wallets db @ [w]" "ledger db' = (if op > 0 then ledger db @ [e] else ledger db)"
      and w: "lookupBy wallet_reference (wallet_reference w) (wallets db) = None"
        "wallet_id w = length (wallets db)" "balance w = op" "reserved_amount w = 0"
      and e: "op > 0 \<longrightarrow> entry_wallet_id e = wallet_id w \<and> signed_amount e = op \<and> entry_amount e = op
       \<and> entry_type e = CREDIT \<and> balance_after e = op \<and> balance_before e = 0
       \<and> entry_transaction_id e = opening_key (wallet_reference w)
       \<and> lookupBy entry_key (entry_key e) (ledger db) = None
       \<and> lookupBy entry_reference (entry_reference e) (ledger db) = None"
      by blast
    have "accounts_inv db'"
      by (rule opening_inv [OF inv op(1,3,4) w rows]) (use e in blast)
    moreover have "evolves own db db'"
      using rows e own by (auto simp: evolves_def)
    ultimately show ?thesis by blast
  qed
  then show "wp (createWallet request) (\<lambda>_ db'. accounts_inv db' \<and> evolves own db db')
      (\<lambda>_ db'. accounts_inv db' \<and> evolves own db db') db"
    by (simp add: wp_state run)
qed

lemma wp_validated: "wp (validated rules body) Q E db \<longleftrightarrow>
    (if faulty_fields rules body = [] then Q () db
     else E (Refused (ValidationFailedException (Some (FieldErrors (faulty_fields rules body))))) db)"
  by (simp add: validated_def wp_simps split: list.split)

lemma valid_movement_amount:
  assumes "faulty_fields BalanceOperation_rules body = []"
  shows "0 < request_amount (BalanceOperationRequest_of body)"
proof -
  have "isValidAmount (property_of ''amount'' body)"
    by (rule faulty_fields_none [OF assms]) (simp add: BalanceOperation_rules_def)
  then show ?thesis
    by (cases "property_of ''amount'' body") (simp_all add: BalanceOperationRequest_of_def AMOUNT_MIN_def)
qed

lemma keeps_applyMovement:
  assumes "legit own other" and "0 < request_amount request" and "type \<in> {CREDIT, DEBIT}"
    and "transaction_id request \<notin> own"
  shows "keeps own (applyMovement other r request type)"
proof (intro allI impI)
  fix db assume "accounts_inv db"
  from applyMovement_spec [OF this assms(1-3)]
  show "wp (applyMovement other r request type) (\<lambda>_ db'. accounts_inv db' \<and> evolves own db db')
      (\<lambda>_ db'. accounts_inv db' \<and> evolves own db db') db"
    by (rule wp_mono) (use assms(4) in auto)
qed

lemma keeps_post_movement:
  assumes "legit own other" and "type \<in> {CREDIT, DEBIT}"
    and "transaction_id (BalanceOperationRequest_of body) \<notin> own"
  shows "keeps own (post_movement config other type apiKey apiSecret path body)"
proof -
  have "keeps own (andThen (validated BalanceOperation_rules body) (\<lambda>_.
     (if type = CREDIT then credit other r (BalanceOperationRequest_of body)
      else debit other r (BalanceOperationRequest_of body))))" for r
  proof (cases "faulty_fields BalanceOperation_rules body = []")
    case True
    with assms valid_movement_amount [OF True] show ?thesis
      by (simp add: wp_andThen wp_validated credit_def debit_def keeps_applyMovement [rule_format])
  qed (simp add: wp_andThen wp_validated)
  then show ?thesis
    unfolding post_movement_def by (intro keeps_andThen [OF keeps_guard] keeps_andThen [OF keeps_pipe])
qed

lemma keeps_get_movement: "legit own other \<Longrightarrow> keeps own (get_movement config other apiKey apiSecret path k)"
  unfolding get_movement_def
  by (intro keeps_andThen keeps_guard keeps_pipe keeps_findMovement) (simp_all split: option.split)

lemma keeps_post_wallet:
  assumes "\<And>r. opening_key r \<notin> own"
  shows "keeps own (post_wallet body)"
proof (cases "faulty_fields CreateWallet_rules body = []")
  case True
  have "optional_rule opening_rule (property_of ''initial_balance'' body)"
    by (rule faulty_fields_none [OF True]) (simp add: CreateWallet_rules_def)
  then have "case initial_balance (CreateWalletRequest_of body) of None \<Rightarrow> True | Some b \<Rightarrow> 0 \<le> b \<and> b \<le> AMOUNT_MAX"
    by (auto simp: optional_rule_def CreateWalletRequest_of_def split: js_value.splits)
  with keeps_createWallet assms show ?thesis
    by (simp add: post_wallet_def wp_andThen wp_validated True)
qed (simp add: post_wallet_def wp_andThen wp_validated)

fun booking_key :: "accounts_call \<Rightarrow> string option" where
  "booking_key (PostCredit _ _ _ body) = Some (transaction_id (BalanceOperationRequest_of body))"
| "booking_key (PostDebit _ _ _ body) = Some (transaction_id (BalanceOperationRequest_of body))"
| "booking_key _ = None"

lemma keeps_serve:
  assumes "legit own other" and "\<And>k. booking_key call = Some k \<Longrightarrow> k \<notin> own" and "\<And>r. opening_key r \<notin> own"
  shows "keeps own (serve config other call)"
proof (cases call)
  case (PostUser request)
  then show ?thesis by (simp add: keeps_fmap keeps_createUser del: wp_andThen)
next
  case (GetUser path)
  show ?thesis unfolding GetUser serve.simps by (intro keeps_andThen keeps_pipe keeps_fmap keeps_findUser)
next
  case (PostWallet body)
  show ?thesis unfolding PostWallet serve.simps by (intro keeps_fmap keeps_post_wallet assms(3))
next
  case (GetBalance path)
  show ?thesis unfolding GetBalance serve.simps by (intro keeps_fmap keeps_get_balance)
next
  case (PostCredit k s path body)
  then have "transaction_id (BalanceOperationRequest_of body) \<notin> own" using assms(2) by simp
  then show ?thesis
    unfolding PostCredit serve.simps by (intro keeps_fmap keeps_post_movement assms(1)) simp_all
next
  case (PostDebit k s path body)
  then have "transaction_id (BalanceOperationRequest_of body) \<notin> own" using assms(2) by simp
  then show ?thesis
    unfolding PostDebit serve.simps by (intro keeps_fmap keeps_post_movement assms(1)) simp_all
next
  case (GetMovement k s path t)
  show ?thesis unfolding GetMovement serve.simps by (intro keeps_fmap keeps_get_movement assms(1))
qed

text \<open>
  The databases the service can be in: empty tables, then any calls, each interleaved with any
  traffic that respects the invariant; an operator may freeze and unfreeze a wallet, and time passes.
\<close>

definition empty_db :: "(nat \<Rightarrow> nat \<times> (nat \<Rightarrow> nat)) \<Rightarrow> nat \<Rightarrow> accounts_db" where
  "empty_db source t = \<lparr>users = [], wallets = [], ledger = [], refs = source, drawn = 0, now_ms = t\<rparr>"

definition set_status :: "string \<Rightarrow> WalletStatus \<Rightarrow> accounts_db \<Rightarrow> accounts_db" where
  "set_status r st db = db\<lparr>wallets := updateBy wallet_reference r (\<lambda>w. w\<lparr>wallet_status := st\<rparr>) (wallets db)\<rparr>"

inductive accounts_reachable :: "internal_credentials \<Rightarrow> accounts_db \<Rightarrow> bool" for config where
  boot: "accounts_reachable config (empty_db source t)"
| call: "accounts_reachable config db \<Longrightarrow> legit {} other \<Longrightarrow> serve config other c db = (answer, db')
    \<Longrightarrow> accounts_reachable config db'"
| operator: "accounts_reachable config db \<Longrightarrow> accounts_reachable config (set_status r st db)"
| time: "accounts_reachable config db \<Longrightarrow> accounts_reachable config (db\<lparr>now_ms := t\<rparr>)"

lemma list_all_updateBy:
  "list_all P (updateBy k x f rows) = list_all (\<lambda>r. P (if k r = x then f r else r)) rows"
  by (simp add: updateBy_def list.pred_map comp_def)

lemma wallet_ok_status: "wallet_ok es (if b then w\<lparr>wallet_status := st\<rparr> else w) = wallet_ok es w"
  by (simp add: wallet_ok_def)

lemma set_status_keeps:
  "accounts_inv db \<Longrightarrow> accounts_inv (set_status r st db) \<and> evolves own db (set_status r st db)"
  by (auto simp: accounts_inv_def set_status_def map_updateBy evolves_def wallet_identity_def
      list_all_updateBy wallet_ok_status)

lemma accounts_reachable_inv: "accounts_reachable config db \<Longrightarrow> accounts_inv db"
proof (induction rule: accounts_reachable.induct)
  case (boot source t)
  show ?case by (simp add: accounts_inv_def empty_db_def chained_def)
next
  case (call db other c answer db')
  then show ?case using keeps_serve [of "{}" other c config] by (auto simp: wp_def split: sum.splits)
next
  case (operator db r st)
  then show ?case using set_status_keeps by blast
next
  case (time db t)
  then show ?case by (simp add: accounts_inv_def)
qed

end
