(* ===== verification/Accounts_Properties.thy ===== *)
theory Accounts_Properties
  imports Accounts_Ledger
begin

text \<open>
  The properties of the accounts service, with the decision table \<open>movement_spec\<close> a movement
  implements and a small database on which they are instantiated.
\<close>

section \<open>What a movement is meant to do\<close>

text \<open>
  The decision table, free of transactions, retries and handlers: the wallet, then the replay of a
  known key, then the refusals, then one entry and the new balance.
\<close>

definition movement_spec :: "string \<Rightarrow> BalanceOperationRequest \<Rightarrow> TransactionType \<Rightarrow> BalanceOperationResponse accounts_prog" where
  "movement_spec r request type db =
     (case lookupBy wallet_reference r (wallets db) of
        None \<Rightarrow> refuse WalletNotFoundException (Details [(''reference'', String r)]) db
      | Some w \<Rightarrow> (case lookupBy entry_key (wallet_id w, transaction_id request) (ledger db) of
          Some e \<Rightarrow> replay e request type db
        | None \<Rightarrow>
            if wallet_status w = FROZEN then
              refuse WalletFrozenException (Operation (declined request (balance w) WALLET_FROZEN_DECLINE)) db
            else if wallet_currency w \<noteq> request_currency request then
              refuse CurrencyMismatchException (Operation (declined request (balance w) CURRENCY_MISMATCH_DECLINE)) db
            else if type \<noteq> CREDIT \<and> balance w - reserved_amount w < request_amount request then
              refuse InsufficientBalanceException (Operation (declined request (balance w) INSUFFICIENT_BALANCE_DECLINE)) db
            else (let delta = delta_of type (request_amount request);
                      source = refs db (drawn db);
                      e = \<lparr>entry_reference = generateReference TRANSACTION (fst source) (snd source),
                           entry_wallet_id = wallet_id w, entry_transaction_id = transaction_id request,
                           entry_type = type, entry_amount = request_amount request,
                           entry_currency = request_currency request,
                           balance_before = balance w, balance_after = balance w + delta,
                           entry_description = request_description request,
                           entry_payment_reference = payment_reference request,
                           entry_created_at = now_ms db\<rparr>
                  in (Inr (approved e),
                      db\<lparr>wallets := updateBy wallet_id (wallet_id w) (\<lambda>v. v\<lparr>balance := balance v + delta\<rparr>) (wallets db),
                         drawn := drawn db + 1, ledger := ledger db @ [e]\<rparr>))))"

text \<open>The databases whose balances a JavaScript number still holds exactly, after one more movement.\<close>

definition exact_balances :: "accounts_db \<Rightarrow> bool" where
  "exact_balances db \<longleftrightarrow> list_all (\<lambda>w. balance w \<le> 2 ^ 53 - AMOUNT_MAX) (wallets db)"

definition next_reference_free :: "accounts_db \<Rightarrow> bool" where
  "next_reference_free db \<longleftrightarrow>
     lookupBy entry_reference (generateReference TRANSACTION (fst (refs db (drawn db))) (snd (refs db (drawn db)))) (ledger db) = None"

lemma exact_wallet:
  assumes "accounts_inv db" and "exact_balances db" and "lookupBy wallet_reference r (wallets db) = Some w"
  shows "0 \<le> reserved_amount w" "reserved_amount w \<le> balance w" "balance w \<le> 2 ^ 53 - 1000000000000"
    "lookupBy wallet_id (wallet_id w) (wallets db) = Some w"
  using assms wallet_by_id [of "wallets db" w]
  by (auto simp: accounts_inv_def exact_balances_def AMOUNT_MAX_def list_all_iff wallet_ok_def dest!: lookupBy_Some)

lemma calm_step [simp]: "andThen (writes (calm k)) g = g ()"
  by (rule ext) (simp add: andThen_def writes_def calm_def)

lemma reads_step: "andThen (reads f) g s = g (f s) s"
  by (simp add: andThen_def reads_def)

lemma refused_move_re_reads:
  assumes "lookupBy wallet_id (wallet_id w) (wallets db) = Some w"
    and "lookupBy wallet_reference (wallet_reference w) (wallets db) = Some w"
    and "wallet_status w \<noteq> FROZEN" and "wallet_currency w = request_currency request"
    and "delta_of type (request_amount request) < 0"
    and "balance w - reserved_amount w < - delta_of type (request_amount request)"
  shows "applyInTransaction calm w request type db =
    refuse InsufficientBalanceException (Operation (declined request (read_balance w) INSUFFICIENT_BALANCE_DECLINE)) db"
  using assms
  by (simp add: applyInTransaction_def Let_def andThen_def move_def reads_def calm_def assertOperable_def
      ret_def)

lemma applied_move_books:
  assumes "lookupBy wallet_id (wallet_id w) (wallets db) = Some w"
    and "wallet_status w = ACTIVE" and "wallet_currency w = request_currency request"
    and "delta_of type (request_amount request) < 0 \<longrightarrow> balance w - reserved_amount w \<ge> - delta_of type (request_amount request)"
    and "lookupBy entry_key (wallet_id w, transaction_id request) (ledger db) = None"
    and "next_reference_free db"
    and "0 \<le> balance w" "balance w \<le> 2 ^ 53 - 1000000000000" "0 \<le> balance w + delta_of type (request_amount request)"
      "0 < request_amount request" "request_amount request \<le> 1000000000000"
    and e: "e = \<lparr>entry_reference = generateReference TRANSACTION (fst (refs db (drawn db))) (snd (refs db (drawn db))),
             entry_wallet_id = wallet_id w, entry_transaction_id = transaction_id request, entry_type = type,
             entry_amount = request_amount request, entry_currency = request_currency request,
             balance_before = balance w, balance_after = balance w + delta_of type (request_amount request),
             entry_description = request_description request,
             entry_payment_reference = payment_reference request, entry_created_at = now_ms db\<rparr>"
  shows "applyInTransaction other w request type db = (Inr (approved e),
    db\<lparr>wallets := updateBy wallet_id (wallet_id w) (\<lambda>v. v\<lparr>balance := balance v + delta_of type (request_amount request)\<rparr>) (wallets db),
       drawn := drawn db + 1, ledger := ledger db @ [e]\<rparr>)"
proof -
  let ?d = "delta_of type (request_amount request)"
  have d: "\<bar>?d\<bar> \<le> 1000000000000" using assms(10,11) by (simp add: delta_of_def)
  then have big: "bigint_ok (balance w + ?d)" "bigint_ok (balance w)" "bigint_ok (request_amount request)"
    and exact: "to_double (balance w + ?d) = balance w + ?d" "js_sub (balance w + ?d) ?d = balance w"
    using assms(7-11) by (auto simp: bigint_ok_def js_sub_def)
  obtain ms bytes where draw: "refs db (drawn db) = (ms, bytes)" by fastforce
  show ?thesis
    using assms(1-6) big exact
    by (simp add: applyInTransaction_def Let_def andThen_def move_def freshReference_def draw e entry_key_def
        append_entry_def ret_def next_reference_free_def)
qed

text \<open>The branches, for a wallet that exists and a key that moved nothing yet.\<close>

lemma fresh_key_run:
  assumes "lookupBy wallet_reference r (wallets db) = Some w"
    and "lookupBy entry_key (wallet_id w, transaction_id request) (ledger db) = None"
  shows "applyMovement calm r request type db =
    andThen (assertOperable w request) (\<lambda>_. tryCatch (transaction (applyInTransaction calm w request type)) (race_handler calm w request type)) db"
  using assms unfolding race_handler_def [abs_def]
  by (simp add: applyMovement_def WalletRepository_findByReference_def findByIdempotencyKey_def reads_step)

lemma inoperable_movement:
  assumes "lookupBy wallet_reference r (wallets db) = Some w"
    and "lookupBy entry_key (wallet_id w, transaction_id request) (ledger db) = None"
    and "read_balance w = balance w"
    and "wallet_status w = FROZEN \<or> wallet_currency w \<noteq> request_currency request"
  shows "applyMovement calm r request type db = movement_spec r request type db"
  using assms unfolding fresh_key_run [OF assms(1,2)]
  by (auto simp: movement_spec_def assertOperable_def andThen_def refuse_def throw_def)

lemma insufficient_movement:
  assumes "lookupBy wallet_reference r (wallets db) = Some w" and "lookupBy wallet_id (wallet_id w) (wallets db) = Some w"
    and "lookupBy entry_key (wallet_id w, transaction_id request) (ledger db) = None"
    and "read_balance w = balance w" and "0 < request_amount request"
    and "wallet_status w \<noteq> FROZEN" and "wallet_currency w = request_currency request"
    and "type \<noteq> CREDIT" and "balance w - reserved_amount w < request_amount request"
  shows "applyMovement calm r request type db = movement_spec r request type db"
proof -
  have "wallet_reference w = r" using lookupBy_Some [OF assms(1)] by simp
  then have "applyInTransaction calm w request type db =
      refuse InsufficientBalanceException (Operation (declined request (read_balance w) INSUFFICIENT_BALANCE_DECLINE)) db"
    using assms by (intro refused_move_re_reads) (auto simp: delta_of_def)
  then show ?thesis
    using assms unfolding fresh_key_run [OF assms(1,3)]
    by (simp add: movement_spec_def assertOperable_def andThen_def tryCatch_def transaction_def
        race_handler_def refuse_def throw_def ret_def)
qed

lemma booked_movement:
  assumes "accounts_inv db" and "exact_balances db" and "next_reference_free db"
    and "lookupBy wallet_reference r (wallets db) = Some w"
    and "lookupBy entry_key (wallet_id w, transaction_id request) (ledger db) = None"
    and "0 < request_amount request" and "request_amount request \<le> AMOUNT_MAX" and "type \<in> {CREDIT, DEBIT}"
    and "wallet_status w \<noteq> FROZEN" and "wallet_currency w = request_currency request"
    and "type = CREDIT \<or> request_amount request \<le> balance w - reserved_amount w"
  shows "applyMovement calm r request type db = movement_spec r request type db"
proof -
  let ?d = "delta_of type (request_amount request)"
  note w = exact_wallet [OF assms(1,2,4)]
  have active: "wallet_status w = ACTIVE" using assms(9) by (cases "wallet_status w") auto
  have rb: "read_balance w = balance w" using w by (simp add: read_balance_def)
  note booked = applied_move_books [OF w(4) active _ _ assms(5,3) _ w(3) _ _ _ refl, of type calm]
  have "balance w \<ge> 0" "?d < 0 \<longrightarrow> - ?d \<le> balance w - reserved_amount w" "0 \<le> balance w + ?d"
    using w assms(6,8,11) by (auto simp: delta_of_def)
  then show ?thesis
    using booked assms(3-11) rb unfolding fresh_key_run [OF assms(4,5)]
    by (auto simp: movement_spec_def assertOperable_def andThen_def tryCatch_def transaction_def
        ret_def AMOUNT_MAX_def Let_def)
qed

text \<open>
  Property C17. A movement served without interference does exactly what the decision table says, on
  every branch: unknown wallet, replayed key, key reused with another body, frozen wallet, other
  currency, insufficient funds, and the booking of one entry whose columns carry the exact balances.
\<close>

theorem movement_implements_spec:
  assumes "accounts_inv db" and "exact_balances db" and "next_reference_free db"
    and "0 < request_amount request" and "request_amount request \<le> AMOUNT_MAX" and "type \<in> {CREDIT, DEBIT}"
  shows "applyMovement calm r request type db = movement_spec r request type db"
proof (cases "lookupBy wallet_reference r (wallets db)")
  case None
  then show ?thesis
    by (simp add: applyMovement_def movement_spec_def WalletRepository_findByReference_def andThen_def reads_def)
next
  case wallet: (Some w)
  note w = exact_wallet [OF assms(1,2) wallet]
  have rb: "read_balance w = balance w" using w by (simp add: read_balance_def)
  show ?thesis
  proof (cases "lookupBy entry_key (wallet_id w, transaction_id request) (ledger db)")
    case (Some e)
    then show ?thesis
      using wallet by (simp add: applyMovement_def movement_spec_def WalletRepository_findByReference_def
          findByIdempotencyKey_def andThen_def reads_def writes_def calm_def)
  next
    case None
    consider "wallet_status w = FROZEN \<or> wallet_currency w \<noteq> request_currency request"
      | "wallet_status w \<noteq> FROZEN" "wallet_currency w = request_currency request" "type \<noteq> CREDIT"
        "balance w - reserved_amount w < request_amount request"
      | "wallet_status w \<noteq> FROZEN" "wallet_currency w = request_currency request"
        "type = CREDIT \<or> request_amount request \<le> balance w - reserved_amount w"
      by linarith
    then show ?thesis
      using inoperable_movement [OF wallet None rb] insufficient_movement [OF wallet w(4) None rb assms(4)]
        booked_movement [OF assms(1-3) wallet None assms(4-6)] by cases blast+
  qed
qed

section \<open>A small database\<close>

definition run_calls :: "internal_credentials \<Rightarrow> accounts_call list \<Rightarrow> accounts_db \<Rightarrow> accounts_db" where
  "run_calls config calls db = fold (\<lambda>c d. snd (serve config calm c d)) calls db"

lemma run_calls_reachable: "accounts_reachable config db \<Longrightarrow> accounts_reachable config (run_calls config calls db)"
proof (induction calls arbitrary: db)
  case (Cons c calls)
  have "accounts_reachable config (snd (serve config calm c db))"
    by (rule accounts_reachable.call [OF Cons.prems legit_calm, of c "fst (serve config calm c db)"]) simp
  from Cons.IH [OF this] show ?case by (simp add: run_calls_def)
qed (simp add: run_calls_def)

definition demo_credentials :: internal_credentials where
  "demo_credentials = \<lparr>expectedKey = utf8 ''demo-key'', expectedSecret = utf8 ''demo-secret''\<rparr>"

definition zeros :: "nat \<Rightarrow> string" where
  "zeros n = replicate n (CHR ''0'')"

definition demo_user :: string where "demo_user = ''usr_'' @ zeros 26"
definition demo_wallet :: string where "demo_wallet = ''wlt_'' @ zeros 9 @ ''1'' @ zeros 16"
definition demo_other_wallet :: string where "demo_other_wallet = ''wlt_'' @ zeros 9 @ ''3'' @ zeros 16"

definition wallet_body :: "int \<Rightarrow> json_object" where
  "wallet_body b = [(''user_reference'', String demo_user), (''currency'', String ''XOF''),
     (''initial_balance'', Number (num b))]"

definition demo_db :: accounts_db where
  "demo_db = run_calls demo_credentials
     [PostUser \<lparr>new_firstname = ''Awa'', new_lastname = ''Traore'', new_email = ''Awa@example.com'',
        new_phone_number = ''+2250700000000'', new_address = None, new_city = None, new_country = None,
        new_zip_code = None\<rparr>,
      PostWallet (wallet_body 1000), PostWallet (wallet_body 0)]
     (empty_db (\<lambda>n. (n, \<lambda>_. 0)) 0)"

definition demo_request :: BalanceOperationRequest where
  "demo_request = \<lparr>transaction_id = ''order-0001'', request_amount = 300, request_currency = ''XOF'',
     request_description = ''Invoice'', payment_reference = None\<rparr>"

lemma demo_reachable: "accounts_reachable demo_credentials demo_db"
  unfolding demo_db_def by (intro run_calls_reachable accounts_reachable.boot)

lemmas demo_inv = accounts_reachable_inv [OF demo_reachable]

lemma demo_wallets: "map (\<lambda>w. (wallet_reference w, balance w)) (wallets demo_db)
    = [(demo_wallet, 1000), (demo_other_wallet, 0)]"
  by code_simp

theorem movement_implements_spec_witness:
  "applyMovement calm demo_wallet demo_request DEBIT demo_db = movement_spec demo_wallet demo_request DEBIT demo_db
   \<and> map balance (wallets (snd (movement_spec demo_wallet demo_request DEBIT demo_db))) = [700, 0]"
proof -
  have "exact_balances demo_db" "next_reference_free demo_db"
    "map balance (wallets (snd (movement_spec demo_wallet demo_request DEBIT demo_db))) = [700, 0]"
    by code_simp+
  then show ?thesis
    using movement_implements_spec [OF demo_inv, of demo_request DEBIT demo_wallet]
    by (simp add: demo_request_def AMOUNT_MAX_def)
qed

section \<open>The books balance\<close>

text \<open>
  Property C18. In every database the service can reach, whatever the interleaving of its requests:
  a wallet's balance is the sum of the signed ledger movements booked on it, the funds available
  (balance minus reservations) are never negative, and no idempotency key has moved a wallet twice.
\<close>

theorem books_balance:
  assumes "accounts_reachable config db"
  shows "(\<forall>w \<in> set (wallets db). balance w = booked (wallet_id w) (ledger db)
            \<and> 0 \<le> balance w - reserved_amount w)
         \<and> distinct (map entry_key (ledger db))"
  using accounts_reachable_inv [OF assms]
  by (auto simp: accounts_inv_def list_all_iff wallet_ok_def)

theorem books_balance_witness:
  "list_all (\<lambda>w. balance w = booked (wallet_id w) (ledger demo_db) \<and> 0 \<le> balance w - reserved_amount w) (wallets demo_db)
   \<and> distinct (map entry_key (ledger demo_db)) \<and> length (wallets demo_db) = 2 \<and> length (ledger demo_db) = 1"
proof -
  have "length (wallets demo_db) = 2" "length (ledger demo_db) = 1" by code_simp+
  with books_balance [OF demo_reachable] show ?thesis unfolding list_all_iff by blast
qed

text \<open>
  The balance columns of the ledger chain: as long as the running sum of a wallet stays
  within the integers a JavaScript number represents, each entry's \<open>balance_after\<close> is the sum of
  the movements up to and including it, and its \<open>balance_before\<close> the sum before it.
\<close>

theorem ledger_columns_chain:
  assumes "accounts_reachable config db" and "ledger db = past @ e # later"
    and "\<bar>booked (entry_wallet_id e) past\<bar> \<le> 2 ^ 53" and "\<bar>booked (entry_wallet_id e) (past @ [e])\<bar> \<le> 2 ^ 53"
  shows "balance_before e = booked (entry_wallet_id e) past
       \<and> balance_after e = booked (entry_wallet_id e) (past @ [e])
       \<and> balance_after e = balance_before e + signed_amount e"
proof -
  have "chained (ledger db)"
    using accounts_reachable_inv [OF assms(1)] by (simp add: accounts_inv_def)
  then have "balance_after e = to_double (booked (entry_wallet_id e) (past @ [e]))"
    "balance_before e = js_sub (balance_after e) (signed_amount e)"
    unfolding chained_def assms(2) by (auto simp: nth_append dest: spec [of _ "length past"])
  then show ?thesis using assms(3,4) by (simp add: js_sub_def booked_snoc)
qed

theorem ledger_columns_chain_witness:
  "\<exists>e. ledger demo_db = [] @ e # [] \<and> balance_before e = 0 \<and> balance_after e = 1000
     \<and> balance_after e = booked (entry_wallet_id e) ([] @ [e])"
proof -
  have "map signed_amount (ledger demo_db) = [1000]" by code_simp
  then obtain e where e: "ledger demo_db = [] @ e # []" "signed_amount e = 1000" by auto
  have "booked (entry_wallet_id e) [] = 0" "booked (entry_wallet_id e) ([] @ [e]) = 1000"
    using e(2) by (simp_all add: booked_def)
  with e ledger_columns_chain [OF demo_reachable e(1)] show ?thesis by auto
qed

text \<open>
  A movement that was answered with success is final: repeating the same request later,
  after any further traffic and even once the wallet is frozen, returns the original response and
  books nothing.
\<close>

theorem replay_returns_the_original:
  assumes "accounts_inv db" and "legit {} other" and "0 < request_amount request" and "type \<in> {CREDIT, DEBIT}"
    and first: "applyMovement other r request type db = (Inr response, db1)"
    and later: "evolves {} db1 db2" "accounts_inv db2" and "legit {} other'"
  shows "applyMovement other' r request type db2 = (Inr response, other' 0 db2)"
proof -
  obtain w e where we: "lookupBy wallet_reference r (wallets db) = Some w"
    "lookupBy entry_key (wallet_id w, transaction_id request) (ledger db1) = Some e"
    "same_operation e request type" "response = approved e" "evolves {} db db1"
    using wp_returns [OF applyMovement_spec [OF assms(1-4)] first] by auto
  obtain w2 where w2: "lookupBy wallet_reference r (wallets db2) = Some w2" "wallet_identity w2 = wallet_identity w"
    using evolves_wallet [OF evolves_trans [OF we(5) later(1)] we(1)] by blast
  have "lookupBy entry_key (wallet_id w2, transaction_id request) (ledger (other' 0 db2)) = Some e"
    using evolves_entry [OF evolves_trans [OF later(1)] we(2)] legitD [OF assms(8) later(2)] w2(2)
    by (simp add: wallet_identity_def)
  then show ?thesis
    using w2(1) we(3,4)
    by (simp add: applyMovement_def WalletRepository_findByReference_def findByIdempotencyKey_def reads_step
        andThen_def writes_def reads_def replay_def same_operation_def ret_def)
qed

definition demo_after :: accounts_db where
  "demo_after = set_status demo_wallet FROZEN (snd (applyMovement calm demo_wallet demo_request DEBIT demo_db))"

theorem replay_returns_the_original_witness:
  "\<exists>response. applyMovement calm demo_wallet demo_request DEBIT demo_db
       = (Inr response, snd (applyMovement calm demo_wallet demo_request DEBIT demo_db))
     \<and> applyMovement calm demo_wallet demo_request DEBIT demo_after = (Inr response, demo_after)"
proof -
  let ?db1 = "snd (applyMovement calm demo_wallet demo_request DEBIT demo_db)"
  have "fst (applyMovement calm demo_wallet demo_request DEBIT demo_db) \<in> range Inr"
  proof -
    have "(case fst (applyMovement calm demo_wallet demo_request DEBIT demo_db) of Inl _ \<Rightarrow> False | Inr _ \<Rightarrow> True)"
      by code_simp
    then show ?thesis by (auto split: sum.splits)
  qed
  then obtain response where first: "applyMovement calm demo_wallet demo_request DEBIT demo_db = (Inr response, ?db1)"
    by (metis prod.collapse rangeE)
  have pos: "0 < request_amount demo_request" by (simp add: demo_request_def)
  have "accounts_inv ?db1"
    using wp_returns [OF applyMovement_spec [OF demo_inv legit_calm pos] first] by simp
  then have "accounts_inv demo_after" "evolves {} ?db1 demo_after"
    unfolding demo_after_def using set_status_keeps by blast+
  with first replay_returns_the_original [OF demo_inv legit_calm pos _ first _ _ legit_calm, where ?db2.0 = demo_after]
  show ?thesis by (simp add: calm_def)
qed

text \<open>
  What a movement writes under any interference. \<open>B\<close> bounds what the others book meanwhile, under the
  request's own key or any other; it is arbitrary, so whatever is outside it was booked by this call.
\<close>

definition books_only :: "LedgerEntry set \<Rightarrow> traffic \<Rightarrow> bool" where
  "books_only B other \<longleftrightarrow> (\<forall>k db. accounts_inv db \<longrightarrow> set (ledger (other k db)) \<subseteq> set (ledger db) \<union> B)"

lemma books_onlyD: "books_only B other \<Longrightarrow> accounts_inv db \<Longrightarrow> set (ledger (other k db)) \<subseteq> set (ledger db) \<union> B"
  by (simp add: books_only_def)

lemma applyMovement_books:
  assumes inv: "accounts_inv db" and legit: "legit {} other" and amt: "0 < request_amount request"
    and type: "type \<in> {CREDIT, DEBIT}" and others: "books_only B other"
  shows "wp (applyMovement other r request type)
     (\<lambda>resp db'. \<exists>w e. lookupBy wallet_reference r (wallets db) = Some w
        \<and> lookupBy entry_key (wallet_id w, transaction_id request) (ledger db') = Some e
        \<and> same_operation e request type \<and> resp = approved e \<and> set (ledger db') \<subseteq> set (ledger db) \<union> B \<union> {e})
     (\<lambda>_ db'. set (ledger db') \<subseteq> set (ledger db) \<union> B) db"
proof (cases "lookupBy wallet_reference r (wallets db)")
  case None
  then show ?thesis by (simp add: applyMovement_def WalletRepository_findByReference_def wp_simps)
next
  case (Some w)
  let ?k = "(wallet_id w, transaction_id request)"
  let ?old = "set (ledger db) \<union> B"
  define db0 where "db0 = other 0 db"
  define db1 where "db1 = other 1 db0"
  have 0: "accounts_inv db0" "evolves {} db db0" "set (ledger db0) \<subseteq> ?old"
    unfolding db0_def using legitD [OF legit inv] books_onlyD [OF others inv] by blast+
  have 1: "accounts_inv db1" "evolves {} db0 db1" "set (ledger db1) \<subseteq> ?old"
    unfolding db1_def using legitD [OF legit 0(1)] books_onlyD [OF others 0(1)] 0(3) by blast+
  obtain w1 where w1: "lookupBy wallet_reference r (wallets db1) = Some w1" "wallet_identity w1 = wallet_identity w"
    using evolves_wallet [OF evolves_trans [OF 0(2) 1(2)] Some] by blast
  then have w1m: "w1 \<in> set (wallets db1)" "wallet_id w = wallet_id w1"
    using lookupBy_Some by (fastforce simp: wallet_identity_def)+
  let ?Q = "\<lambda>resp db'. \<exists>e. lookupBy entry_key ?k (ledger db') = Some e \<and> same_operation e request type \<and> resp = approved e
      \<and> set (ledger db') \<subseteq> ?old \<union> {e}"
  let ?E = "\<lambda>(_ :: accounts_exn) db'. set (ledger db') \<subseteq> ?old"
  have handler: "wp (race_handler other w request type e) ?Q ?E db'" if "wallets db' = wallets db1" "ledger db' = ledger db1" for e db'
  proof -
    have "accounts_inv db'" using accounts_inv_tables [OF that] 1(1) by simp
    from books_onlyD [OF others this, of 3] that 1(3) show ?thesis
      by (auto simp: race_handler_def wp_simps findByIdempotencyKey_def wp_replay split: option.split)
  qed
  have run: "wp (tryCatch (transaction (applyInTransaction other w request type)) (race_handler other w request type)) ?Q ?E db1"
    unfolding wp_tryCatch wp_transaction
  proof (rule wp_mono [OF applyInTransaction_spec [OF 1(1) amt type w1m]], goal_cases)
    case (1 resp db')
    then show ?case using \<open>set (ledger db1) \<subseteq> ?old\<close> w1m(2) by (fastforce simp: lookupBy_append)
  next
    case (2 e db')
    then show ?case by (intro handler) simp_all
  qed
  have "wp (applyMovement other r request type) ?Q ?E db"
  proof (cases "lookupBy entry_key ?k (ledger db0)")
    case None
    then show ?thesis
      using run 0(3) applyMovement_fresh [OF Some, where Q = ?Q and E = ?E and other = other and request = request and type = type]
      unfolding db1_def db0_def by (simp add: wp_assertOperable)
  next
    case (Some e)
    with \<open>lookupBy wallet_reference r (wallets db) = Some w\<close> 0(3) show ?thesis
      by (auto simp: applyMovement_def WalletRepository_findByReference_def findByIdempotencyKey_def wp_simps wp_replay db0_def)
  qed
  then show ?thesis by (rule wp_mono) (use Some in auto)
qed

lemma only_entry:
  assumes "distinct (map entry_key es)" and "lookupBy entry_key k es = Some e"
  shows "filter (\<lambda>x. entry_key x = k) es = [e]"
  using assms by (induction es) (auto simp: filter_empty_conv image_iff split: if_splits)

text \<open>
  Property C19. A movement is all or nothing under any interference, concurrent requests under its own key
  included: every entry that was there stays, no key is ever used twice, and the entries added are those
  of the others and at most one of this call. A call that fails, for whatever reason including driver
  errors and lost races, has booked nothing itself; a call that succeeds answers the one entry under
  its key, of the requested type and amount, whoever booked it.
\<close>

theorem movement_is_all_or_nothing:
  assumes "accounts_inv db" and "legit {} other" and "books_only B other" and "0 < request_amount request"
    and "type \<in> {CREDIT, DEBIT}" and "applyMovement other r request type db = (result, db')"
  shows "\<exists>booked. ledger db' = ledger db @ booked \<and> distinct (map entry_key (ledger db')) \<and> (case result of
      Inl _ \<Rightarrow> set booked \<subseteq> B
    | Inr response \<Rightarrow> (\<exists>w e. lookupBy wallet_reference r (wallets db) = Some w
        \<and> filter (\<lambda>e. entry_key e = (wallet_id w, transaction_id request)) (ledger db') = [e]
        \<and> response = approved e \<and> entry_type e = type \<and> entry_amount e = request_amount request
        \<and> set booked \<subseteq> insert e B))"
proof -
  note books = applyMovement_books [OF assms(1,2,4,5,3)]
  have after: "accounts_inv db' \<and> evolves {} db db'"
  proof (cases result)
    case (Inl x)
    then show ?thesis using wp_throws [OF applyMovement_spec [OF assms(1,2,4,5)]] assms(6) by blast
  next
    case (Inr x)
    then show ?thesis using wp_returns [OF applyMovement_spec [OF assms(1,2,4,5)]] assms(6) by fastforce
  qed
  then obtain booked where booked: "ledger db' = ledger db @ booked" by (auto simp: evolves_def)
  have distinct: "distinct (map entry_key (ledger db'))" using after by (simp add: accounts_inv_def)
  then have new: "set (ledger db) \<inter> set booked = {}" unfolding booked by auto
  show ?thesis
  proof (cases result)
    case (Inl x)
    then have "set (ledger db') \<subseteq> set (ledger db) \<union> B" using wp_throws [OF books] assms(6) by blast
    then show ?thesis using booked distinct new Inl by (intro exI [of _ booked]) auto
  next
    case (Inr x)
    then obtain w e where e: "lookupBy wallet_reference r (wallets db) = Some w"
      "lookupBy entry_key (wallet_id w, transaction_id request) (ledger db') = Some e" "same_operation e request type" "x = approved e"
      "set (ledger db') \<subseteq> set (ledger db) \<union> B \<union> {e}"
      using wp_returns [OF books] assms(6) by blast
    then show ?thesis
      using booked distinct new Inr only_entry [OF distinct e(2)]
      by (intro exI [of _ booked] conjI) (auto simp: same_operation_def)
  qed
qed

theorem movement_is_all_or_nothing_witness:
  "\<exists>w e. lookupBy wallet_reference demo_wallet (wallets demo_db) = Some w
     \<and> filter (\<lambda>e. entry_key e = (wallet_id w, transaction_id demo_request))
         (ledger (snd (applyMovement calm demo_wallet demo_request DEBIT demo_db))) = [e]
     \<and> entry_amount e = 300"
proof -
  let ?run = "applyMovement calm demo_wallet demo_request DEBIT demo_db"
  have "map_option wallet_id (lookupBy wallet_reference demo_wallet (wallets demo_db)) = Some 0" by code_simp
  then obtain w where w: "lookupBy wallet_reference demo_wallet (wallets demo_db) = Some w" "wallet_id w = 0" by auto
  have "(case fst ?run of Inl _ \<Rightarrow> False | Inr _ \<Rightarrow> True)" by code_simp
  moreover have "0 < request_amount demo_request" "request_amount demo_request = 300" by (simp_all add: demo_request_def)
  moreover have "books_only {} calm" by (simp add: books_only_def calm_def)
  ultimately show ?thesis
    using movement_is_all_or_nothing [OF demo_inv legit_calm, where B = "{}" and r = demo_wallet and request = demo_request
        and type = DEBIT and result = "fst ?run" and db' = "snd ?run"] w
    by (auto split: sum.splits)
qed

section \<open>The internal API key\<close>

lemma char_of_two_bytes:
  assumes "of_char c div 64 = (of_char d div 64 :: nat)" and "of_char c mod 64 = (of_char d mod 64 :: nat)"
  shows "c = d"
  using assms by (metis char_of_char div_mult_mod_eq)

lemma utf8_inj: "utf8 s = utf8 t \<Longrightarrow> s = t"
proof (induction s arbitrary: t)
  case Nil
  then show ?case by (cases t) (auto simp: Let_def split: if_splits)
next
  case (Cons c cs)
  then obtain d ds where t: "t = d # ds"
    by (cases t) (auto simp: Let_def split: if_splits)
  from Cons.prems t have "c = d \<and> utf8 cs = utf8 ds"
    by (auto simp: Let_def char_of_two_bytes split: if_splits)
  with Cons.IH t show ?case by simp
qed

lemma matches_iff: "matches candidate (utf8 expected) \<longleftrightarrow> candidate = expected"
  by (auto simp: matches_def Let_def dest: utf8_inj)

text \<open>
  Property C39. The guard of the movement endpoints admits a request exactly when both headers equal
  the configured key and secret, for strings of any length; every other request is refused
  with status 401 before anything is read or written.
\<close>

theorem guard_admits_exactly:
  "post_movement \<lparr>expectedKey = utf8 key_text, expectedSecret = utf8 secret_text\<rparr> other type apiKey apiSecret path body db =
     (if header_text apiKey = key_text \<and> header_text apiSecret = secret_text
      then andThen (pipe_reference WALLET path) (\<lambda>r. andThen (validated BalanceOperation_rules body) (\<lambda>_.
        (if type = CREDIT then credit other r (BalanceOperationRequest_of body)
         else debit other r (BalanceOperationRequest_of body)))) db
      else (Inl (Refused UnauthorizedInternalCallException), db))
   \<and> fst (AllExceptionsFilter (thrown_of (Refused UnauthorizedInternalCallException))) = 401"
  by (simp add: post_movement_def canActivate_def matches_iff andThen_def throw_def ret_def thrown_of_def
      app_exception_defs)

end
