(* ===== verification/Ports.thy ===== *)
theory Ports
  imports Domain
begin

text \<open>
  \<open>domain/ports\<close>: what the application layer relies on. The accounts port is a record of operations
  on an unknown remote state; \<open>accounts_contract\<close> states, as a locale, the laws the handlers need
  from it. They are weak on purpose: a call may fail after having moved money, and a request given
  up may still be executed later (\<open>pending\<close>).
\<close>

section \<open>The accounts port\<close>

record MovementResult =
  transactionReference :: Reference
  balanceAfter :: int

record MovementDetails =
  details_description :: string
  details_payment :: Reference

record 'r AccountsPort =
  port_debit :: "Reference \<Rightarrow> Money \<Rightarrow> string \<Rightarrow> MovementDetails \<Rightarrow> ('r, exn, MovementResult) prog"
  port_credit :: "Reference \<Rightarrow> Money \<Rightarrow> string \<Rightarrow> MovementDetails \<Rightarrow> ('r, exn, MovementResult) prog"
  port_findMovement :: "Reference \<Rightarrow> string \<Rightarrow> ('r, exn, MovementResult option) prog"

text \<open>\<open>catch (error)\<close>: the death of the process is not an exception and runs no handler.\<close>

definition catching :: "('s, exn, 'a) prog \<Rightarrow> (exn \<Rightarrow> ('s, exn, 'a) prog) \<Rightarrow> ('s, exn, 'a) prog" where
  "catching m h = tryCatch m (\<lambda>e. if e = ProcessDied then throw ProcessDied else h e)"

lemma wp_catching [wp_simps]: "wp (catching m h) Q E s =
    wp m Q (\<lambda>e s'. if e = ProcessDied then E ProcessDied s' else wp (h e) Q E s') s"
proof -
  have "(\<lambda>e. wp (if e = ProcessDied then throw ProcessDied else h e) Q E)
      = (\<lambda>e s'. if e = ProcessDied then E ProcessDied s' else wp (h e) Q E s')"
    by (intro ext) (simp add: wp_simps)
  then show ?thesis by (simp add: catching_def wp_tryCatch)
qed

section \<open>Movements and requests in flight\<close>

text \<open>
  A movement on record: its reference, its direction and its amount. An issued request: wallet, key,
  direction, amount.
\<close>

type_synonym movement_fact = "string \<times> TransactionType \<times> int"
type_synonym issue = "string \<times> string \<times> TransactionType \<times> int"
type_synonym 'r movements = "'r \<Rightarrow> string \<Rightarrow> string \<Rightarrow> movement_fact option"

text \<open>
  \<open>steps moved pending own issued r r'\<close>: from \<open>r\<close> to \<open>r'\<close> no movement is lost, and under the keys
  \<open>own\<close> only requests that were pending, or are in \<open>issued\<close>, became movements or became pending.
\<close>

definition steps :: "'r movements \<Rightarrow> ('r \<Rightarrow> issue set) \<Rightarrow> string set \<Rightarrow> issue set \<Rightarrow> 'r \<Rightarrow> 'r \<Rightarrow> bool" where
  "steps moved pending own issued r r' \<longleftrightarrow>
     (\<forall>w k f. moved r w k = Some f \<longrightarrow> moved r' w k = Some f)
     \<and> (\<forall>w k ref t a. k \<in> own \<longrightarrow> moved r w k = None \<longrightarrow> moved r' w k = Some (ref, t, a)
          \<longrightarrow> (w, k, t, a) \<in> pending r \<union> issued)
     \<and> (\<forall>w k t a. k \<in> own \<longrightarrow> (w, k, t, a) \<in> pending r' \<longrightarrow> (w, k, t, a) \<in> pending r \<union> issued)"

lemma steps_keep: "steps moved pending own A r r' \<Longrightarrow> moved r w k = Some f \<Longrightarrow> moved r' w k = Some f"
  unfolding steps_def by blast

lemma steps_origin: "steps moved pending own A r r' \<Longrightarrow> k \<in> own \<Longrightarrow> moved r w k = None
    \<Longrightarrow> moved r' w k = Some (ref, t, a) \<Longrightarrow> (w, k, t, a) \<in> pending r \<union> A"
  unfolding steps_def by blast

lemma steps_pending: "steps moved pending own A r r' \<Longrightarrow> k \<in> own \<Longrightarrow> (w, k, t, a) \<in> pending r'
    \<Longrightarrow> (w, k, t, a) \<in> pending r \<union> A"
  unfolding steps_def by blast

lemma steps_refl: "steps moved pending own issued r r"
  unfolding steps_def by auto

lemma steps_trans:
  assumes "steps moved pending own A r r'" and "steps moved pending own B r' r''"
  shows "steps moved pending own (A \<union> B) r r''"
  unfolding steps_def
proof (intro conjI allI impI)
  fix w k f assume "moved r w k = Some f"
  then show "moved r'' w k = Some f" using assms steps_keep by metis
next
  fix w k ref t a assume own: "k \<in> own" and none: "moved r w k = None" and some: "moved r'' w k = Some (ref, t, a)"
  show "(w, k, t, a) \<in> pending r \<union> (A \<union> B)"
  proof (cases "moved r' w k")
    case None
    then have "(w, k, t, a) \<in> pending r' \<union> B" using steps_origin [OF assms(2) own _ some] by blast
    then show ?thesis using steps_pending [OF assms(1) own] by blast
  next
    case (Some f)
    then have "moved r' w k = Some (ref, t, a)" using steps_keep [OF assms(2) Some] some by simp
    then show ?thesis using steps_origin [OF assms(1) own none] by blast
  qed
next
  fix w k t a assume "k \<in> own" and "(w, k, t, a) \<in> pending r''"
  then show "(w, k, t, a) \<in> pending r \<union> (A \<union> B)"
    using steps_pending [OF assms(1)] steps_pending [OF assms(2)] by blast
qed

lemma steps_mono: "steps moved pending own A r r' \<Longrightarrow> A \<subseteq> B \<Longrightarrow> steps moved pending own B r r'"
  unfolding steps_def by blast

fun is_refusal :: "exn \<Rightarrow> bool" where
  "is_refusal (Domain (InsufficientBalanceError _)) = True"
| "is_refusal (Domain (WalletNotFoundError _)) = True"
| "is_refusal (Domain (WalletFrozenError _)) = True"
| "is_refusal (Domain (CurrencyMismatchError _)) = True"
| "is_refusal _ = False"

fun is_unavailable :: "exn \<Rightarrow> bool" where
  "is_unavailable (Domain (AccountsUnavailableError _ _)) = True"
| "is_unavailable _ = False"

section \<open>The contract\<close>

text \<open>
  \<open>debit\<close> and \<open>credit\<close>: success means the movement is on record under the reference returned; a
  refusal means this call issued nothing; an unavailable service, or the death of the process, may
  have issued the request. \<open>findMovement\<close> issues nothing; what it returns is on record, and when it
  returns null the movement was not on record when the call began.
\<close>

locale accounts_contract =
  fixes port :: "'r AccountsPort"
    and moved :: "'r movements"
    and pending :: "'r \<Rightarrow> issue set"
    and inv :: "'r \<Rightarrow> bool"
    and own :: "string set"
  assumes debit_law: "inv r \<Longrightarrow> wp (port_debit port w m k d)
      (\<lambda>res r'. inv r' \<and> steps moved pending own {(value w, k, DEBIT, amount m)} r r'
         \<and> wf_ref TRANSACTION (transactionReference res)
         \<and> moved r' (value w) k = Some (value (transactionReference res), DEBIT, amount m))
      (\<lambda>e r'. inv r' \<and> steps moved pending own {(value w, k, DEBIT, amount m)} r r'
         \<and> (is_refusal e \<longrightarrow> steps moved pending own {} r r')
         \<and> (is_refusal e \<or> is_unavailable e \<or> e = ProcessDied)) r"
    and credit_law: "inv r \<Longrightarrow> wp (port_credit port w m k d)
      (\<lambda>res r'. inv r' \<and> steps moved pending own {(value w, k, CREDIT, amount m)} r r'
         \<and> wf_ref TRANSACTION (transactionReference res)
         \<and> moved r' (value w) k = Some (value (transactionReference res), CREDIT, amount m))
      (\<lambda>e r'. inv r' \<and> steps moved pending own {(value w, k, CREDIT, amount m)} r r'
         \<and> (is_refusal e \<longrightarrow> steps moved pending own {} r r')
         \<and> (is_refusal e \<or> is_unavailable e \<or> e = ProcessDied)) r"
    and find_law: "inv r \<Longrightarrow> wp (port_findMovement port w k)
      (\<lambda>res r'. inv r' \<and> steps moved pending own {} r r'
         \<and> (case res of None \<Rightarrow> moved r (value w) k = None
             | Some m \<Rightarrow> wf_ref TRANSACTION (transactionReference m)
                 \<and> (\<exists>t a. moved r' (value w) k = Some (value (transactionReference m), t, a))))
      (\<lambda>e r'. inv r' \<and> steps moved pending own {} r r' \<and> (is_unavailable e \<or> e = ProcessDied)) r"

end
