(* ===== verification/Persistence.thy ===== *)
theory Persistence
  imports Payment Ports
begin

text \<open>
  The payments database and what runs on it: \<open>infrastructure/persistence\<close> (repositories, ORM mapper,
  transaction context, advisory-lock execution) and the two adapters that write the outbox.

  The world of a worker is its database, the remote accounts state, the payment object a handler
  holds with the revision the repository remembers for it, and the inputs of the environment: the
  outcome of each transaction and of each lock attempt, what other workers committed before it, and
  the readings of the clock.
\<close>

section \<open>Tables\<close>

record PaymentRow =
  row_reference :: string
  row_transaction_id :: string
  row_amount :: int
  row_currency :: Currency
  source_wallet_reference :: string
  destination_wallet_reference :: string
  row_description :: string
  row_status :: PaymentStatus
  failure_reason :: "FailureReason option"
  debit_transaction_reference :: "string option"
  credit_transaction_reference :: "string option"
  refund_transaction_reference :: "string option"
  row_metadata :: "metadata option"
  row_created_at :: nat
  row_updated_at :: nat
  completed_at :: "nat option"
  version :: nat
  reconciliation_attempts :: nat
  next_reconciliation_at :: nat
  last_reconciliation_error :: "string option"

datatype IdempotencyStatus = IN_PROGRESS | COMPLETED

record IdempotencyRow =
  key_text :: string
  request_hash :: string
  key_status :: IdempotencyStatus
  key_payment :: "string option"
  response_body :: "string option"

record OutboxRow =
  outbox_id :: nat
  aggregate_reference :: string
  outbox_event_type :: string
  outbox_payload :: json_object
  published_at :: "nat option"
  next_attempt_at :: nat
  attempts :: nat
  last_error :: "string option"
  outbox_created_at :: nat

record payments_db =
  payments :: "PaymentRow list"
  idempotency_keys :: "IdempotencyRow list"
  outbox :: "OutboxRow list"

section \<open>The world of a worker\<close>

datatype tx_fate = TxCommits | TxAborts | TxCommitsUnheard | TxDiesBefore | TxDiesAfter

record tx_event =
  tx_others :: "payments_db \<Rightarrow> payments_db"
  tx_fate :: tx_fate

datatype lock_event = LockGranted bool | LockBusy | NoConnection

record 'r world =
  db :: payments_db
  remote :: 'r
  held :: "Payment option"
  revision :: "nat option"
  active :: "string option"
  in_tx :: bool
  tx_script :: "nat \<Rightarrow> tx_event"
  txs :: nat
  lock_script :: "nat \<Rightarrow> lock_event"
  lock_calls :: nat
  read_script :: "nat \<Rightarrow> bool"
  db_reads :: nat
  clock :: "nat \<Rightarrow> nat"
  clock_reads :: nat
  draws :: "nat \<Rightarrow> nat \<Rightarrow> nat"
  generated :: nat
  correlation :: string

type_synonym ('r, 'a) work = "('r world, exn, 'a) prog"

definition new_Date :: "('r, nat) work" where
  "new_Date s = (Inr (clock s (clock_reads s)), s\<lparr>clock_reads := clock_reads s + 1\<rparr>)"

text \<open>A read of the database fails when the connection does; it changes nothing.\<close>

definition query :: "(payments_db \<Rightarrow> 'a) \<Rightarrow> ('r, 'a) work" where
  "query f s =
     (let s' = s\<lparr>db_reads := db_reads s + 1\<rparr>
      in if read_script s (db_reads s) then (Inr (f (db s)), s') else (Inl (Plain ''connection failure''), s'))"

definition update_db :: "(payments_db \<Rightarrow> payments_db) \<Rightarrow> ('r, unit) work" where
  "update_db f = writes (\<lambda>s. s\<lparr>db := f (db s)\<rparr>)"

definition on_remote :: "('r, exn, 'a) prog \<Rightarrow> ('r, 'a) work" where
  "on_remote m s = (case m (remote s) of (x, r) \<Rightarrow> (x, s\<lparr>remote := r\<rparr>))"

text \<open>
  A method call on the payment object in hand. Handlers call methods only after loading a payment.
\<close>

definition on_payment :: "(Payment, exn, 'a) prog \<Rightarrow> ('r, 'a) work" where
  "on_payment m s = (case held s of
     None \<Rightarrow> (Inl (Plain ''no payment''), s)
   | Some p \<Rightarrow> (case m p of (x, p') \<Rightarrow> (x, s\<lparr>held := Some p'\<rparr>)))"

definition the_payment :: "('r, Payment) work" where
  "the_payment s = (case held s of None \<Rightarrow> (Inl (Plain ''no payment''), s) | Some p \<Rightarrow> (Inr p, s))"

section \<open>Transactions and the lock\<close>

text \<open>
  \<open>TransactionContext.run\<close>: inside a transaction the work joins it. Otherwise the others' commits
  come first, an exception rolls the tables back, and the commit itself succeeds, fails, succeeds
  without the answer arriving, or the process dies before or after it.
\<close>

definition transaction_run :: "('r, 'a) work \<Rightarrow> ('r, 'a) work" where
  "transaction_run work s =
     (if in_tx s then work s
      else (let ev = tx_script s (txs s);
                start = s\<lparr>db := tx_others ev (db s), txs := txs s + 1, in_tx := True\<rparr>
            in case work start of
                 (Inl e, s') \<Rightarrow> (Inl e, s'\<lparr>db := db start, in_tx := False\<rparr>)
               | (Inr x, s') \<Rightarrow> (case tx_fate ev of
                     TxCommits \<Rightarrow> (Inr x, s'\<lparr>in_tx := False\<rparr>)
                   | TxAborts \<Rightarrow> (Inl (Plain ''commit failed''), s'\<lparr>db := db start, in_tx := False\<rparr>)
                   | TxCommitsUnheard \<Rightarrow> (Inl (Plain ''commit outcome unknown''), s'\<lparr>in_tx := False\<rparr>)
                   | TxDiesBefore \<Rightarrow> (Inl ProcessDied, s'\<lparr>db := db start, in_tx := False\<rparr>)
                   | TxDiesAfter \<Rightarrow> (Inl ProcessDied, s'\<lparr>in_tx := False\<rparr>))))"

text \<open>
  \<open>PostgresPaymentExecution.run\<close>: work already running under the lock of the same payment joins it.
  A failing unlock in the \<open>finally\<close> block replaces the outcome of the work by its own error.
\<close>

definition execution_run :: "string \<Rightarrow> ('r, 'a) work \<Rightarrow> ('r, 'a) work" where
  "execution_run ref work s =
     (if active s = Some ref then work s
      else (let s1 = s\<lparr>lock_calls := lock_calls s + 1\<rparr> in
            case lock_script s (lock_calls s) of
              NoConnection \<Rightarrow> (Inl (Plain ''connection failure''), s1)
            | LockBusy \<Rightarrow> (Inl (Domain (ConcurrentPaymentError ref)), s1)
            | LockGranted unlocks \<Rightarrow>
                (case work (s1\<lparr>active := Some ref\<rparr>) of (x, s2) \<Rightarrow>
                   (if x = Inl ProcessDied then Inl ProcessDied
                    else if unlocks then x else Inl (Plain ''unlock failed''), s2\<lparr>active := active s\<rparr>))))"

section \<open>The ORM mapper and the payment repository\<close>

definition snapshot_of_row :: "PaymentRow \<Rightarrow> PaymentSnapshot" where
  "snapshot_of_row row =
     \<lparr>sn_reference = row_reference row, sn_transactionId = row_transaction_id row,
      sn_amount = bigintTransformer_from (Some (row_amount row)), sn_currency = row_currency row,
      sn_sourceWallet = source_wallet_reference row, sn_destinationWallet = destination_wallet_reference row,
      sn_description = row_description row, sn_status = row_status row, sn_failureReason = failure_reason row,
      sn_debitTransactionReference = debit_transaction_reference row,
      sn_creditTransactionReference = credit_transaction_reference row,
      sn_refundTransactionReference = refund_transaction_reference row, sn_metadata = row_metadata row,
      sn_createdAt = row_created_at row, sn_updatedAt = row_updated_at row, sn_completedAt = completed_at row\<rparr>"

definition toDomain :: "PaymentRow \<Rightarrow> exn + Payment" where
  "toDomain row = restore (snapshot_of_row row)"

text \<open>\<open>toPersistence\<close> as the change it makes to a row: the columns it lists, and no others.\<close>

definition toPersistence :: "Payment \<Rightarrow> PaymentRow \<Rightarrow> PaymentRow" where
  "toPersistence p row = (let snapshot = toSnapshot p in
     row\<lparr>row_reference := sn_reference snapshot, row_transaction_id := sn_transactionId snapshot,
         row_amount := sn_amount snapshot, row_currency := sn_currency snapshot,
         source_wallet_reference := sn_sourceWallet snapshot,
         destination_wallet_reference := sn_destinationWallet snapshot,
         row_description := sn_description snapshot, row_status := sn_status snapshot,
         failure_reason := sn_failureReason snapshot,
         debit_transaction_reference := sn_debitTransactionReference snapshot,
         credit_transaction_reference := sn_creditTransactionReference snapshot,
         refund_transaction_reference := sn_refundTransactionReference snapshot,
         row_metadata := sn_metadata snapshot, completed_at := sn_completedAt snapshot\<rparr>)"

text \<open>The defaults of the columns an insert leaves out.\<close>

definition default_row :: "nat \<Rightarrow> PaymentRow" where
  "default_row now =
     \<lparr>row_reference = [], row_transaction_id = [], row_amount = 0, row_currency = XOF,
      source_wallet_reference = [], destination_wallet_reference = [], row_description = [],
      row_status = Pending, failure_reason = None, debit_transaction_reference = None,
      credit_transaction_reference = None, refund_transaction_reference = None, row_metadata = None,
      row_created_at = now, row_updated_at = now, completed_at = None, version = 1,
      reconciliation_attempts = 0, next_reconciliation_at = now, last_reconciliation_error = None\<rparr>"

definition save :: "('r, unit) work" where
  "save =
     andThen the_payment (\<lambda>p.
     andThen (reads revision) (\<lambda>known. case known of
       None \<Rightarrow>
         andThen new_Date (\<lambda>now.
         andThen (query (\<lambda>d. lookupBy row_reference (value (reference p)) (payments d) \<noteq> None
                          \<or> lookupBy row_transaction_id (transactionId p) (payments d) \<noteq> None)) (\<lambda>conflict.
         if conflict then throw (Domain (ConcurrentPaymentError (value (reference p))))
         else andThen (update_db (\<lambda>d. d\<lparr>payments := payments d @ [toPersistence p (default_row now)]\<rparr>)) (\<lambda>_.
              writes (\<lambda>s. s\<lparr>revision := Some 1\<rparr>))))
     | Some v \<Rightarrow>
         andThen new_Date (\<lambda>now.
         andThen (query (\<lambda>d. map_option version (lookupBy row_reference (value (reference p)) (payments d)) = Some v)) (\<lambda>matches.
         if \<not> matches then throw (Domain (ConcurrentPaymentError (value (reference p))))
         else andThen (update_db (\<lambda>d. d\<lparr>payments := updateBy row_reference (value (reference p))
                (\<lambda>row. (toPersistence p row)\<lparr>row_transaction_id := row_transaction_id row, version := version row + 1,
                         row_updated_at := now\<rparr>) (payments d)\<rparr>)) (\<lambda>_.
              writes (\<lambda>s. s\<lparr>revision := Some (v + 1)\<rparr>))))))"

definition hydrate :: "PaymentRow \<Rightarrow> ('r, Payment) work" where
  "hydrate row =
     andThen (raiseInl (toDomain row)) (\<lambda>p.
     andThen (writes (\<lambda>s. s\<lparr>held := Some p, revision := Some (version row)\<rparr>)) (\<lambda>_. ret p))"

definition findByReference :: "Reference \<Rightarrow> ('r, Payment option) work" where
  "findByReference r =
     andThen (query (\<lambda>d. lookupBy row_reference (value r) (payments d))) (\<lambda>row. case row of
       None \<Rightarrow> ret None
     | Some x \<Rightarrow> andThen (hydrate x) (\<lambda>p. ret (Some p)))"

definition findByTransactionId :: "string \<Rightarrow> ('r, Payment option) work" where
  "findByTransactionId t =
     andThen (query (\<lambda>d. lookupBy row_transaction_id t (payments d))) (\<lambda>row. case row of
       None \<Rightarrow> ret None
     | Some x \<Rightarrow> andThen (hydrate x) (\<lambda>p. ret (Some p)))"

text \<open>\<open>now() + least(3600, 60 * power(2, least(attempts, 6)))\<close> seconds, in milliseconds.\<close>

definition recovery_delay :: "nat \<Rightarrow> nat" where
  "recovery_delay n = min 3600 (60 * 2 ^ min n 6) * 1000"

definition recordRecoveryAttempt :: "Reference \<Rightarrow> string option \<Rightarrow> ('r, nat) work" where
  "recordRecoveryAttempt r error =
     transaction_run (
       andThen new_Date (\<lambda>now.
       andThen (update_db (\<lambda>d. d\<lparr>payments := updateBy row_reference (value r)
         (\<lambda>row. row\<lparr>reconciliation_attempts := reconciliation_attempts row + 1,
                    last_reconciliation_error := map_option (take 2000) error,
                    next_reconciliation_at := now + recovery_delay (reconciliation_attempts row)\<rparr>) (payments d)\<rparr>)) (\<lambda>_.
       query (\<lambda>d. case lookupBy row_reference (value r) (payments d) of
          None \<Rightarrow> 0 | Some row \<Rightarrow> reconciliation_attempts row))))"

fun those_payments :: "(exn + Payment) list \<Rightarrow> exn + Payment list" where
  "those_payments [] = Inr []"
| "those_payments (x # xs) = bindE x (\<lambda>p. bindE (those_payments xs) (\<lambda>ps. Inr (p # ps)))"

definition findStuck :: "PaymentStatus list \<Rightarrow> nat \<Rightarrow> nat \<Rightarrow> ('r, Payment list) work" where
  "findStuck statuses olderThan limit =
     andThen new_Date (\<lambda>now.
     andThen (query (\<lambda>d. take limit
        (sort_key (\<lambda>row. next_reconciliation_at row) (sort_key (\<lambda>row. row_updated_at row)
          (filter (\<lambda>row. row_status row \<in> set statuses \<and> row_updated_at row < olderThan
                        \<and> next_reconciliation_at row \<le> now) (payments d)))))) (\<lambda>rows.
     raiseInl (those_payments (map toDomain rows))))"

section \<open>Idempotency keys\<close>

definition claim :: "string \<Rightarrow> string \<Rightarrow> ('r, bool) work" where
  "claim k hash =
     andThen (query (\<lambda>d. lookupBy key_text k (idempotency_keys d) \<noteq> None)) (\<lambda>taken.
     if taken then ret False
     else andThen (update_db (\<lambda>d. d\<lparr>idempotency_keys := idempotency_keys d @
            [\<lparr>key_text = k, request_hash = hash, key_status = IN_PROGRESS, key_payment = None,
              response_body = None\<rparr>]\<rparr>)) (\<lambda>_. ret True))"

definition find_key :: "string \<Rightarrow> ('r, IdempotencyRow option) work" where
  "find_key k = query (\<lambda>d. lookupBy key_text k (idempotency_keys d))"

definition complete :: "string \<Rightarrow> string \<Rightarrow> string \<Rightarrow> ('r, unit) work" where
  "complete k paymentReference body =
     update_db (\<lambda>d. d\<lparr>idempotency_keys := updateBy key_text k
       (\<lambda>row. row\<lparr>key_status := COMPLETED, key_payment := Some paymentReference, response_body := Some body\<rparr>)
       (idempotency_keys d)\<rparr>)"

section \<open>The outbox\<close>

record OutboxMessage =
  msg_aggregateReference :: string
  msg_eventType :: string
  msg_payload :: json_object

definition outbox_row :: "nat \<Rightarrow> nat \<Rightarrow> OutboxMessage \<Rightarrow> OutboxRow" where
  "outbox_row ident now m =
     \<lparr>outbox_id = ident, aggregate_reference = msg_aggregateReference m, outbox_event_type = msg_eventType m,
      outbox_payload = msg_payload m, published_at = None, next_attempt_at = now, attempts = 0,
      last_error = None, outbox_created_at = now\<rparr>"

definition enqueue :: "OutboxMessage list \<Rightarrow> ('r, unit) work" where
  "enqueue messages =
     (if messages = [] then ret ()
      else andThen new_Date (\<lambda>now.
           update_db (\<lambda>d. d\<lparr>outbox := outbox d @
             map (\<lambda>(i, m). outbox_row (length (outbox d) + i) now m) (enumerate 0 messages)\<rparr>)))"

text \<open>\<open>PaymentEvents.enqueue\<close>\<close>

definition event_message :: "DomainEvent \<Rightarrow> OutboxMessage" where
  "event_message e =
     \<lparr>msg_aggregateReference = aggregateReference e, msg_eventType = event_type e,
      msg_payload = event_payload e @ [(''occurred_at'', Iso (occurredAt e))]\<rparr>"

definition enqueue_events :: "DomainEvent list \<Rightarrow> ('r, unit) work" where
  "enqueue_events es = enqueue (map event_message es)"

text \<open>\<open>TransactionsOutboxAdapter.record\<close>\<close>

record LedgerMovement =
  lm_transactionId :: string
  lm_paymentReference :: Reference
  lm_type :: string
  lm_wallet :: Reference
  lm_movementReference :: "Reference option"
  lm_occurredAt :: nat

definition UNKNOWN_USER :: string where
  "UNKNOWN_USER = ''usr_00000000000000000000000000''"

definition user_reference_of :: "Payment \<Rightarrow> js_value" where
  "user_reference_of p = (case metadata p of
     None \<Rightarrow> String UNKNOWN_USER
   | Some m \<Rightarrow> (case property_of ''user_reference'' m of
        Undefined \<Rightarrow> String UNKNOWN_USER | Null \<Rightarrow> String UNKNOWN_USER | v \<Rightarrow> v))"

definition movement_message :: "Payment \<Rightarrow> string \<Rightarrow> nat \<Rightarrow> LedgerMovement \<Rightarrow> OutboxMessage" where
  "movement_message p correlationId now m =
     \<lparr>msg_aggregateReference = value (reference p), msg_eventType = ''payment.transaction.recorded'',
      msg_payload =
        [(''transaction_id'', String (lm_transactionId m)),
         (''payment_reference'', String (value (lm_paymentReference m))),
         (''type'', String (lm_type m)),
         (''wallet_reference'', String (value (lm_wallet m))),
         (''user_reference'', user_reference_of p),
         (''amount'', Number (num (amount (money p)))),
         (''currency'', String (currency_text (currency (money p)))),
         (''description'', String (description p)),
         (''status'', String ''Approved''),
         (''occurred_at'', Iso (lm_occurredAt m)),
         (''correlation_id'', String correlationId),
         (''emitted_at'', Iso now)]\<rparr>"

definition record_movements :: "LedgerMovement list \<Rightarrow> ('r, unit) work" where
  "record_movements movements =
     andThen the_payment (\<lambda>p.
     andThen (reads correlation) (\<lambda>correlationId.
     andThen new_Date (\<lambda>now.
     enqueue (map (movement_message p correlationId now) movements))))"

end
