(* ===== verification/Handlers.thy ===== *)
theory Handlers
  imports Persistence
begin

text \<open>
  The application layer: the three command handlers of the saga, the saga itself, the idempotency
  service, the initiation of a payment and the reconciliation job. Each method is one definition
  that follows the statements of its source; the accounts port is an argument.
\<close>

section \<open>Debiting the source\<close>

definition movement_details :: "Payment \<Rightarrow> string \<Rightarrow> MovementDetails" where
  "movement_details p text = \<lparr>details_description = text, details_payment = reference p\<rparr>"

definition debit_executeLocked :: "'r AccountsPort \<Rightarrow> string \<Rightarrow> ('r, string) work" where
  "debit_executeLocked port paymentReference =
     andThen (raiseInl (Reference_of PAYMENT paymentReference)) (\<lambda>r.
     andThen (findByReference r) (\<lambda>found. case found of
       None \<Rightarrow> throw (Domain (PaymentNotFoundError paymentReference))
     | Some p \<Rightarrow>
         if status p \<noteq> Pending then throw (Domain (InvalidTransitionError (status p) Processing))
         else
           andThen new_Date (\<lambda>now.
           andThen (on_payment (markProcessing now)) (\<lambda>_.
           andThen (transaction_run save) (\<lambda>_.
           catching
             (andThen (on_remote (port_debit port (source p) (money p) (movementKey p debit_leg)
                        (movement_details p (description p)))) (\<lambda>movement.
              andThen new_Date (\<lambda>now.
              andThen (on_payment (markDebited (transactionReference movement) now)) (\<lambda>_.
              andThen (transaction_run save) (\<lambda>_.
              ret (value (transactionReference movement)))))))
             (\<lambda>error. (case error of
                Domain e \<Rightarrow>
                  (case e of
                     AccountsUnavailableError _ _ \<Rightarrow> throw error
                   | _ \<Rightarrow>
                       andThen new_Date (\<lambda>now.
                       andThen (on_payment (decline (failureReasonOf e) now)) (\<lambda>_.
                       andThen (transaction_run (andThen save (\<lambda>_.
                          andThen (on_payment pullEvents) enqueue_events))) (\<lambda>_.
                       throw error))))
              | _ \<Rightarrow> throw error)))))))"

definition debit_execute :: "'r AccountsPort \<Rightarrow> string \<Rightarrow> ('r, string) work" where
  "debit_execute port paymentReference =
     execution_run paymentReference (debit_executeLocked port paymentReference)"

section \<open>Crediting the destination\<close>

definition settled_movements :: "Payment \<Rightarrow> Reference \<Rightarrow> nat \<Rightarrow> LedgerMovement list" where
  "settled_movements p creditReference time =
     [\<lparr>lm_transactionId = movementKey p debit_leg, lm_paymentReference = reference p, lm_type = ''DEBIT'',
       lm_wallet = source p, lm_movementReference = debitTransactionReference p, lm_occurredAt = time\<rparr>,
      \<lparr>lm_transactionId = movementKey p credit_leg, lm_paymentReference = reference p, lm_type = ''CREDIT'',
       lm_wallet = destination p, lm_movementReference = Some creditReference, lm_occurredAt = time\<rparr>]"

text \<open>\<open>payment.completedAt ?? new Date()\<close>\<close>

definition completion_time :: "Payment \<Rightarrow> ('r, nat) work" where
  "completion_time p = (case completedAt p of Some t \<Rightarrow> ret t | None \<Rightarrow> new_Date)"

definition settle :: "Reference \<Rightarrow> ('r, unit) work" where
  "settle creditReference =
     andThen new_Date (\<lambda>now.
     andThen (on_payment (approve creditReference now)) (\<lambda>_.
     transaction_run (
       andThen save (\<lambda>_.
       andThen the_payment (\<lambda>p.
       andThen (completion_time p) (\<lambda>t.
       andThen (record_movements (settled_movements p creditReference t)) (\<lambda>_.
       andThen (on_payment pullEvents) enqueue_events)))))))"

fun explicit_refusal :: "exn \<Rightarrow> bool" where
  "explicit_refusal (Domain (WalletFrozenError _)) = True"
| "explicit_refusal (Domain (WalletNotFoundError _)) = True"
| "explicit_refusal (Domain (CurrencyMismatchError _)) = True"
| "explicit_refusal (Domain (InsufficientBalanceError _)) = True"
| "explicit_refusal _ = False"

definition credit_executeLocked :: "'r AccountsPort \<Rightarrow> string \<Rightarrow> ('r, string) work" where
  "credit_executeLocked port paymentReference =
     andThen (raiseInl (Reference_of PAYMENT paymentReference)) (\<lambda>r.
     andThen (findByReference r) (\<lambda>found. case found of
       None \<Rightarrow> throw (Domain (PaymentNotFoundError paymentReference))
     | Some p \<Rightarrow>
         if status p = Approved
         then (case creditTransactionReference p of
                 None \<Rightarrow> throw (Plain ''TypeError'')
               | Some c \<Rightarrow> ret (value c))
         else if status p \<noteq> Processing \<or> debitTransactionReference p = None
         then throw (Domain (InvalidTransitionError (status p) Approved))
         else
           andThen (catching
             (on_remote (port_credit port (destination p) (money p) (movementKey p credit_leg)
                (movement_details p (description p))))
             (\<lambda>error.
                if explicit_refusal error
                then andThen new_Date (\<lambda>now.
                     andThen (on_payment (markCompensationPending CREDIT_FAILED_REASON now)) (\<lambda>_.
                     andThen (transaction_run save) (\<lambda>_. throw error)))
                else throw error)) (\<lambda>movement.
           andThen (settle (transactionReference movement)) (\<lambda>_.
           ret (value (transactionReference movement))))))"

definition credit_execute :: "'r AccountsPort \<Rightarrow> string \<Rightarrow> ('r, string) work" where
  "credit_execute port paymentReference =
     execution_run paymentReference (credit_executeLocked port paymentReference)"

section \<open>Recovering and refunding\<close>

definition reconcileCredit :: "'r AccountsPort \<Rightarrow> Payment \<Rightarrow> ('r, unit) work" where
  "reconcileCredit port p =
     andThen (catching
       (andThen (on_remote (port_findMovement port (destination p) (movementKey p credit_leg))) (\<lambda>found. ret found))
       (\<lambda>error. ret None)) (\<lambda>found. case found of
         None \<Rightarrow> ret ()
       | Some movement \<Rightarrow> settle (transactionReference movement))"

definition confirmDebit :: "'r AccountsPort \<Rightarrow> Payment \<Rightarrow> ('r, bool) work" where
  "confirmDebit port p =
     andThen (catching
       (andThen (on_remote (port_findMovement port (source p) (movementKey p debit_leg))) (\<lambda>found. ret (Some found)))
       (\<lambda>error. ret None)) (\<lambda>looked. case looked of
         None \<Rightarrow> ret False
       | Some (Some movement) \<Rightarrow>
           andThen (if status p = Processing
                    then andThen new_Date (\<lambda>now.
                         andThen (on_payment (markDebited (transactionReference movement) now)) (\<lambda>_.
                         transaction_run save))
                    else ret ()) (\<lambda>_. ret True)
       | Some None \<Rightarrow>
           andThen new_Date (\<lambda>now.
           andThen (on_payment (decline ACCOUNTS_UNAVAILABLE_REASON now)) (\<lambda>_.
           andThen (transaction_run (andThen save (\<lambda>_. andThen (on_payment pullEvents) enqueue_events))) (\<lambda>_.
           ret False))))"

definition refund_movement :: "Payment \<Rightarrow> Reference \<Rightarrow> nat \<Rightarrow> LedgerMovement" where
  "refund_movement p refundReference time =
     \<lparr>lm_transactionId = movementKey p refund_leg, lm_paymentReference = reference p, lm_type = ''REFUND'',
      lm_wallet = source p, lm_movementReference = Some refundReference, lm_occurredAt = time\<rparr>"

definition refund :: "'r AccountsPort \<Rightarrow> ('r, string option) work" where
  "refund port =
     andThen the_payment (\<lambda>p.
     andThen (catching
       (andThen (on_remote (port_credit port (source p) (money p) (movementKey p refund_leg)
                   (movement_details p ''Refund of a failed payment''))) (\<lambda>m. ret (Some m)))
       (\<lambda>error. ret None)) (\<lambda>answer. case answer of
         None \<Rightarrow> ret None
       | Some movement \<Rightarrow>
           andThen new_Date (\<lambda>now.
           andThen (on_payment (compensate (transactionReference movement) now)) (\<lambda>_.
           andThen (transaction_run (
             andThen save (\<lambda>_.
             andThen the_payment (\<lambda>q.
             andThen (completion_time q) (\<lambda>t.
             andThen (record_movements [refund_movement q (transactionReference movement) t]) (\<lambda>_.
             andThen (on_payment pullEvents) enqueue_events)))))) (\<lambda>_.
           ret (Some (value (transactionReference movement))))))))"

definition compensate_executeLocked :: "'r AccountsPort \<Rightarrow> string \<Rightarrow> ('r, string option) work" where
  "compensate_executeLocked port paymentReference =
     andThen (raiseInl (Reference_of PAYMENT paymentReference)) (\<lambda>r.
     andThen (findByReference r) (\<lambda>found. case found of
       None \<Rightarrow> throw (Domain (PaymentNotFoundError paymentReference))
     | Some p \<Rightarrow>
         if status p = Compensated then ret (map_option value (refundTransactionReference p))
         else if status p \<noteq> Processing \<and> status p \<noteq> CompensationPending
         then throw (Domain (InvalidTransitionError (status p) Compensated))
         else
           (let debitWasRecorded = debitTransactionReference p \<noteq> None in
            andThen (if debitWasRecorded then ret True else confirmDebit port p) (\<lambda>debited.
            if \<not> debited then ret None
            else if status p = Processing \<and> debitWasRecorded
            then andThen (reconcileCredit port p) (\<lambda>_. ret None)
            else
              andThen (if status p = Processing
                       then andThen new_Date (\<lambda>now.
                            andThen (on_payment (markCompensationPending CREDIT_FAILED_REASON now)) (\<lambda>_.
                            transaction_run save))
                       else ret ()) (\<lambda>_.
              refund port)))))"

definition compensate_execute :: "'r AccountsPort \<Rightarrow> string \<Rightarrow> ('r, string option) work" where
  "compensate_execute port paymentReference =
     execution_run paymentReference (compensate_executeLocked port paymentReference)"

section \<open>The saga\<close>

definition saga_runLocked :: "'r AccountsPort \<Rightarrow> string \<Rightarrow> ('r, unit) work" where
  "saga_runLocked port ref =
     andThen (catching (andThen (debit_execute port ref) (\<lambda>_. ret True))
        (\<lambda>error. if isDomainError error then ret False else throw error)) (\<lambda>debited.
     if \<not> debited then ret ()
     else catching (andThen (credit_execute port ref) (\<lambda>_. ret ()))
        (\<lambda>error. andThen (compensate_execute port ref) (\<lambda>_. ret ())))"

definition saga_run :: "'r AccountsPort \<Rightarrow> Reference \<Rightarrow> ('r, unit) work" where
  "saga_run port r = execution_run (value r) (saga_runLocked port (value r))"

section \<open>The reconciliation job\<close>

definition STUCK_AFTER_MS :: nat where "STUCK_AFTER_MS = 5 * 60 * 1000"
definition BATCH_SIZE :: nat where "BATCH_SIZE = 20"

definition recover :: "'r AccountsPort \<Rightarrow> Reference \<Rightarrow> ('r, unit) work" where
  "recover port r =
     execution_run (value r) (
       andThen (findByReference r) (\<lambda>found. case found of
         None \<Rightarrow> ret ()
       | Some p \<Rightarrow>
           if status p \<in> set TERMINAL_STATUSES then ret ()
           else
             andThen (catching
               (andThen (if status p = Pending then saga_run port r
                         else andThen (compensate_execute port (value r)) (\<lambda>_. ret ())) (\<lambda>_.
                andThen (findByReference r) (\<lambda>current.
                ret (case current of
                   None \<Rightarrow> None
                 | Some q \<Rightarrow> if status q \<notin> set TERMINAL_STATUSES
                             then Some (''unresolved: '' @ status_text (status q)) else None))))
               (\<lambda>error. ret (Some (exn_message error)))) (\<lambda>failure.
             andThen (recordRecoveryAttempt r failure) (\<lambda>_. ret ()))))"

text \<open>
  One tick of the job; \<open>running\<close> is its flag, true while an earlier tick has not ended. Failures of the
  listing reach the scheduler; a payment whose recovery fails is logged and the pass goes on.
\<close>

definition reconcile :: "'r AccountsPort \<Rightarrow> bool \<Rightarrow> ('r, unit) work" where
  "reconcile port running =
     (if running then ret ()
      else
        andThen new_Date (\<lambda>now.
        andThen (findStuck [Pending, Processing, CompensationPending] (now - STUCK_AFTER_MS) BATCH_SIZE) (\<lambda>stuck.
        forEach stuck (\<lambda>p. catching (recover port (reference p)) (\<lambda>error. ret ())))))"

section \<open>Initiating a payment\<close>

text \<open>
  \<open>canonicalise\<close> of a payload, and its hash; SHA-256 and JSON's quoting of strings and numbers are
  arguments. \<open>Object.entries(..).sort(localeCompare)\<close> is an insertion sort by an order given as an
  argument too.
\<close>

record json_text =
  quote :: "string \<Rightarrow> string"
  number :: "js_number \<Rightarrow> string"
  instant :: "nat \<Rightarrow> string"
  name_le :: "string \<Rightarrow> string \<Rightarrow> bool"
  sha256 :: "string \<Rightarrow> string"

definition joined :: "string list \<Rightarrow> string" where
  "joined parts = (case parts of [] \<Rightarrow> [] | p # ps \<Rightarrow> fold (\<lambda>x acc. acc @ '','' @ x) ps p)"

fun insert_entry :: "('k \<Rightarrow> 'k \<Rightarrow> bool) \<Rightarrow> 'k \<times> 'v \<Rightarrow> ('k \<times> 'v) list \<Rightarrow> ('k \<times> 'v) list" where
  "insert_entry le x [] = [x]"
| "insert_entry le x (y # ys) = (if le (fst x) (fst y) then x # y # ys else y # insert_entry le x ys)"

definition sort_entries :: "('k \<Rightarrow> 'k \<Rightarrow> bool) \<Rightarrow> ('k \<times> 'v) list \<Rightarrow> ('k \<times> 'v) list" where
  "sort_entries le xs = foldr (insert_entry le) xs []"

fun canonicalise :: "json_text \<Rightarrow> js_value \<Rightarrow> string" where
  "canonicalise j Undefined = ''null''"
| "canonicalise j Null = ''null''"
| "canonicalise j (Bool b) = (if b then ''true'' else ''false'')"
| "canonicalise j (Number n) = (case n of Dyadic _ _ \<Rightarrow> number j n | _ \<Rightarrow> ''null'')"
| "canonicalise j (String s) = quote j s"
| "canonicalise j (Iso t) = quote j (instant j t)"
| "canonicalise j (Array xs) = ''['' @ joined (map (canonicalise j) xs) @ '']''"
| "canonicalise j (Object entries) =
     ''{'' @ joined (map (\<lambda>(name, text). quote j name @ '':'' @ text)
        (sort_entries (name_le j)
          (map (\<lambda>(name, v). (name, canonicalise j v)) (filter (\<lambda>(name, v). v \<noteq> Undefined) entries)))) @ ''}''"

definition hash_payload :: "json_text \<Rightarrow> js_value \<Rightarrow> string" where
  "hash_payload j body = sha256 j (canonicalise j body)"

definition resolveExisting :: "string \<Rightarrow> string \<Rightarrow> ('r, string option) work" where
  "resolveExisting k hash =
     andThen (find_key k) (\<lambda>existing. case existing of
       None \<Rightarrow> throw (Domain (RequestInProgressError k))
     | Some row \<Rightarrow>
         if request_hash row \<noteq> hash then throw (Domain (IdempotencyConflictError k))
         else if key_status row = IN_PROGRESS then throw (Domain (RequestInProgressError k))
         else ret (response_body row))"

text \<open>\<open>IdempotencyService.execute\<close>; a result is the response body (the reference of the payment).\<close>

definition idempotency_execute :: "json_text \<Rightarrow> string \<Rightarrow> js_value \<Rightarrow> ('r, string) work \<Rightarrow> ('r, string option \<times> bool) work" where
  "idempotency_execute j k body work =
     transaction_run (
       andThen (claim k (hash_payload j body)) (\<lambda>claimed.
       if \<not> claimed
       then andThen (resolveExisting k (hash_payload j body)) (\<lambda>stored. ret (stored, True))
       else andThen work (\<lambda>paymentReference.
            andThen (complete k paymentReference paymentReference) (\<lambda>_.
            ret (Some paymentReference, False)))))"

record InitiatePaymentCommand =
  cmd_transactionId :: string
  cmd_sourceWallet :: string
  cmd_destinationWallet :: string
  cmd_amount :: js_number
  cmd_currency :: Currency
  cmd_description :: string
  cmd_lang :: string
  cmd_metadata :: "metadata option"

definition command_payload :: "InitiatePaymentCommand \<Rightarrow> js_value" where
  "command_payload c = Object
     [(''transactionId'', String (cmd_transactionId c)),
      (''sourceWallet'', String (cmd_sourceWallet c)), (''destinationWallet'', String (cmd_destinationWallet c)),
      (''amount'', Number (cmd_amount c)), (''currency'', String (currency_text (cmd_currency c))),
      (''description'', String (cmd_description c)), (''lang'', String (cmd_lang c)),
      (''metadata'', case cmd_metadata c of None \<Rightarrow> Null | Some m \<Rightarrow> Object m)]"

definition fresh_payment_reference :: "('r, Reference) work" where
  "fresh_payment_reference =
     andThen new_Date (\<lambda>now.
     andThen (reads (\<lambda>s. draws s (generated s))) (\<lambda>d.
     andThen (writes (\<lambda>s. s\<lparr>generated := generated s + 1\<rparr>)) (\<lambda>_.
     ret (Reference_generate PAYMENT now d))))"

definition create_payment :: "InitiatePaymentCommand \<Rightarrow> ('r, string) work" where
  "create_payment c =
     andThen (raiseInl (Money_of (cmd_amount c) (cmd_currency c))) (\<lambda>m.
     andThen (raiseInl (Reference_of WALLET (cmd_sourceWallet c))) (\<lambda>src.
     andThen (raiseInl (Reference_of WALLET (cmd_destinationWallet c))) (\<lambda>dst.
     andThen new_Date (\<lambda>now.
     andThen fresh_payment_reference (\<lambda>fresh.
     andThen (raiseInl (initiate \<lparr>in_transactionId = cmd_transactionId c, in_money = m, in_source = src,
        in_destination = dst, in_description = cmd_description c, in_metadata = cmd_metadata c\<rparr> fresh now)) (\<lambda>p.
     andThen (writes (\<lambda>s. s\<lparr>held := Some p, revision := None\<rparr>)) (\<lambda>_.
     andThen (transaction_run save) (\<lambda>_.
     ret (value (reference p))))))))))"

definition initiate_execute :: "'r AccountsPort \<Rightarrow> json_text \<Rightarrow> InitiatePaymentCommand \<Rightarrow> ('r, string option) work" where
  "initiate_execute port j c =
     andThen (idempotency_execute j (cmd_transactionId c) (command_payload c) (create_payment c)) (\<lambda>(body, replayed).
     if replayed then ret body
     else (case body of
        None \<Rightarrow> ret body
      | Some r \<Rightarrow>
          andThen (raiseInl (Reference_of PAYMENT r)) (\<lambda>ref.
          andThen (saga_run port ref) (\<lambda>_.
          ret body))))"

end
