(* ===== verification/Coherence.thy ===== *)
theory Coherence
  imports Handlers
begin

text \<open>
  What a stored payment says about the money: the coherence of a payment with the movements and the
  requests in flight under its three keys, status by status, and with the messages in its outbox.
  The lemmas carry coherence through the steps of the remote state and through a local transaction;
  they are the only facts the handlers of \<open>Saga\<close> need.
\<close>

section \<open>Coherence with the accounts service\<close>

definition own_keys :: "string \<Rightarrow> string set" where
  "own_keys R = {R, R @ '':credit'', R @ '':refund''}"

text \<open>Nothing moved and nothing is in flight under a key.\<close>

definition quiet :: "'r movements \<Rightarrow> ('r \<Rightarrow> issue set) \<Rightarrow> 'r \<Rightarrow> string \<Rightarrow> bool" where
  "quiet moved pending r k \<longleftrightarrow>
     (\<forall>w. moved r w k = None) \<and> (\<forall>w t a. (w, k, t, a) \<notin> pending r)"

text \<open>Whatever moved or is in flight under a key is this wallet, this direction and this amount.\<close>

definition only :: "'r movements \<Rightarrow> ('r \<Rightarrow> issue set) \<Rightarrow> 'r \<Rightarrow> string \<Rightarrow> string \<Rightarrow> TransactionType \<Rightarrow> int \<Rightarrow> bool" where
  "only moved pending r k w t a \<longleftrightarrow>
     (\<forall>w' ref t' a'. moved r w' k = Some (ref, t', a') \<longrightarrow> (w', t', a') = (w, t, a))
     \<and> (\<forall>w' t' a'. (w', k, t', a') \<in> pending r \<longrightarrow> (w', t', a') = (w, t, a))"

definition leg_wallet :: "Payment \<Rightarrow> leg \<Rightarrow> string" where
  "leg_wallet p l = value (case l of debit_leg \<Rightarrow> source p | credit_leg \<Rightarrow> destination p | refund_leg \<Rightarrow> source p)"

definition leg_type :: "leg \<Rightarrow> TransactionType" where
  "leg_type l = (case l of debit_leg \<Rightarrow> DEBIT | _ \<Rightarrow> CREDIT)"

text \<open>The request of a leg, and the movement of a leg under a reference.\<close>

definition leg_issue :: "Payment \<Rightarrow> leg \<Rightarrow> issue" where
  "leg_issue p l = (leg_wallet p l, movementKey p l, leg_type l, amount (money p))"

definition leg_moved :: "'r movements \<Rightarrow> 'r \<Rightarrow> Payment \<Rightarrow> leg \<Rightarrow> Reference option \<Rightarrow> bool" where
  "leg_moved moved r p l ref \<longleftrightarrow> (\<exists>x. ref = Some x \<and>
     moved r (leg_wallet p l) (movementKey p l) = Some (value x, leg_type l, amount (money p)))"

definition leg_quiet :: "'r movements \<Rightarrow> ('r \<Rightarrow> issue set) \<Rightarrow> 'r \<Rightarrow> Payment \<Rightarrow> leg \<Rightarrow> bool" where
  "leg_quiet moved pending r p l = quiet moved pending r (movementKey p l)"

definition leg_only :: "'r movements \<Rightarrow> ('r \<Rightarrow> issue set) \<Rightarrow> 'r \<Rightarrow> Payment \<Rightarrow> leg \<Rightarrow> bool" where
  "leg_only moved pending r p l =
     only moved pending r (movementKey p l) (leg_wallet p l) (leg_type l) (amount (money p))"

text \<open>
  Coherence by status. \<open>Processing\<close> splits on the debit reference: without one the outcome of the
  debit is open, with one the outcome of the credit is. A declined payment may still owe a debit only
  when it was declined because accounts did not answer.
\<close>

definition status_coherent :: "'r movements \<Rightarrow> ('r \<Rightarrow> issue set) \<Rightarrow> Payment \<Rightarrow> 'r \<Rightarrow> bool" where
  "status_coherent moved pending p r = (case status p of
     Pending \<Rightarrow> leg_quiet moved pending r p debit_leg \<and> leg_quiet moved pending r p credit_leg
       \<and> leg_quiet moved pending r p refund_leg
   | Processing \<Rightarrow>
       (if debitTransactionReference p = None
        then leg_quiet moved pending r p credit_leg \<and> leg_quiet moved pending r p refund_leg
        else leg_moved moved r p debit_leg (debitTransactionReference p)
          \<and> leg_quiet moved pending r p refund_leg)
   | Approved \<Rightarrow> leg_moved moved r p debit_leg (debitTransactionReference p)
       \<and> leg_moved moved r p credit_leg (creditTransactionReference p)
       \<and> leg_quiet moved pending r p refund_leg
   | CompensationPending \<Rightarrow> leg_moved moved r p debit_leg (debitTransactionReference p)
       \<and> leg_quiet moved pending r p credit_leg
   | Compensated \<Rightarrow> leg_moved moved r p debit_leg (debitTransactionReference p)
       \<and> leg_moved moved r p refund_leg (refundTransactionReference p)
       \<and> leg_quiet moved pending r p credit_leg
   | Declined \<Rightarrow> leg_quiet moved pending r p credit_leg \<and> leg_quiet moved pending r p refund_leg
       \<and> (failureReason p \<noteq> Some ACCOUNTS_UNAVAILABLE_REASON \<longrightarrow> leg_quiet moved pending r p debit_leg))"

definition coherent :: "'r movements \<Rightarrow> ('r \<Rightarrow> issue set) \<Rightarrow> Payment \<Rightarrow> 'r \<Rightarrow> bool" where
  "coherent moved pending p r \<longleftrightarrow>
     leg_only moved pending r p debit_leg \<and> leg_only moved pending r p credit_leg
     \<and> leg_only moved pending r p refund_leg \<and> status_coherent moved pending p r"

text \<open>The legs a handler may issue in a status.\<close>

definition issuable :: "Payment \<Rightarrow> leg set" where
  "issuable p = (case status p of
     Processing \<Rightarrow> if debitTransactionReference p = None then {debit_leg} else {credit_leg}
   | CompensationPending \<Rightarrow> {refund_leg}
   | _ \<Rightarrow> {})"

lemma movementKey_own: "movementKey p l \<in> own_keys (value (reference p))"
  by (cases l) (simp_all add: movementKey_def own_keys_def)

lemma movementKey_distinct: "movementKey p l = movementKey p m \<longleftrightarrow> l = m"
  by (cases l; cases m) (simp_all add: movementKey_def)

lemma leg_quiet_steps:
  assumes "steps moved pending (own_keys (value (reference p))) A r r'" and "leg_quiet moved pending r p l"
    and "A \<subseteq> leg_issue p ` L" and "l \<notin> L"
  shows "leg_quiet moved pending r' p l"
proof -
  have fresh: "(w, movementKey p l, t, a) \<notin> A" for w t a
    using assms(3,4) movementKey_distinct by (fastforce simp: leg_issue_def)
  have none: "moved r w (movementKey p l) = None" "(w, movementKey p l, t, a) \<notin> pending r" for w t a
    using assms(2) by (simp_all add: leg_quiet_def quiet_def)
  have "moved r' w (movementKey p l) = None" for w
  proof (rule ccontr)
    assume "moved r' w (movementKey p l) \<noteq> None"
    then obtain ref t a where "moved r' w (movementKey p l) = Some (ref, t, a)" by auto
    from steps_origin [OF assms(1) movementKey_own none(1) this] fresh none(2) show False by blast
  qed
  moreover have "(w, movementKey p l, t, a) \<notin> pending r'" for w t a
    using steps_pending [OF assms(1) movementKey_own, of w l t a] fresh none(2) by blast
  ultimately show ?thesis by (simp add: leg_quiet_def quiet_def)
qed

lemma leg_only_steps:
  assumes "steps moved pending (own_keys (value (reference p))) A r r'" and "leg_only moved pending r p l"
    and "A \<subseteq> leg_issue p ` L"
  shows "leg_only moved pending r' p l"
proof -
  let ?k = "movementKey p l" and ?v = "(leg_wallet p l, leg_type l, amount (money p))"
  have A: "(w, t, a) = ?v" if "(w, ?k, t, a) \<in> A" for w t a
  proof -
    obtain m where "(w, ?k, t, a) = leg_issue p m" using assms(3) \<open>(w, ?k, t, a) \<in> A\<close> by blast
    then have "m = l" and "w = leg_wallet p m" "t = leg_type m" "a = amount (money p)"
      using movementKey_distinct by (auto simp: leg_issue_def)
    then show ?thesis by simp
  qed
  have old: "(w, t, a) = ?v" if "moved r w ?k = Some (ref, t, a)" for w ref t a
    using assms(2) that unfolding leg_only_def only_def by blast
  have flying: "(w, t, a) = ?v" if "(w, ?k, t, a) \<in> pending r" for w t a
    using assms(2) that unfolding leg_only_def only_def by blast
  have moved': "(w, t, a) = ?v" if new: "moved r' w ?k = Some (ref, t, a)" for w ref t a
  proof (cases "moved r w ?k")
    case None
    then show ?thesis using steps_origin [OF assms(1) movementKey_own _ new] A flying by blast
  next
    case (Some f)
    then have "moved r w ?k = Some (ref, t, a)" using steps_keep [OF assms(1) Some] new by simp
    then show ?thesis by (rule old)
  qed
  have pending': "(w, t, a) = ?v" if "(w, ?k, t, a) \<in> pending r'" for w t a
    using steps_pending [OF assms(1) movementKey_own that] A flying by blast
  show ?thesis unfolding leg_only_def only_def using moved' pending' by blast
qed

lemma leg_moved_steps:
  "steps moved pending own A r r' \<Longrightarrow> leg_moved moved r p l ref \<Longrightarrow> leg_moved moved r' p l ref"
  unfolding leg_moved_def using steps_keep by metis

theorem coherent_steps:
  assumes "coherent moved pending p r" and s: "steps moved pending (own_keys (value (reference p))) A r r'"
    and A: "A \<subseteq> leg_issue p ` issuable p"
  shows "coherent moved pending p r'"
proof -
  have quiet: "leg_quiet moved pending r' p l" if "leg_quiet moved pending r p l" "l \<notin> issuable p" for l
    using leg_quiet_steps [OF s that(1) A that(2)] .
  have kept: "leg_moved moved r' p l ref" if "leg_moved moved r p l ref" for l ref
    using leg_moved_steps [OF s that] .
  have "leg_only moved pending r' p l" for l
    using leg_only_steps [OF s _ A] assms(1) by (cases l) (simp_all add: coherent_def)
  moreover have "status_coherent moved pending p r'"
  proof (cases "status p")
    case Processing
    then show ?thesis using assms(1) quiet kept unfolding coherent_def status_coherent_def issuable_def
      by (cases "debitTransactionReference p") simp_all
  qed (use assms(1) quiet kept in \<open>simp_all add: coherent_def status_coherent_def issuable_def\<close>)
  ultimately show ?thesis by (simp add: coherent_def)
qed

section \<open>What the stored row must say\<close>

definition twin :: "Payment \<Rightarrow> Payment \<Rightarrow> bool" where
  "twin p q \<longleftrightarrow> q = p\<lparr>createdAt := createdAt q, updatedAt := updatedAt q, events := events q\<rparr>"

definition ledger_of :: "Payment \<Rightarrow> LedgerMovement list" where
  "ledger_of p = (case status p of
     Approved \<Rightarrow> settled_movements p (the (creditTransactionReference p)) (the (completedAt p))
   | Compensated \<Rightarrow> [refund_movement p (the (refundTransactionReference p)) (the (completedAt p))]
   | _ \<Rightarrow> [])"

text \<open>
  The messages a payment owes its outbox: the ledger movements and the lifecycle event of its status.
  Only the correlation id and the instant of emission are free.
\<close>

definition owed :: "Payment \<Rightarrow> string \<Rightarrow> nat \<Rightarrow> OutboxMessage list" where
  "owed p corr now = map (movement_message p corr now) (ledger_of p) @ map event_message (announcement p)"

definition content :: "OutboxMessage \<Rightarrow> string \<times> json_object" where
  "content m = (msg_eventType m, msg_payload m)"

definition announced :: "Payment \<Rightarrow> (string \<times> json_object) list \<Rightarrow> bool" where
  "announced p msgs \<longleftrightarrow> (\<exists>corr now. msgs = map content (owed p corr now))"

definition messages_of :: "string \<Rightarrow> payments_db \<Rightarrow> (string \<times> json_object) list" where
  "messages_of R d = map (\<lambda>row. (outbox_event_type row, outbox_payload row))
     (filter (\<lambda>row. aggregate_reference row = R) (outbox d))"

definition stored :: "string \<Rightarrow> payments_db \<Rightarrow> Payment \<Rightarrow> nat \<Rightarrow> bool" where
  "stored R d p v \<longleftrightarrow> (\<exists>row p0. lookupBy row_reference R (payments d) = Some row \<and> toDomain row = Inr p0
     \<and> twin p0 p \<and> version row = v \<and> wf_payment p \<and> value (reference p) = R \<and> amount (money p) \<le> 2 ^ 53)"

text \<open>What another worker may commit while this one holds the lock of the payment.\<close>

definition legit_tx :: "string \<Rightarrow> (payments_db \<Rightarrow> payments_db) \<Rightarrow> bool" where
  "legit_tx R f \<longleftrightarrow> (\<forall>d. lookupBy row_reference R (payments (f d)) = lookupBy row_reference R (payments d)
     \<and> messages_of R (f d) = messages_of R d)"

definition sound_as :: "'r movements \<Rightarrow> ('r \<Rightarrow> issue set) \<Rightarrow> ('r \<Rightarrow> bool) \<Rightarrow> string \<Rightarrow> 'r world \<Rightarrow> Payment \<Rightarrow> nat \<Rightarrow> bool" where
  "sound_as moved pending ok R s p v \<longleftrightarrow>
     ok (remote s) \<and> (\<forall>n. legit_tx R (tx_others (tx_script s n))) \<and> \<not> in_tx s
     \<and> stored R (db s) p v \<and> coherent moved pending p (remote s) \<and> announced p (messages_of R (db s))"

definition sound :: "'r movements \<Rightarrow> ('r \<Rightarrow> issue set) \<Rightarrow> ('r \<Rightarrow> bool) \<Rightarrow> string \<Rightarrow> 'r world \<Rightarrow> bool" where
  "sound moved pending ok R s \<longleftrightarrow> (\<exists>p v. sound_as moved pending ok R s p v)"

lemma leg_cong:
  assumes "reference q = reference p" "money q = money p" "source q = source p" "destination q = destination p"
  shows "leg_quiet moved pending r q = leg_quiet moved pending r p"
    "leg_only moved pending r q = leg_only moved pending r p" "leg_moved moved r q = leg_moved moved r p"
    "leg_issue q = leg_issue p" "movementKey q = movementKey p" "leg_wallet q = leg_wallet p"
proof -
  show k: "movementKey q = movementKey p" and w: "leg_wallet q = leg_wallet p"
    using assms by (simp_all add: fun_eq_iff movementKey_def leg_wallet_def split: leg.split)
  show "leg_quiet moved pending r q = leg_quiet moved pending r p"
    "leg_only moved pending r q = leg_only moved pending r p" "leg_moved moved r q = leg_moved moved r p"
    "leg_issue q = leg_issue p"
    using assms by (simp_all add: fun_eq_iff leg_quiet_def leg_only_def leg_moved_def leg_issue_def k w)
qed

lemma coherent_cong:
  assumes "reference q = reference p" "money q = money p" "source q = source p" "destination q = destination p"
    and "status q = status p" "failureReason q = failureReason p"
    and "debitTransactionReference q = debitTransactionReference p"
    and "creditTransactionReference q = creditTransactionReference p"
    and "refundTransactionReference q = refundTransactionReference p"
  shows "coherent moved pending q r = coherent moved pending p r"
  unfolding coherent_def status_coherent_def leg_cong [OF assms(1-4)] assms(5-9) ..

lemma cosmetic [simp]:
  "coherent moved pending (p\<lparr>events := es\<rparr>) r = coherent moved pending p r"
  "coherent moved pending (p\<lparr>updatedAt := u\<rparr>) r = coherent moved pending p r"
  "coherent moved pending (p\<lparr>createdAt := c\<rparr>) r = coherent moved pending p r"
  by (rule coherent_cong; simp)+

lemma cosmetic_wf [simp]:
  "wf_payment (p\<lparr>events := es\<rparr>) = wf_payment p"
  "wf_payment (p\<lparr>updatedAt := u\<rparr>) = wf_payment p"
  "wf_payment (p\<lparr>createdAt := c\<rparr>) = wf_payment p"
  by (simp_all add: wf_payment_def wf_fields_def)

lemma cosmetic_message [simp]:
  "movement_message (p\<lparr>events := es\<rparr>) = movement_message p"
  "movement_message (p\<lparr>updatedAt := u\<rparr>) = movement_message p"
  "movement_message (p\<lparr>createdAt := c\<rparr>) = movement_message p"
  by (simp_all add: movement_message_def user_reference_of_def fun_eq_iff)

lemma cosmetic_ledger [simp]:
  "ledger_of (p\<lparr>events := es\<rparr>) = ledger_of p"
  "ledger_of (p\<lparr>updatedAt := u\<rparr>) = ledger_of p"
  "ledger_of (p\<lparr>createdAt := c\<rparr>) = ledger_of p"
  by (cases "status p"; simp add: ledger_of_def settled_movements_def refund_movement_def movementKey_def)+

lemma cosmetic_announcement [simp]:
  "announcement (p\<lparr>updatedAt := u\<rparr>) = announcement p"
  "announcement (p\<lparr>createdAt := c\<rparr>) = announcement p"
  by (cases "status p"; simp add: announcement.simps)+

lemma cosmetic_owed [simp]:
  "announced (p\<lparr>events := es\<rparr>) = announced p"
  "announced (p\<lparr>updatedAt := u\<rparr>) = announced p"
  "announced (p\<lparr>createdAt := c\<rparr>) = announced p"
  by (simp_all add: announced_def owed_def fun_eq_iff)

lemma twin_refl [simp]: "twin p p"
  by (simp add: twin_def)

lemma twin_sym: "twin p q \<Longrightarrow> twin q p"
  unfolding twin_def by (cases p; cases q) simp

lemma twin_trans: "twin p q \<Longrightarrow> twin q r \<Longrightarrow> twin p r"
  unfolding twin_def by (cases p; cases q; cases r) simp

lemma twin_fields [simp]: "twin p (p\<lparr>events := es\<rparr>)" "twin p (p\<lparr>createdAt := c, updatedAt := u, events := es\<rparr>)"
  by (simp_all add: twin_def)

lemma twin_same:
  assumes "twin p q"
  shows "wf_payment q = wf_payment p" "reference q = reference p" "money q = money p"
    "transactionId q = transactionId p" "coherent moved pending q r = coherent moved pending p r" "announced q = announced p"
proof -
  obtain c u es where "q = p\<lparr>createdAt := c, updatedAt := u, events := es\<rparr>"
    using assms unfolding twin_def by blast
  then show "wf_payment q = wf_payment p" "reference q = reference p" "money q = money p"
    "transactionId q = transactionId p" "coherent moved pending q r = coherent moved pending p r" "announced q = announced p"
    by simp_all
qed

lemma stored_twin: "stored R d p v \<Longrightarrow> twin p q \<Longrightarrow> stored R d q v"
  unfolding stored_def by (elim exE conjE, intro exI conjI) (assumption | erule (1) twin_trans | simp add: twin_same)+

lemma sound_as_twin: "sound_as moved pending ok R s p v \<Longrightarrow> twin p q \<Longrightarrow> sound_as moved pending ok R s q v"
  unfolding sound_as_def using stored_twin [of R "db s" p v q] by (simp add: twin_same)

section \<open>Rows and payments\<close>

lemma toDomain_transactionId: "toDomain row = Inr p \<Longrightarrow> transactionId p = row_transaction_id row \<and> events p = []"
  by (auto simp: toDomain_def restore_def bindE_def snapshot_of_row_def split: sum.splits)

lemma toDomain_saved:
  assumes "wf_payment q" and "amount (money q) \<le> 2 ^ 53" and "transactionId q = row_transaction_id row"
  shows "toDomain ((toPersistence q row)\<lparr>row_transaction_id := row_transaction_id row, version := n, row_updated_at := now\<rparr>)
    = Inr (q\<lparr>createdAt := row_created_at row, updatedAt := now, events := []\<rparr>)"
proof -
  let ?q = "q\<lparr>createdAt := row_created_at row, updatedAt := now\<rparr>"
  have exact: "to_double (amount (money q)) = amount (money q)"
    using assms(1,2) by (simp add: wf_payment_def wf_money_def)
  have "snapshot_of_row ((toPersistence q row)\<lparr>row_transaction_id := row_transaction_id row, version := n, row_updated_at := now\<rparr>)
      = toSnapshot ?q"
    using exact assms(3) by (simp add: snapshot_of_row_def toPersistence_def toSnapshot_def Let_def)
  moreover have "restore (toSnapshot ?q) = Inr (?q\<lparr>events := []\<rparr>)"
    using assms(1) by (intro restore_toSnapshot) simp
  ultimately show ?thesis by (simp add: toDomain_def)
qed

lemma toDomain_fresh:
  assumes "wf_payment p" and "amount (money p) \<le> 2 ^ 53"
  shows "toDomain (toPersistence p row) = Inr (p\<lparr>createdAt := row_created_at row, updatedAt := row_updated_at row, events := []\<rparr>)"
proof -
  let ?p = "p\<lparr>createdAt := row_created_at row, updatedAt := row_updated_at row\<rparr>"
  have "to_double (amount (money p)) = amount (money p)"
    using assms by (simp add: wf_payment_def wf_money_def)
  then have "snapshot_of_row (toPersistence p row) = toSnapshot ?p"
    by (simp add: snapshot_of_row_def toPersistence_def toSnapshot_def Let_def)
  moreover have "restore (toSnapshot ?p) = Inr (?p\<lparr>events := []\<rparr>)"
    using assms(1) by (intro restore_toSnapshot) simp
  ultimately show ?thesis by (simp add: toDomain_def)
qed

lemma row_of_payment: "row_reference (toPersistence p row) = value (reference p)"
    "row_transaction_id (toPersistence p row) = transactionId p" "version (toPersistence p row) = version row"
    "row_status (toPersistence p row) = status p"
  by (simp_all add: toPersistence_def toSnapshot_def Let_def)

section \<open>Running the database operations\<close>

lemma wp_new_Date [wp_simps]: "wp new_Date Q E s = Q (clock s (clock_reads s)) (s\<lparr>clock_reads := clock_reads s + 1\<rparr>)"
  by (simp add: wp_def new_Date_def)

lemma wp_query [wp_simps]: "wp (query f) Q E s =
    (if read_script s (db_reads s) then Q (f (db s)) (s\<lparr>db_reads := db_reads s + 1\<rparr>)
     else E (Plain ''connection failure'') (s\<lparr>db_reads := db_reads s + 1\<rparr>))"
  by (simp add: wp_def query_def Let_def)

lemma wp_update_db [wp_simps]: "wp (update_db f) Q E s = Q () (s\<lparr>db := f (db s)\<rparr>)"
  by (simp add: update_db_def wp_writes)

lemma wp_on_remote [wp_simps]: "wp (on_remote m) Q E s =
    wp m (\<lambda>x r. Q x (s\<lparr>remote := r\<rparr>)) (\<lambda>e r. E e (s\<lparr>remote := r\<rparr>)) (remote s)"
  by (simp add: wp_def on_remote_def split: prod.splits sum.splits)

lemma wp_on_payment: "held s = Some p \<Longrightarrow> wp (on_payment m) Q E s =
    wp m (\<lambda>x q. Q x (s\<lparr>held := Some q\<rparr>)) (\<lambda>e q. E e (s\<lparr>held := Some q\<rparr>)) p"
  by (simp add: wp_def on_payment_def split: prod.splits sum.splits)

lemma wp_on_payment_op: "held s = Some p \<Longrightarrow> m p = (Inr x, q) \<Longrightarrow>
    wp (on_payment m) Q E s = Q x (s\<lparr>held := Some q\<rparr>)"
  by (simp add: wp_on_payment) (simp add: wp_def)

lemma wp_the_payment: "held s = Some p \<Longrightarrow> wp the_payment Q E s = Q p s"
  by (simp add: wp_def the_payment_def)

lemma wp_transaction_run:
  assumes "\<not> in_tx s"
    and base: "base = tx_others (tx_script s (txs s)) (db s)"
    and "wp work
       (\<lambda>x t. (tx_fate (tx_script s (txs s)) = TxCommits \<longrightarrow> Q x (t\<lparr>in_tx := False\<rparr>))
          \<and> (tx_fate (tx_script s (txs s)) \<noteq> TxCommits \<longrightarrow> (\<forall>e. \<not> isDomainError e \<longrightarrow>
               E e (t\<lparr>in_tx := False\<rparr>) \<and> E e (t\<lparr>db := base, in_tx := False\<rparr>))))
       (\<lambda>e t. E e (t\<lparr>db := base, in_tx := False\<rparr>)) (s\<lparr>db := base, txs := txs s + 1, in_tx := True\<rparr>)"
  shows "wp (transaction_run work) Q E s"
  using assms unfolding wp_def transaction_run_def Let_def
  by (auto split: prod.splits sum.splits tx_fate.splits)

definition written :: "nat \<Rightarrow> Payment \<Rightarrow> payments_db \<Rightarrow> payments_db" where
  "written now p d = d\<lparr>payments := updateBy row_reference (value (reference p))
     (\<lambda>row. (toPersistence p row)\<lparr>row_transaction_id := row_transaction_id row, version := version row + 1,
              row_updated_at := now\<rparr>) (payments d)\<rparr>"

lemma wp_save:
  assumes "held s = Some p" and "revision s = Some v"
    and "map_option version (lookupBy row_reference (value (reference p)) (payments (db s))) = Some v"
  shows "wp save Q E s =
    (let t = s\<lparr>clock_reads := clock_reads s + 1, db_reads := db_reads s + 1\<rparr> in
     if read_script s (db_reads s)
     then Q () (t\<lparr>db := written (clock s (clock_reads s)) p (db s), revision := Some (v + 1)\<rparr>)
     else E (Plain ''connection failure'') t)"
  using assms by (simp add: save_def wp_simps wp_the_payment written_def Let_def)

lemma stored_version: "stored R d p v \<Longrightarrow> map_option version (lookupBy row_reference R (payments d)) = Some v"
  by (auto simp: stored_def)

lemma stored_written:
  assumes "stored R d p v" and "wf_payment q" and "reference q = reference p" "money q = money p"
    and "transactionId q = transactionId p"
  shows "stored R (written now q d) q (v + 1)"
proof -
  obtain row p0 where row: "lookupBy row_reference R (payments d) = Some row" "toDomain row = Inr p0" "twin p0 p"
      "version row = v" "value (reference p) = R" "amount (money p) \<le> 2 ^ 53"
    using assms(1) by (auto simp: stored_def)
  have id: "transactionId q = row_transaction_id row"
    using toDomain_transactionId [OF row(2)] twin_same(4) [OF row(3)] assms(5) by simp
  let ?f = "\<lambda>row. (toPersistence q row)\<lparr>row_transaction_id := row_transaction_id row, version := version row + 1, row_updated_at := now\<rparr>"
  let ?row = "?f row"
  have "row_reference (?f x) = R" for x
    using row(5) assms(3) by (simp add: toPersistence_def toSnapshot_def Let_def)
  then have "lookupBy row_reference R (payments (written now q d)) = Some ?row"
    using row(1,5) assms(3) lookupBy_updateBy_same [of row_reference R ?f "payments d"]
    by (simp add: written_def)
  moreover have "toDomain ?row = Inr (q\<lparr>createdAt := row_created_at row, updatedAt := now, events := []\<rparr>)"
    using assms(2,4) row(6) id by (intro toDomain_saved) simp_all
  moreover have "twin (q\<lparr>createdAt := row_created_at row, updatedAt := now, events := []\<rparr>) q"
    using twin_sym twin_fields(2) by blast
  moreover have "version ?row = v + 1" using row(4) by simp
  moreover have "value (reference q) = R" "amount (money q) \<le> 2 ^ 53" using assms(3,4) row(5,6) by simp_all
  ultimately show ?thesis using assms(2) unfolding stored_def by blast
qed

section \<open>Writing the outbox\<close>

text \<open>The scripts of the environment are inputs: no computation writes them.\<close>

definition same_scripts :: "'r world \<Rightarrow> 'r world \<Rightarrow> bool" where
  "same_scripts s t \<longleftrightarrow> tx_script t = tx_script s \<and> read_script t = read_script s
     \<and> lock_script t = lock_script s \<and> in_tx t = in_tx s"

lemma same_scripts_refl [simp]: "same_scripts s s"
  by (simp add: same_scripts_def)

lemma same_scripts_trans: "same_scripts s t \<Longrightarrow> same_scripts t u \<Longrightarrow> same_scripts s u"
  by (simp add: same_scripts_def)

definition grows :: "string \<Rightarrow> OutboxMessage list \<Rightarrow> Payment \<Rightarrow> 'r world \<Rightarrow> 'r world \<Rightarrow> bool" where
  "grows R ms h s t \<longleftrightarrow> payments (db t) = payments (db s)
     \<and> messages_of R (db t) = messages_of R (db s) @ map content ms
     \<and> same_scripts s t \<and> remote t = remote s \<and> revision t = revision s \<and> held t = Some h"

lemma messages_of_enqueued:
  assumes "\<forall>m \<in> set ms. msg_aggregateReference m = R"
  shows "messages_of R (d\<lparr>outbox := outbox d @ map (\<lambda>(i, m). outbox_row (n + i) now m) (enumerate k ms)\<rparr>)
    = messages_of R d @ map content ms"
proof -
  have "map (\<lambda>row. (outbox_event_type row, outbox_payload row))
      (filter (\<lambda>row. aggregate_reference row = R) (map (\<lambda>(i, m). outbox_row (n + i) now m) (enumerate k ms)))
    = map content ms"
    using assms by (induction ms arbitrary: k) (simp_all add: outbox_row_def content_def)
  then show ?thesis by (simp add: messages_of_def)
qed

lemma wp_enqueue:
  assumes "\<forall>m \<in> set ms. msg_aggregateReference m = R" and "held s = Some h" and "\<And>t. grows R ms h s t \<Longrightarrow> Q () t"
  shows "wp (enqueue ms) Q E s"
  using assms messages_of_enqueued [OF assms(1)]
  by (simp add: enqueue_def wp_simps grows_def same_scripts_def)

lemma grows_trans: "grows R ms h s t \<Longrightarrow> grows R ns h' t u \<Longrightarrow> grows R (ms @ ns) h' s u"
  by (simp add: grows_def same_scripts_def)

lemma wp_pull_and_enqueue:
  assumes "held s = Some q" and "events q = announcement q" and "value (reference q) = R"
    and "\<And>t. grows R (map event_message (announcement q)) (q\<lparr>events := []\<rparr>) s t \<Longrightarrow> Q () t"
  shows "wp (andThen (on_payment pullEvents) enqueue_events) Q E s"
proof -
  have agg: "\<forall>m \<in> set (map event_message (announcement q)). msg_aggregateReference m = R"
    using assms(3) by (cases "status q") (simp_all add: announcement.simps event_message_def)
  have pull: "pullEvents q = (Inr (announcement q), q\<lparr>events := []\<rparr>)" using assms(2) by (simp add: pullEvents_def)
  have "wp (enqueue (map event_message (announcement q))) Q E (s\<lparr>held := Some (q\<lparr>events := []\<rparr>)\<rparr>)"
    by (rule wp_enqueue [OF agg]) (simp, simp add: assms(4) grows_def same_scripts_def)
  then show ?thesis
    by (simp add: wp_andThen wp_on_payment_op [where m = pullEvents, OF assms(1) pull] enqueue_events_def)
qed

lemma wp_announce:
  assumes "held s = Some q" and "events q = announcement q" and "value (reference q) = R" and "ledger_of q = []"
    and "\<And>t. grows R (owed q corr now) (q\<lparr>events := []\<rparr>) s t \<Longrightarrow> Q () t"
  shows "wp (andThen (on_payment pullEvents) enqueue_events) Q E s"
  by (rule wp_pull_and_enqueue [OF assms(1-3)], rule assms(5)) (simp add: owed_def assms(4))

lemma wp_record:
  assumes q: "held s = Some q" and time: "completedAt q = Some time" and ev: "events q = announcement q"
    and R: "value (reference q) = R" and l: "ledger_of q = movements time"
    and Q: "\<And>corr now t. grows R (owed q corr now) (q\<lparr>events := []\<rparr>) s t \<Longrightarrow> Q () t"
  shows "wp (andThen (completion_time q) (\<lambda>t. andThen (record_movements (movements t))
      (\<lambda>_. andThen (on_payment pullEvents) enqueue_events))) Q E s"
proof -
  let ?ms = "map (movement_message q (correlation s) (clock s (clock_reads s))) (ledger_of q)"
  let ?s = "s\<lparr>clock_reads := Suc (clock_reads s)\<rparr>"
  have agg: "\<forall>m \<in> set ?ms. msg_aggregateReference m = R" using R by (simp add: movement_message_def)
  have "wp (enqueue ?ms) (\<lambda>_. wp (andThen (on_payment pullEvents) enqueue_events) Q E) E ?s"
  proof (rule wp_enqueue [OF agg])
    fix t assume g: "grows R ?ms q ?s t"
    show "wp (andThen (on_payment pullEvents) enqueue_events) Q E t"
    proof (rule wp_pull_and_enqueue [OF _ ev R])
      show "held t = Some q" using g by (simp add: grows_def)
      fix u assume "grows R (map event_message (announcement q)) (q\<lparr>events := []\<rparr>) t u"
      from grows_trans [OF g this] show "Q () u" 
        by (intro Q [of "correlation s" "clock s (clock_reads s)"]) (simp add: owed_def grows_def same_scripts_def)
    qed
  qed (simp add: q)
  then show ?thesis
    by (simp add: completion_time_def time record_movements_def l [symmetric] wp_andThen wp_ret wp_the_payment [OF q]
        wp_reads wp_new_Date del: map_map)
qed

section \<open>One local transaction\<close>

lemma sound_as_base: "sound_as moved pending ok R s p v \<Longrightarrow> d = tx_others (tx_script s n) (db s)
    \<Longrightarrow> stored R d p v \<and> announced p (messages_of R d)"
  unfolding sound_as_def stored_def legit_tx_def by simp

text \<open>
  Saving the payment in hand with the messages \<open>K\<close> writes: on success both are there; otherwise the
  environment is to blame, the exception is not a domain error, and the database has both or neither.
\<close>

definition calm_db :: "'r world \<Rightarrow> bool" where
  "calm_db s \<longleftrightarrow> (\<forall>n. tx_fate (tx_script s n) = TxCommits) \<and> (\<forall>n. read_script s n)"

lemma save_core:
  assumes tx: "\<not> in_tx s" and legit: "\<forall>n. legit_tx R (tx_others (tx_script s n))" and S: "stored R (db s) p v"
    and held: "held s = Some q" and rev: "revision s = Some v" and wf: "wf_payment q"
    and id: "reference q = reference p" "money q = money p" "transactionId q = transactionId p"
    and tail: "\<And>t. held t = Some q \<Longrightarrow> wp K (\<lambda>_ u. \<exists>ms. grows R ms h t u \<and> P ms) (\<lambda>_ _. False) t"
    and Q: "\<And>t ms. P ms \<Longrightarrow> stored R (db t) q (v + 1) \<Longrightarrow> messages_of R (db t) = messages_of R (db s) @ map content ms
        \<Longrightarrow> same_scripts s t \<Longrightarrow> revision t = Some (v + 1) \<Longrightarrow> held t = Some h \<Longrightarrow> remote t = remote s \<Longrightarrow> Q () t"
    and E: "\<And>e t. \<not> isDomainError e \<Longrightarrow> \<not> calm_db s \<Longrightarrow> same_scripts s t \<Longrightarrow> remote t = remote s \<Longrightarrow>
        stored R (db t) p v \<and> messages_of R (db t) = messages_of R (db s) \<or>
        (\<exists>ms. P ms \<and> stored R (db t) q (v + 1) \<and> messages_of R (db t) = messages_of R (db s) @ map content ms) \<Longrightarrow> E e t"
  shows "wp (transaction_run (andThen save (\<lambda>_. K))) Q E s"
proof -
  define base where "base = tx_others (tx_script s (txs s)) (db s)"
  have old: "stored R base p v" "messages_of R base = messages_of R (db s)"
    using S legit unfolding base_def stored_def legit_tx_def by simp_all
  have R: "value (reference q) = R" using old(1) id(1) by (auto simp: stored_def)
  let ?start = "s\<lparr>db := base, txs := txs s + 1, in_tx := True\<rparr>"
  let ?w = "?start\<lparr>clock_reads := clock_reads s + 1, db_reads := db_reads s + 1,
      db := written (clock s (clock_reads s)) q base, revision := Some (v + 1)\<rparr>"
  have new: "stored R (written (clock s (clock_reads s)) q base) q (v + 1)"
    using stored_written [OF old(1) wf id] .
  have same: "messages_of R (written n q d) = messages_of R d" for n d
    by (simp add: written_def messages_of_def)
  have saved: "stored R (db u) q (v + 1) \<and> messages_of R (db u) = messages_of R (db s) @ map content ms"
    if "grows R ms h ?w u" for u ms
    using that new old(2) same by (simp add: grows_def stored_def)
  let ?Q = "\<lambda>x t. (tx_fate (tx_script s (txs s)) = TxCommits \<longrightarrow> Q x (t\<lparr>in_tx := False\<rparr>))
      \<and> (tx_fate (tx_script s (txs s)) \<noteq> TxCommits \<longrightarrow> (\<forall>e. \<not> isDomainError e \<longrightarrow>
           E e (t\<lparr>in_tx := False\<rparr>) \<and> E e (t\<lparr>db := base, in_tx := False\<rparr>)))"
  let ?E = "\<lambda>e t. E e (t\<lparr>db := base, in_tx := False\<rparr>)"
  have body: "wp (andThen save (\<lambda>_. K)) ?Q ?E ?start"
  proof (cases "read_script s (db_reads s)")
    case False
    then have "\<not> calm_db s" by (auto simp: calm_db_def)
    then have "E (Plain ''connection failure'')
        (?start\<lparr>clock_reads := clock_reads s + 1, db_reads := db_reads s + 1, db := base, in_tx := False\<rparr>)"
      by (intro E) (use tx old in \<open>simp_all add: same_scripts_def\<close>)
    then show ?thesis using False held rev stored_version [OF old(1)] R by (simp add: wp_andThen wp_save Let_def)
  next
    case True
    have "wp K ?Q ?E ?w"
    proof (rule wp_mono [OF tail])
      show "held ?w = Some q" using held by simp
      fix x u assume "\<exists>ms. grows R ms h ?w u \<and> P ms"
      then obtain ms where g: "grows R ms h ?w u" and P: "P ms" by blast
      note frame = g [unfolded grows_def same_scripts_def]
      have "Q () (u\<lparr>in_tx := False\<rparr>)"
        by (rule Q [OF P]) (use saved [OF g] frame tx in \<open>simp_all add: same_scripts_def\<close>)
      moreover have "E e (u\<lparr>in_tx := False\<rparr>) \<and> E e (u\<lparr>db := base, in_tx := False\<rparr>)"
        if "tx_fate (tx_script s (txs s)) \<noteq> TxCommits" "\<not> isDomainError e" for e
      proof
        have c: "\<not> calm_db s" using that(1) by (auto simp: calm_db_def)
        show "E e (u\<lparr>in_tx := False\<rparr>)"
          by (rule E [OF that(2) c]) (use saved [OF g] P frame tx in \<open>auto simp: same_scripts_def\<close>)
        show "E e (u\<lparr>db := base, in_tx := False\<rparr>)"
          by (rule E [OF that(2) c]) (use old frame tx in \<open>auto simp: same_scripts_def\<close>)
      qed
      ultimately show "?Q x u" by simp
    qed simp
    then show ?thesis using True held rev stored_version [OF old(1)] R by (simp add: wp_andThen wp_save Let_def)
  qed
  show ?thesis
    by (rule wp_transaction_run [OF tx base_def body])
qed

lemma save_step:
  assumes S: "sound_as moved pending ok R s p v"
    and held: "held s = Some q" and rev: "revision s = Some v" and wf: "wf_payment q"
    and id: "reference q = reference p" "money q = money p" "transactionId q = transactionId p"
    and coh: "coherent moved pending q (remote s)"
    and tail: "\<And>t. held t = Some q \<Longrightarrow> wp K (\<lambda>_ u. \<exists>ms. grows R ms h t u
        \<and> (\<forall>old. announced p old \<longrightarrow> announced q (old @ map content ms))) (\<lambda>_ _. False) t"
    and Q: "\<And>t. sound_as moved pending ok R t q (v + 1) \<Longrightarrow> revision t = Some (v + 1) \<Longrightarrow> held t = Some h
        \<Longrightarrow> remote t = remote s \<Longrightarrow> Q () t"
    and E: "\<And>e t. \<not> isDomainError e \<Longrightarrow> sound moved pending ok R t \<Longrightarrow> remote t = remote s \<Longrightarrow> E e t"
  shows "wp (transaction_run (andThen save (\<lambda>_. K))) Q E s"
proof (rule save_core [where P = "\<lambda>ms. \<forall>old. announced p old \<longrightarrow> announced q (old @ map content ms)" and h = h, OF _ _ _ held rev wf id tail])
  fix t ms
  assume "\<forall>old. announced p old \<longrightarrow> announced q (old @ map content ms)" "stored R (db t) q (v + 1)"
    "messages_of R (db t) = messages_of R (db s) @ map content ms" "same_scripts s t" "revision t = Some (v + 1)"
    "held t = Some h" "remote t = remote s"
  then show "Q () t" by (intro Q) (use S coh in \<open>simp_all add: sound_as_def same_scripts_def\<close>)
next
  fix e t
  assume e: "\<not> isDomainError e" "same_scripts s t" "remote t = remote s"
    "stored R (db t) p v \<and> messages_of R (db t) = messages_of R (db s) \<or>
        (\<exists>ms. (\<forall>old. announced p old \<longrightarrow> announced q (old @ map content ms)) \<and> stored R (db t) q (v + 1)
           \<and> messages_of R (db t) = messages_of R (db s) @ map content ms)"
  then have "sound_as moved pending ok R t p v \<or> sound_as moved pending ok R t q (v + 1)"
    using S coh by (auto simp: sound_as_def same_scripts_def)
  then show "E e t" using e by (intro E) (auto simp: sound_def)
qed (use S in \<open>simp_all add: sound_as_def\<close>)

end
