(* ===== verification/Resilience.thy ===== *)
theory Resilience
  imports Domain
begin

text \<open>
  \<open>infrastructure/http/resilience\<close>: which failures are retried, the backoff schedule, and the circuit
  breaker. The breaker's clock and the random source are inputs.
\<close>

section \<open>Retry policy\<close>

definition RETRYABLE_CODES :: "string list" where
  "RETRYABLE_CODES = [''ECONNREFUSED'', ''ECONNRESET'', ''ETIMEDOUT'', ''EAI_AGAIN'', ''EPIPE'']"

definition isRetryable :: "FailureShape \<Rightarrow> bool" where
  "isRetryable failure =
     (if timedOut failure then True
      else if (case shape_code failure of Some c \<Rightarrow> c \<noteq> [] \<and> c \<in> set RETRYABLE_CODES | None \<Rightarrow> False) then True
      else (case shape_status failure of None \<Rightarrow> True | Some status \<Rightarrow> status = 429 \<or> status \<ge> 500))"

text \<open>
  \<open>Math.floor(random() * exponential)\<close> where \<open>random()\<close> is \<open>draw / 2 ^ 53\<close>: the product of a
  multiple of \<open>2 ^ - 53\<close> and an integer below \<open>2 ^ 53\<close>, rounded down.
\<close>

record BackoffOptions =
  baseMs :: nat
  maxMs :: nat

definition backoffDelay :: "nat \<Rightarrow> BackoffOptions \<Rightarrow> nat \<Rightarrow> nat" where
  "backoffDelay attempt options draw =
     (let exponential = min (maxMs options) (baseMs options * 2 ^ (attempt - 1))
      in draw * exponential div 2 ^ 53)"

lemma backoffDelay_bound:
  assumes "draw < 2 ^ 53"
  shows "backoffDelay attempt options draw \<le> min (maxMs options) (baseMs options * 2 ^ (attempt - 1))"
proof -
  let ?e = "min (maxMs options) (baseMs options * 2 ^ (attempt - 1))"
  have "draw * ?e div 2 ^ 53 \<le> 2 ^ 53 * ?e div 2 ^ 53"
    using assms by (intro div_le_mono mult_le_mono) simp_all
  also have "\<dots> = ?e"
    by (subst nonzero_mult_div_cancel_left) simp_all
  finally show ?thesis by (simp add: backoffDelay_def Let_def)
qed

section \<open>Circuit breaker\<close>

text \<open>
  The numbers of the options come from the environment and may be anything \<open>Number\<close> gives, so the
  comparisons with them are those of JavaScript: every comparison with \<open>NaN\<close> is false.
\<close>

fun at_least :: "int \<Rightarrow> js_number \<Rightarrow> bool" where
  "at_least n (Dyadic m k) = (m \<le> n * 2 ^ k)"
| "at_least n NaN = False"
| "at_least n (Infinity positive) = (\<not> positive)"

fun below :: "int \<Rightarrow> js_number \<Rightarrow> bool" where
  "below n (Dyadic m k) = (n * 2 ^ k < m)"
| "below n NaN = False"
| "below n (Infinity positive) = positive"

lemma at_least_num [simp]: "at_least n (num i) \<longleftrightarrow> i \<le> n"
  by (simp add: num_def)

lemma below_num [simp]: "below n (num i) \<longleftrightarrow> n < i"
  by (simp add: num_def)

datatype CircuitState = Closed | Open | HalfOpen

record CircuitBreakerOptions =
  failureThreshold :: js_number
  openMs :: js_number
  successThreshold :: js_number

record CircuitBreaker =
  circuit :: CircuitState
  failures :: nat
  successes :: nat
  openedAt :: nat

definition new_breaker :: CircuitBreaker where
  "new_breaker = \<lparr>circuit = Closed, failures = 0, successes = 0, openedAt = 0\<rparr>"

definition onSuccess :: "CircuitBreakerOptions \<Rightarrow> CircuitBreaker \<Rightarrow> CircuitBreaker" where
  "onSuccess opts b =
     (let b = b\<lparr>failures := 0\<rparr> in
      if circuit b = HalfOpen
      then (let b = b\<lparr>successes := successes b + 1\<rparr>
            in if at_least (int (successes b)) (successThreshold opts) then b\<lparr>circuit := Closed\<rparr> else b)
      else b\<lparr>circuit := Closed\<rparr>)"

definition onFailure :: "CircuitBreakerOptions \<Rightarrow> nat \<Rightarrow> CircuitBreaker \<Rightarrow> CircuitBreaker" where
  "onFailure opts now b =
     (let b = b\<lparr>failures := failures b + 1, successes := 0\<rparr>
      in if circuit b = HalfOpen \<or> at_least (int (failures b)) (failureThreshold opts)
         then b\<lparr>circuit := Open, openedAt := now\<rparr> else b)"

definition recordHealthy :: "CircuitBreakerOptions \<Rightarrow> CircuitBreaker \<Rightarrow> CircuitBreaker" where
  "recordHealthy opts b = onSuccess opts b"

text \<open>
  The admission half of \<open>execute\<close>: \<open>None\<close> when the circuit is open and still cooling down.
  A clock that went backwards gives a negative age, which is also below \<open>openMs\<close>.
\<close>

definition admit :: "CircuitBreakerOptions \<Rightarrow> nat \<Rightarrow> CircuitBreaker \<Rightarrow> CircuitBreaker option" where
  "admit opts now b =
     (if circuit b = Open
      then (if below (int now - int (openedAt b)) (openMs opts) then None
            else Some (b\<lparr>circuit := HalfOpen, successes := 0\<rparr>))
      else Some b)"

text \<open>Consecutive outcomes of a closed breaker: it opens at the threshold and not before.\<close>

lemma closed_failures:
  assumes "circuit b = Closed" and "failureThreshold opts = num (int limit)" and "n < limit" and "failures b = 0"
  shows "((onFailure opts now) ^^ n) b
    = (if n = 0 then b else b\<lparr>failures := n, successes := 0\<rparr>)"
  using assms
proof (induction n)
  case (Suc n)
  then show ?case by (cases n) (simp_all add: onFailure_def Let_def)
qed simp

lemma opens_at_threshold:
  assumes "circuit b = Closed" and "failures b = 0" and "failureThreshold opts = num (int limit)" and "0 < limit"
  shows "circuit (((onFailure opts now) ^^ limit) b) = Open"
proof -
  obtain n where n: "limit = Suc n" using assms(4) gr0_implies_Suc by blast
  have "((onFailure opts now) ^^ n) b = (if n = 0 then b else b\<lparr>failures := n, successes := 0\<rparr>)"
    using assms n by (intro closed_failures [where limit = "Suc n"]) simp_all
  then show ?thesis
    using assms n by (auto simp: onFailure_def Let_def)
qed

lemma refusal_leaves_closed:
  "circuit b = Closed \<Longrightarrow> circuit (recordHealthy opts (onFailure opts now b)) = Closed"
  by (simp add: recordHealthy_def onSuccess_def onFailure_def Let_def)

text \<open>One refused probe closes the circuit, whatever the number of successful probes asked for.\<close>

lemma refused_probe_closes:
  "circuit b = HalfOpen \<Longrightarrow> circuit (recordHealthy opts (onFailure opts now b)) = Closed"
  by (simp add: recordHealthy_def onSuccess_def onFailure_def Let_def)

lemma admit_cases:
  "admit opts now b = Some b' \<Longrightarrow> circuit b \<noteq> Open \<or> \<not> below (int now - int (openedAt b)) (openMs opts)"
  by (auto simp: admit_def split: if_splits)

end
