(* ===== verification/Accounts_Client.thy ===== *)
theory Accounts_Client
  imports Resilience Ports Accounts_Ledger
begin

text \<open>
  \<open>AccountsHttpClient\<close> and the network between the two services. Each HTTP exchange takes the
  next entry of the \<open>weather\<close>: requests given up earlier arrive late, the rest of the world acts,
  and then the request is answered, or executed with its reply lost, or lost, or left in flight, or
  the calling process dies. The client sees only replies and failures.
\<close>

section \<open>The network\<close>

datatype failure =
    Broken FailureShape string
  | Throttled
  | ServerError nat string
  | Crash

datatype fate =
    Answered traffic
  | ReplyLost traffic failure
  | RequestLost failure
  | StillInFlight failure

record flight =
  fl_type :: TransactionType
  fl_wallet :: string
  fl_body :: json_object

record exchange =
  arrivals :: "(nat \<times> traffic) list"
  others :: "accounts_db \<Rightarrow> accounts_db"
  shared :: "CircuitBreaker \<Rightarrow> CircuitBreaker"
  exchange_fate :: fate

record client_config =
  credentials :: internal_credentials
  apiKeyHeader :: string
  apiSecretHeader :: string
  timeoutMs :: nat
  maxAttempts :: nat
  breaker_options :: CircuitBreakerOptions

record network =
  config :: client_config
  server :: accounts_db
  in_flight :: "flight list"
  weather :: "nat \<Rightarrow> exchange"
  exchanges :: nat
  breaker :: CircuitBreaker
  breaker_clock :: "nat \<Rightarrow> nat"
  ticks :: nat
  jitter :: "nat \<Rightarrow> nat"
  slept :: "nat list"

fun failure_exn :: "failure \<Rightarrow> exn" where
  "failure_exn (Broken shape msg) = Transport shape msg"
| "failure_exn Throttled = UpstreamHttpError 429 ''RATE_LIMIT_EXCEEDED''"
| "failure_exn (ServerError n msg) = UpstreamHttpError (500 + n) msg"
| "failure_exn Crash = ProcessDied"

text \<open>A movement request as the server handles it, with what it answers.\<close>

definition handle_post :: "client_config \<Rightarrow> traffic \<Rightarrow> flight \<Rightarrow> accounts_db
    \<Rightarrow> (nat \<times> accounts_payload ApiResponse) \<times> accounts_db" where
  "handle_post cfg other f db =
     (case post_movement (credentials cfg) other (fl_type f) (One (apiKeyHeader cfg)) (One (apiSecretHeader cfg))
             (fl_wallet f) (fl_body f) db of
        (r, db') \<Rightarrow> (respond 200 r Operation, db'))"

definition handle_get :: "client_config \<Rightarrow> traffic \<Rightarrow> string \<Rightarrow> string \<Rightarrow> accounts_db
    \<Rightarrow> (nat \<times> accounts_payload ApiResponse) \<times> accounts_db" where
  "handle_get cfg other w k db =
     (case get_movement (credentials cfg) other (One (apiKeyHeader cfg)) (One (apiSecretHeader cfg)) w k db of
        (r, db') \<Rightarrow> (respond 200 r Operation, db'))"

text \<open>The late arrivals of an exchange: each names a request still in flight, which then leaves.\<close>

definition remove_nth :: "nat \<Rightarrow> 'a list \<Rightarrow> 'a list" where
  "remove_nth i xs = take i xs @ drop (Suc i) xs"

fun land :: "(nat \<times> traffic) list \<Rightarrow> network \<Rightarrow> network" where
  "land [] net = net"
| "land ((i, other) # rest) net =
     land rest (if i < length (in_flight net)
       then net\<lparr>server := snd (handle_post (config net) other (in_flight net ! i) (server net)),
                in_flight := remove_nth i (in_flight net)\<rparr>
       else net)"

definition begin_exchange :: "network \<Rightarrow> network" where
  "begin_exchange net =
     (let x = weather net (exchanges net);
          net = land (arrivals x) net
      in net\<lparr>server := others x (server net), breaker := shared x (breaker net),
             exchanges := exchanges net + 1\<rparr>)"

definition http_post :: "flight \<Rightarrow> (network, exn, nat \<times> accounts_payload ApiResponse) prog" where
  "http_post f net =
     (let x = weather net (exchanges net); net = begin_exchange net in
      case exchange_fate x of
        Answered other \<Rightarrow> (case handle_post (config net) other f (server net) of
          (reply, db) \<Rightarrow> (Inr reply, net\<lparr>server := db\<rparr>))
      | ReplyLost other e \<Rightarrow>
          (Inl (failure_exn e), net\<lparr>server := snd (handle_post (config net) other f (server net))\<rparr>)
      | RequestLost e \<Rightarrow> (Inl (failure_exn e), net)
      | StillInFlight e \<Rightarrow> (Inl (failure_exn e), net\<lparr>in_flight := in_flight net @ [f]\<rparr>))"

definition http_get :: "string \<Rightarrow> string \<Rightarrow> (network, exn, nat \<times> accounts_payload ApiResponse) prog" where
  "http_get w k net =
     (let x = weather net (exchanges net); net = begin_exchange net in
      case exchange_fate x of
        Answered other \<Rightarrow> (case handle_get (config net) other w k (server net) of
          (reply, db) \<Rightarrow> (Inr reply, net\<lparr>server := db\<rparr>))
      | ReplyLost other e \<Rightarrow>
          (Inl (failure_exn e), net\<lparr>server := snd (handle_get (config net) other w k (server net))\<rparr>)
      | RequestLost e \<Rightarrow> (Inl (failure_exn e), net)
      | StillInFlight e \<Rightarrow> (Inl (failure_exn e), net))"

section \<open>Reading replies\<close>

definition asDomainError :: "nat \<times> accounts_payload ApiResponse \<Rightarrow> string \<Rightarrow> DomainError option" where
  "asDomainError response w =
     (if fst response < 400 \<or> fst response \<ge> 500 then None
      else (case env_message (snd response) of
          INSUFFICIENT_BALANCE \<Rightarrow> Some (InsufficientBalanceError w)
        | WALLET_NOT_FOUND \<Rightarrow> Some (WalletNotFoundError w)
        | WALLET_FROZEN \<Rightarrow> Some (WalletFrozenError w)
        | CURRENCY_MISMATCH \<Rightarrow> Some (CurrencyMismatchError w)
        | _ \<Rightarrow> None))"

fun response_message_text :: "ResponseMessage \<Rightarrow> string" where
  "response_message_text SUCCESS = ''SUCCESS''"
| "response_message_text CREATED = ''CREATED''"
| "response_message_text VALIDATION_FAILED = ''VALIDATION_FAILED''"
| "response_message_text INSUFFICIENT_BALANCE = ''INSUFFICIENT_BALANCE''"
| "response_message_text WALLET_NOT_FOUND = ''WALLET_NOT_FOUND''"
| "response_message_text TRANSACTION_NOT_FOUND = ''TRANSACTION_NOT_FOUND''"
| "response_message_text USER_NOT_FOUND = ''USER_NOT_FOUND''"
| "response_message_text WALLET_FROZEN = ''WALLET_FROZEN''"
| "response_message_text DUPLICATE_TRANSACTION = ''DUPLICATE_TRANSACTION''"
| "response_message_text IDEMPOTENCY_CONFLICT = ''IDEMPOTENCY_CONFLICT''"
| "response_message_text CURRENCY_MISMATCH = ''CURRENCY_MISMATCH''"
| "response_message_text RATE_LIMIT_EXCEEDED = ''RATE_LIMIT_EXCEEDED''"
| "response_message_text UPSTREAM_UNAVAILABLE = ''UPSTREAM_UNAVAILABLE''"
| "response_message_text INTERNAL_ERROR = ''INTERNAL_ERROR''"

text \<open>
  The payload of a reply. The movement endpoints put a \<open>BalanceOperationResponse\<close> in \<open>data\<close> of a
  success; any other payload there has no \<open>reference\<close> field.
\<close>

definition payload_of :: "nat \<times> accounts_payload ApiResponse \<Rightarrow> exn + accounts_payload" where
  "payload_of response =
     (if fst response \<ge> 400
      then Inl (UpstreamHttpError (fst response) (response_message_text (env_message (snd response))))
      else (case env_data (snd response) of
          None \<Rightarrow> Inl (UpstreamHttpError (fst response) ''empty payload'')
        | Some d \<Rightarrow> Inr d))"

definition toMovementResult :: "accounts_payload \<Rightarrow> exn + MovementResult" where
  "toMovementResult p =
     (let missing = Inl (Plain ''accounts approved a movement without returning its reference'') in
      case p of
        Operation r \<Rightarrow> (case response_reference r of
            None \<Rightarrow> missing
          | Some s \<Rightarrow> if s = [] then missing
              else (case Reference_of TRANSACTION s of
                  Inl e \<Rightarrow> Inl e
                | Inr ref \<Rightarrow> Inr \<lparr>transactionReference = ref, balanceAfter = response_after r\<rparr>))
      | _ \<Rightarrow> missing)"

definition shapeOf :: "exn \<Rightarrow> FailureShape" where
  "shapeOf e = (case e of
     UpstreamHttpError status _ \<Rightarrow> \<lparr>shape_status = Some status, shape_code = None, timedOut = False\<rparr>
   | Transport shape _ \<Rightarrow> (if timedOut shape
        then \<lparr>shape_status = None, shape_code = None, timedOut = True\<rparr> else shape)
   | _ \<Rightarrow> \<lparr>shape_status = None, shape_code = None, timedOut = False\<rparr>)"

text \<open>\<open>error.name\<close>; a transport error is an \<open>AxiosError\<close> or the \<open>TimeoutError\<close> of the pipe.\<close>

fun exn_name :: "exn \<Rightarrow> string" where
  "exn_name (Domain e) = (case e of
     AccountsUnavailableError _ _ \<Rightarrow> ''AccountsUnavailableError''
   | ConcurrentPaymentError _ \<Rightarrow> ''ConcurrentPaymentError''
   | InsufficientBalanceError _ \<Rightarrow> ''InsufficientBalanceError''
   | InvalidTransitionError _ _ \<Rightarrow> ''InvalidTransitionError''
   | PaymentNotFoundError _ \<Rightarrow> ''PaymentNotFoundError''
   | IdempotencyConflictError _ \<Rightarrow> ''IdempotencyConflictError''
   | RequestInProgressError _ \<Rightarrow> ''RequestInProgressError''
   | WalletNotFoundError _ \<Rightarrow> ''WalletNotFoundError''
   | WalletFrozenError _ \<Rightarrow> ''WalletFrozenError''
   | CurrencyMismatchError _ \<Rightarrow> ''CurrencyMismatchError''
   | SameWalletError _ \<Rightarrow> ''SameWalletError'')"
| "exn_name (MalformedReferenceError _ _) = ''MalformedReferenceError''"
| "exn_name (InvalidMoneyError _ _) = ''InvalidMoneyError''"
| "exn_name (UpstreamHttpError _ _) = ''UpstreamHttpError''"
| "exn_name (Transport shape _) = (if timedOut shape then ''TimeoutError'' else ''AxiosError'')"
| "exn_name CircuitOpenError = ''CircuitOpenError''"
| "exn_name (Plain _) = ''Error''"
| "exn_name ProcessDied = []"

definition describe :: "exn \<Rightarrow> string" where
  "describe e = exn_name e @ '': '' @ exn_message e"

section \<open>The client\<close>

definition breaker_now :: "(network, exn, nat) prog" where
  "breaker_now net = (Inr (breaker_clock net (ticks net)), net\<lparr>ticks := ticks net + 1\<rparr>)"

definition on_breaker :: "(CircuitBreakerOptions \<Rightarrow> CircuitBreaker \<Rightarrow> CircuitBreaker) \<Rightarrow> (network, exn, unit) prog" where
  "on_breaker f = writes (\<lambda>net. net\<lparr>breaker := f (breaker_options (config net)) (breaker net)\<rparr>)"

definition execute :: "(network, exn, 'a) prog \<Rightarrow> (network, exn, 'a) prog" where
  "execute work =
     andThen (reads (\<lambda>net. circuit (breaker net) = Open)) (\<lambda>isOpen.
     andThen (if isOpen
              then andThen breaker_now (\<lambda>now.
                   andThen (reads (\<lambda>net. admit (breaker_options (config net)) now (breaker net))) (\<lambda>admitted.
                   case admitted of
                     None \<Rightarrow> throw CircuitOpenError
                   | Some b \<Rightarrow> writes (\<lambda>net. net\<lparr>breaker := b\<rparr>)))
              else ret ()) (\<lambda>_.
     catching
       (andThen work (\<lambda>result. andThen (on_breaker onSuccess) (\<lambda>_. ret result)))
       (\<lambda>error. andThen breaker_now (\<lambda>now.
                 andThen (on_breaker (\<lambda>opts. onFailure opts now)) (\<lambda>_. throw error)))))"

definition sleep_backoff :: "nat \<Rightarrow> (network, exn, unit) prog" where
  "sleep_backoff attempt = writes (\<lambda>net.
     net\<lparr>slept := slept net @
       [backoffDelay attempt \<lparr>baseMs = 100, maxMs = timeoutMs (config net)\<rparr> (jitter net (length (slept net)))]\<rparr>)"

text \<open>
  The loop of \<open>send\<close> with \<open>left\<close> attempts to go, the next being number \<open>attempt\<close>; the last error is
  \<open>None\<close> while it is undefined. With no attempt at all (\<open>maxAttempts = 0\<close>) it throws \<open>undefined\<close>.
\<close>

definition attempt_post :: "flight \<Rightarrow> (network, exn, accounts_payload) prog" where
  "attempt_post f =
     andThen (http_post f) (\<lambda>response.
     (case asDomainError response (fl_wallet f) of
        Some e \<Rightarrow> throw (Domain e)
      | None \<Rightarrow> raiseInl (payload_of response)))"

fun send_loop :: "string \<Rightarrow> flight \<Rightarrow> nat \<Rightarrow> nat \<Rightarrow> exn option \<Rightarrow> (network, exn, accounts_payload) prog" where
  "send_loop operation f attempt 0 lastError =
     throw (case lastError of Some e \<Rightarrow> e | None \<Rightarrow> Plain ''undefined'')"
| "send_loop operation f attempt (Suc left) lastError =
     catching (attempt_post f) (\<lambda>error.
       if isDomainError error
       then (if lastError \<noteq> None
             then throw (Domain (AccountsUnavailableError operation (Some ''refusal after an uncertain attempt'')))
             else throw error)
       else if \<not> isRetryable (shapeOf error) \<or> left = 0 then throw error
       else andThen (sleep_backoff attempt) (\<lambda>_. send_loop operation f (attempt + 1) left (Some error)))"

definition send :: "string \<Rightarrow> flight \<Rightarrow> (network, exn, accounts_payload) prog" where
  "send operation f =
     andThen (reads (\<lambda>net. maxAttempts (config net))) (\<lambda>n. send_loop operation f 1 n None)"

definition attempt_get :: "string \<Rightarrow> string \<Rightarrow> (network, exn, accounts_payload option) prog" where
  "attempt_get w k =
     andThen (http_get w k) (\<lambda>response.
     if fst response = 404 then ret None
     else andThen (raiseInl (payload_of response)) (\<lambda>p. ret (Some p)))"

fun read_loop :: "string \<Rightarrow> string \<Rightarrow> nat \<Rightarrow> nat \<Rightarrow> exn option \<Rightarrow> (network, exn, accounts_payload option) prog" where
  "read_loop w k attempt 0 lastError =
     throw (case lastError of Some e \<Rightarrow> e | None \<Rightarrow> Plain ''undefined'')"
| "read_loop w k attempt (Suc left) lastError =
     catching (attempt_get w k) (\<lambda>error.
       if \<not> isRetryable (shapeOf error) \<or> left = 0 then throw error
       else andThen (sleep_backoff attempt) (\<lambda>_. read_loop w k (attempt + 1) left (Some error)))"

definition read :: "string \<Rightarrow> string \<Rightarrow> (network, exn, accounts_payload option) prog" where
  "read w k = andThen (reads (\<lambda>net. maxAttempts (config net))) (\<lambda>n. read_loop w k 1 n None)"

definition movement_body :: "Money \<Rightarrow> string \<Rightarrow> MovementDetails \<Rightarrow> json_object" where
  "movement_body m k d =
     [(''transaction_id'', String k), (''amount'', Number (num (amount m))),
      (''currency'', String (currency_text (currency m))),
      (''description'', String (details_description d)),
      (''payment_reference'', String (value (details_payment d)))]"

definition movement :: "string \<Rightarrow> TransactionType \<Rightarrow> Reference \<Rightarrow> Money \<Rightarrow> string \<Rightarrow> MovementDetails
    \<Rightarrow> (network, exn, MovementResult) prog" where
  "movement operation type w m k d =
     catching
       (andThen (execute (send operation \<lparr>fl_type = type, fl_wallet = value w, fl_body = movement_body m k d\<rparr>)) (\<lambda>p.
        raiseInl (toMovementResult p)))
       (\<lambda>error.
          if isDomainError error then andThen (on_breaker recordHealthy) (\<lambda>_. throw error)
          else if error = CircuitOpenError
          then throw (Domain (AccountsUnavailableError operation (Some ''circuit open'')))
          else throw (Domain (AccountsUnavailableError operation (Some (describe error)))))"

definition client_debit :: "Reference \<Rightarrow> Money \<Rightarrow> string \<Rightarrow> MovementDetails \<Rightarrow> (network, exn, MovementResult) prog" where
  "client_debit w m k d = movement ''debit'' DEBIT w m k d"

definition client_credit :: "Reference \<Rightarrow> Money \<Rightarrow> string \<Rightarrow> MovementDetails \<Rightarrow> (network, exn, MovementResult) prog" where
  "client_credit w m k d = movement ''credit'' CREDIT w m k d"

definition client_findMovement :: "Reference \<Rightarrow> string \<Rightarrow> (network, exn, MovementResult option) prog" where
  "client_findMovement w k =
     catching
       (andThen (execute (read (value w) k)) (\<lambda>payload. case payload of
          None \<Rightarrow> ret None
        | Some p \<Rightarrow> andThen (raiseInl (toMovementResult p)) (\<lambda>r. ret (Some r))))
       (\<lambda>error.
          if error = CircuitOpenError
          then throw (Domain (AccountsUnavailableError ''find-movement'' (Some ''circuit open'')))
          else throw (Domain (AccountsUnavailableError ''find-movement'' (Some (describe error)))))"

end
