(* ===== verification/Accounts_Contract.thy ===== *)
theory Accounts_Contract
  imports Accounts_Client
begin

text \<open>
  The HTTP client over the network implements \<open>accounts_contract\<close>: the interpretation \<open>wire\<close> at the
  end. The database facts come from the ledger invariant, the rest from following a request through
  the exchange, the retry loop, the circuit breaker and the mapping of replies.
\<close>

section \<open>Movements in the database\<close>

definition fact_of :: "LedgerEntry \<Rightarrow> movement_fact" where
  "fact_of e = (entry_reference e, entry_type e, entry_amount e)"

definition db_moved :: "accounts_db \<Rightarrow> string \<Rightarrow> string \<Rightarrow> movement_fact option" where
  "db_moved db w k = (case lookupBy wallet_reference w (wallets db) of
     None \<Rightarrow> None
   | Some wal \<Rightarrow> map_option fact_of (lookupBy entry_key (wallet_id wal, k) (ledger db)))"

definition flight_issue :: "flight \<Rightarrow> issue" where
  "flight_issue f = (fl_wallet f, transaction_id (BalanceOperationRequest_of (fl_body f)), fl_type f,
     request_amount (BalanceOperationRequest_of (fl_body f)))"

definition net_moved :: "network movements" where
  "net_moved net = db_moved (server net)"

definition net_pending :: "network \<Rightarrow> issue set" where
  "net_pending net = flight_issue ` set (in_flight net)"

definition legit_exchange :: "string set \<Rightarrow> exchange \<Rightarrow> bool" where
  "legit_exchange own x \<longleftrightarrow>
     (\<forall>(i, t) \<in> set (arrivals x). legit own t)
     \<and> legit own (\<lambda>_. others x)
     \<and> (case exchange_fate x of Answered t \<Rightarrow> legit own t | ReplyLost t _ \<Rightarrow> legit own t | _ \<Rightarrow> True)"

definition net_inv :: "string set \<Rightarrow> network \<Rightarrow> bool" where
  "net_inv own net \<longleftrightarrow> accounts_inv (server net) \<and> (\<forall>n. legit_exchange own (weather net n))
     \<and> (\<forall>f \<in> set (in_flight net). fl_type f \<in> {CREDIT, DEBIT})"

abbreviation net_steps :: "string set \<Rightarrow> issue set \<Rightarrow> network \<Rightarrow> network \<Rightarrow> bool" where
  "net_steps own \<equiv> steps net_moved net_pending own"

text \<open>A database step with no request in flight, as a step of the contract.\<close>

definition db_steps :: "string set \<Rightarrow> issue set \<Rightarrow> accounts_db \<Rightarrow> accounts_db \<Rightarrow> bool" where
  "db_steps own = steps db_moved (\<lambda>_. {}) own"

lemma new_wallet_has_no_entry:
  assumes "accounts_inv a" and "accounts_inv b" and "evolves own a b" and "lookupBy wallet_reference w (wallets a) = None"
    and "lookupBy wallet_reference w (wallets b) = Some wal"
  shows "lookupBy entry_key (wallet_id wal, k) (ledger a) = None"
proof (rule ccontr)
  assume "lookupBy entry_key (wallet_id wal, k) (ledger a) \<noteq> None"
  then obtain e where "e \<in> set (ledger a)" "entry_wallet_id e = wallet_id wal"
    using lookupBy_Some by (fastforce simp: entry_key_def)
  then have low: "wallet_id wal < length (wallets a)"
    using assms(1) by (auto simp: accounts_inv_def)
  obtain more where eq: "map wallet_identity (wallets b) = map wallet_identity (wallets a) @ more"
    using assms(3) by (auto simp: evolves_def)
  have ids: "map wallet_id (wallets b) = [0..<length (wallets b)]"
    using assms(2) by (simp add: accounts_inv_def)
  obtain j where j: "j < length (wallets b)" "wallets b ! j = wal"
    using lookupBy_Some [OF assms(5)] by (auto simp: in_set_conv_nth)
  then have "j = wallet_id wal"
    using arg_cong [OF ids, of "\<lambda>xs. xs ! j"] by simp
  then have "wallet_identity (wallets a ! j) = wallet_identity wal"
    using j low arg_cong [OF eq, of "\<lambda>xs. xs ! j"] by (simp add: nth_append)
  moreover have "wallets a ! j \<in> set (wallets a)" using low \<open>j = _\<close> by simp
  moreover have "wallet_reference wal = w" using lookupBy_Some [OF assms(5)] by simp
  ultimately show False using assms(4) by (auto simp: lookupBy_None wallet_identity_def)
qed

lemma evolves_moved:
  assumes "evolves own a b" and "db_moved a w k = Some f"
  shows "db_moved b w k = Some f"
proof -
  obtain wal e where we: "lookupBy wallet_reference w (wallets a) = Some wal"
    "lookupBy entry_key (wallet_id wal, k) (ledger a) = Some e" "f = fact_of e"
    using assms(2) by (auto simp: db_moved_def split: option.splits)
  obtain wal' where "lookupBy wallet_reference w (wallets b) = Some wal'" "wallet_identity wal' = wallet_identity wal"
    using evolves_wallet [OF assms(1) we(1)] by blast
  with evolves_entry [OF assms(1) we(2)] we(3) show ?thesis
    by (simp add: db_moved_def wallet_identity_def)
qed

lemma evolves_not_moved:
  assumes "accounts_inv a" and "accounts_inv b" and "evolves own a b" and "k \<in> own" and "db_moved a w k = None"
  shows "db_moved b w k = None"
proof (cases "lookupBy wallet_reference w (wallets b)")
  case None
  then show ?thesis by (simp add: db_moved_def)
next
  case (Some wal')
  have "lookupBy entry_key (wallet_id wal', k) (ledger a) = None"
  proof (cases "lookupBy wallet_reference w (wallets a)")
    case None
    with new_wallet_has_no_entry [OF assms(1-3) None Some] show ?thesis by simp
  next
    case wal: (Some wal)
    then have "wallet_id wal' = wallet_id wal"
      using evolves_wallet [OF assms(3) wal] Some by (auto simp: wallet_identity_def)
    with assms(5) wal show ?thesis by (simp add: db_moved_def)
  qed
  with evolves_no_entry [OF assms(3)] assms(4) Some show ?thesis by (simp add: db_moved_def)
qed

lemma evolves_steps:
  assumes "accounts_inv a" and "accounts_inv b" and "evolves own a b"
  shows "db_steps own {} a b"
  unfolding db_steps_def steps_def
  using evolves_moved [OF assms(3)] evolves_not_moved [OF assms] by auto

text \<open>A movement that succeeded: one new fact, the one the reply reports.\<close>

lemma evolves_but_one:
  assumes inv: "accounts_inv a" "accounts_inv b" and ev: "evolves (own - {k}) a b"
    and w: "lookupBy wallet_reference w (wallets a) = Some wal"
    and e: "lookupBy entry_key (wallet_id wal, k) (ledger b) = Some e"
    and alt: "evolves own a b \<or> lookupBy entry_key (wallet_id wal, k) (ledger a) = None
       \<and> (\<exists>c. evolves own a c \<and> ledger b = ledger c @ [e])"
  shows "db_moved b w k = Some (fact_of e)" "db_steps own {(w, k, entry_type e, entry_amount e)} a b"
proof -
  obtain wal' where wal': "lookupBy wallet_reference w (wallets b) = Some wal'" "wallet_identity wal' = wallet_identity wal"
    using evolves_wallet [OF ev w] by blast
  then show fact: "db_moved b w k = Some (fact_of e)"
    using e by (simp add: db_moved_def wallet_identity_def)
  show "db_steps own {(w, k, entry_type e, entry_amount e)} a b"
    unfolding db_steps_def steps_def
  proof (intro conjI allI impI)
    fix w' k' f assume "db_moved a w' k' = Some f"
    then show "db_moved b w' k' = Some f" by (rule evolves_moved [OF ev])
  next
    fix w' k' ref t m
    assume own: "k' \<in> own" and none: "db_moved a w' k' = None" and some: "db_moved b w' k' = Some (ref, t, m)"
    from alt show "(w', k', t, m) \<in> {} \<union> {(w, k, entry_type e, entry_amount e)}"
    proof
      assume "evolves own a b"
      with evolves_not_moved [OF inv _ own none] some show ?thesis by simp
    next
      assume "lookupBy entry_key (wallet_id wal, k) (ledger a) = None
        \<and> (\<exists>c. evolves own a c \<and> ledger b = ledger c @ [e])"
      then obtain es where led: "ledger b = (ledger a @ es) @ [e]" "\<forall>x \<in> set es. entry_transaction_id x \<notin> own"
        by (auto simp: evolves_def)
      obtain v x where vx: "lookupBy wallet_reference w' (wallets b) = Some v"
        "lookupBy entry_key (wallet_id v, k') (ledger b) = Some x" "fact_of x = (ref, t, m)"
        using some by (auto simp: db_moved_def split: option.splits)
      have "lookupBy entry_key (wallet_id v, k') (ledger a) = None"
      proof (cases "lookupBy wallet_reference w' (wallets a)")
        case None
        with new_wallet_has_no_entry [OF inv ev None vx(1)] show ?thesis by simp
      next
        case (Some u)
        then have "wallet_id v = wallet_id u"
          using evolves_wallet [OF ev Some] vx(1) by (auto simp: wallet_identity_def)
        with none Some show ?thesis by (simp add: db_moved_def)
      qed
      moreover have "lookupBy entry_key (wallet_id v, k') es = None"
        using led(2) own by (auto simp: lookupBy_None entry_key_def)
      ultimately have x: "x = e" "entry_key e = (wallet_id v, k')"
        using vx(2) led(1) by (auto simp: lookupBy_append split: if_splits)
      then have "k' = k" "wallet_id v = wallet_id wal"
        using lookupBy_Some [OF e] by auto
      then have "v = wal'"
        using vx(1) wal' inv(2) wallet_id_unique [of "wallets b" v wal'] lookupBy_Some
        by (fastforce simp: accounts_inv_def wallet_identity_def)
      then have "w' = w" using lookupBy_Some [OF vx(1)] lookupBy_Some [OF wal'(1)] by simp
      with x \<open>k' = k\<close> vx(3) show ?thesis by (simp add: fact_of_def)
    qed
  qed simp
qed

section \<open>Replies\<close>

text \<open>Whatever an operation of the service throws is answered with a status of at least 400.\<close>

abbreviation fails_visibly :: "'a accounts_prog \<Rightarrow> bool" where
  "fails_visibly m \<equiv> \<forall>db. wp m (\<lambda>_ _. True) (\<lambda>e _. 400 \<le> fst (AllExceptionsFilter (thrown_of e))) db"

lemma visible_andThen: "fails_visibly m \<Longrightarrow> (\<And>x. fails_visibly (k x)) \<Longrightarrow> fails_visibly (andThen m k)"
proof (intro allI)
  fix db assume m: "fails_visibly m" and k: "\<And>x. fails_visibly (k x)"
  have "wp m (\<lambda>_ _. True) (\<lambda>e _. 400 \<le> fst (AllExceptionsFilter (thrown_of e))) db" using m by blast
  then show "wp (andThen m k) (\<lambda>_ _. True) (\<lambda>e _. 400 \<le> fst (AllExceptionsFilter (thrown_of e))) db"
    unfolding wp_andThen by (rule wp_mono) (use k in blast)+
qed

lemma visible_tryCatch: "fails_visibly m \<Longrightarrow> (\<And>e. fails_visibly (throw e :: 'a accounts_prog) \<Longrightarrow> fails_visibly (h e))
    \<Longrightarrow> fails_visibly (tryCatch m h :: 'a accounts_prog)"
proof (intro allI)
  fix db
  assume m: "fails_visibly m" and h: "\<And>e. fails_visibly (throw e :: 'a accounts_prog) \<Longrightarrow> fails_visibly (h e)"
  have "wp m (\<lambda>_ _. True) (\<lambda>e _. 400 \<le> fst (AllExceptionsFilter (thrown_of e))) db" using m by blast
  then show "wp (tryCatch m h) (\<lambda>_ _. True) (\<lambda>e _. 400 \<le> fst (AllExceptionsFilter (thrown_of e))) db"
    unfolding wp_tryCatch by (rule wp_mono) (use h in \<open>auto simp: wp_throw\<close>)
qed

lemma visible_transaction: "fails_visibly m \<Longrightarrow> fails_visibly (transaction m)"
  by (simp add: wp_transaction)

lemma visible_basic:
  "fails_visibly (ret y)" "fails_visibly (reads f)" "fails_visibly (writes g)"
  "fails_visibly (throw (Driver d))" "fails_visibly (freshReference p)"
  "fails_visibly (refuse WalletNotFoundException x)" "fails_visibly (refuse WalletFrozenException x)"
  "fails_visibly (refuse CurrencyMismatchException x)" "fails_visibly (refuse InsufficientBalanceException x)"
  "fails_visibly (refuse IdempotencyConflictException x)" "fails_visibly (refuse ValidationFailedException x)"
  "fails_visibly (refuse MovementNotFoundException x)" "fails_visibly (throw (Refused UnauthorizedInternalCallException))"
  by (simp_all add: wp_simps thrown_of_def app_exception_defs MovementNotFoundException_def)
     (simp add: wp_def freshReference_def split: prod.split)

lemma visible_append: "fails_visibly (append_entry e)"
  by (simp add: wp_def append_entry_def unique_violation_def numeric_out_of_range_def throw_def thrown_of_def Let_def)

lemma visible_move: "fails_visibly (move i d c)"
  by (simp add: wp_def move_def numeric_out_of_range_def throw_def thrown_of_def split: option.split)

lemma visible_if: "fails_visibly m \<Longrightarrow> fails_visibly n \<Longrightarrow> fails_visibly (if b then m else n)"
  by simp

lemma visible_assert: "fails_visibly (assertOperable w r)"
  unfolding assertOperable_def by (intro visible_if visible_basic)

lemma visible_replay: "fails_visibly (replay e r t)"
  unfolding replay_def by (intro visible_if visible_basic)

lemma visible_option: "fails_visibly m \<Longrightarrow> (\<And>x. fails_visibly (g x)) \<Longrightarrow> fails_visibly (case v of None \<Rightarrow> m | Some x \<Rightarrow> g x)"
  by (cases v) simp_all

lemmas visible_intros = visible_andThen visible_tryCatch visible_transaction visible_basic visible_append
  visible_move visible_assert visible_replay visible_if visible_option

lemma visible_applyMovement: "fails_visibly (applyMovement other r request t)"
  unfolding applyMovement_def applyInTransaction_def WalletRepository_findByReference_def findByIdempotencyKey_def Let_def
  by (intro visible_intros)

lemma visible_pipes: "fails_visibly (pipe_reference p v)" "fails_visibly (validated rules body)"
    "fails_visibly (canActivate cfg k s)"
  by (simp_all add: pipe_reference_def validated_def canActivate_def visible_basic split: sum.split list.split)

lemma visible_post: "fails_visibly (post_movement cfg other t k s path body)"
  unfolding post_movement_def credit_def debit_def
  by (intro visible_intros visible_pipes visible_applyMovement)

lemma visible_get: "fails_visibly (get_movement cfg other k s path t)"
  unfolding get_movement_def findMovement_def WalletRepository_findByReference_def findByIdempotencyKey_def
  by (intro visible_intros visible_pipes)

section \<open>One request\<close>

lemma wp_pipe_reference [wp_simps]: "wp (pipe_reference p v) Q E db =
    (if referencePattern (prefix_text p) v then Q v db
     else E (Refused (ValidationFailedException (Some (FieldErrors [''reference''])))) db)"
  by (simp add: pipe_reference_def ReferencePipe_def wp_simps)

lemma wp_canActivate [wp_simps]: "wp (canActivate cfg k s) Q E db =
    (if matches (header_text k) (expectedKey cfg) \<and> matches (header_text s) (expectedSecret cfg) then Q () db
     else E (Refused UnauthorizedInternalCallException) db)"
  by (simp add: canActivate_def wp_simps)

lemma post_movement_steps:
  assumes inv: "accounts_inv db" and legit: "legit own other" and type: "type \<in> {CREDIT, DEBIT}"
    and request: "request = BalanceOperationRequest_of body"
  shows "wp (post_movement cfg other type k s path body)
     (\<lambda>resp db'. accounts_inv db'
        \<and> db_steps own {(path, transaction_id request, type, request_amount request)} db db'
        \<and> (\<exists>ref. response_reference resp = Some ref
             \<and> db_moved db' path (transaction_id request) = Some (ref, type, request_amount request)))
     (\<lambda>e db'. accounts_inv db' \<and> db_steps own {} db db') db"
proof (cases "faulty_fields BalanceOperation_rules body = []")
  case True
  then have pos: "0 < request_amount request"
    unfolding request by (rule valid_movement_amount)
  have "wp (applyMovement other path request type)
     (\<lambda>resp db'. accounts_inv db'
        \<and> db_steps own {(path, transaction_id request, type, request_amount request)} db db'
        \<and> (\<exists>ref. response_reference resp = Some ref
             \<and> db_moved db' path (transaction_id request) = Some (ref, type, request_amount request)))
     (\<lambda>e db'. accounts_inv db' \<and> db_steps own {} db db') db"
  proof (rule wp_mono [OF applyMovement_spec [OF inv legit pos type]], goal_cases)
    case (1 resp db')
    then obtain w e where we: "lookupBy wallet_reference path (wallets db) = Some w"
      "lookupBy entry_key (wallet_id w, transaction_id request) (ledger db') = Some e"
      "same_operation e request type" "resp = approved e"
      "evolves own db db' \<or> lookupBy entry_key (wallet_id w, transaction_id request) (ledger db) = None
         \<and> (\<exists>c. evolves own db c \<and> ledger db' = ledger c @ [e])" by blast
    have "accounts_inv db'" "evolves (own - {transaction_id request}) db db'" using 1 by blast+
    from evolves_but_one [OF inv this we(1,2,5)] we(3,4) \<open>accounts_inv db'\<close> show ?case
      by (simp add: same_operation_def fact_of_def approved_def)
  next
    case (2 e db')
    then show ?case using evolves_steps [OF inv] by blast
  qed
  moreover have "db_steps own {} db db" by (simp add: db_steps_def steps_refl)
  ultimately show ?thesis
    using inv type True
    by (auto simp: post_movement_def wp_simps wp_validated credit_def debit_def request)
next
  case False
  have "db_steps own {} db db" by (simp add: db_steps_def steps_refl)
  with False inv show ?thesis by (simp add: post_movement_def wp_simps wp_validated)
qed

lemma respond_Inr: "respond 200 (Inr x) v = (200, ApiResponse_ok (Some (v x)))"
  by (simp add: respond_def ResponseInterceptor_def)

lemma handle_post_spec:
  assumes "accounts_inv db" and "legit own other" and "fl_type f \<in> {CREDIT, DEBIT}"
    and run: "handle_post cfg other f db = (reply, db')"
  shows "accounts_inv db'" "db_steps own {flight_issue f} db db'"
    "400 \<le> fst reply \<Longrightarrow> db_steps own {} db db'"
    "fst reply < 400 \<Longrightarrow> \<exists>resp ref. env_data (snd reply) = Some (Operation resp) \<and> response_reference resp = Some ref
       \<and> db_moved db' (fl_wallet f) (fst (snd (flight_issue f))) = Some (ref, snd (snd (flight_issue f)))"
proof -
  obtain r where r: "post_movement (credentials cfg) other (fl_type f) (One (apiKeyHeader cfg)) (One (apiSecretHeader cfg))
      (fl_wallet f) (fl_body f) db = (r, db')" "reply = respond 200 r Operation"
    using run by (auto simp: handle_post_def split: prod.splits)
  note spec = post_movement_steps [OF assms(1-3) refl, of "credentials cfg" "One (apiKeyHeader cfg)"
      "One (apiSecretHeader cfg)" "fl_wallet f" "fl_body f"]
  have all: "accounts_inv db' \<and> db_steps own {flight_issue f} db db' \<and> (400 \<le> fst reply \<longrightarrow> db_steps own {} db db')
     \<and> (fst reply < 400 \<longrightarrow> (\<exists>resp ref. env_data (snd reply) = Some (Operation resp) \<and> response_reference resp = Some ref
       \<and> db_moved db' (fl_wallet f) (fst (snd (flight_issue f))) = Some (ref, snd (snd (flight_issue f)))))"
  proof (cases r)
    case (Inl e)
    have "400 \<le> fst reply"
      using wp_throws [OF visible_post [rule_format] r(1) [unfolded Inl]] r(2) Inl by (simp add: respond_def)
    with wp_throws [OF spec r(1) [unfolded Inl]] show ?thesis
      by (auto simp: db_steps_def intro: steps_mono)
  next
    case (Inr resp)
    with wp_returns [OF spec r(1) [unfolded Inr]] r(2) show ?thesis
      by (auto simp: flight_issue_def respond_Inr ApiResponse_ok_def)
  qed
  then show "accounts_inv db'" "db_steps own {flight_issue f} db db'"
    "400 \<le> fst reply \<Longrightarrow> db_steps own {} db db'"
    "fst reply < 400 \<Longrightarrow> \<exists>resp ref. env_data (snd reply) = Some (Operation resp) \<and> response_reference resp = Some ref
       \<and> db_moved db' (fl_wallet f) (fst (snd (flight_issue f))) = Some (ref, snd (snd (flight_issue f)))"
    by blast+
qed

lemma get_movement_spec:
  assumes inv: "accounts_inv db" and legit: "legit own other"
  shows "wp (get_movement cfg other k s path t)
     (\<lambda>resp db'. accounts_inv db' \<and> evolves own db db'
        \<and> (\<exists>ref ty a. response_reference resp = Some ref \<and> db_moved db' path t = Some (ref, ty, a)))
     (\<lambda>e db'. accounts_inv db' \<and> evolves own db db'
        \<and> (fst (AllExceptionsFilter (thrown_of e)) = 404 \<longrightarrow> db_moved db path t = None)) db"
proof (cases "lookupBy wallet_reference path (wallets db)")
  case None
  then show ?thesis
    using inv by (simp add: get_movement_def findMovement_def WalletRepository_findByReference_def wp_simps
        thrown_of_def app_exception_defs db_moved_def)
next
  case (Some w)
  have step: "accounts_inv (other 0 db)" "evolves own db (other 0 db)"
    using legitD [OF legit inv] by blast+
  obtain w' where w': "lookupBy wallet_reference path (wallets (other 0 db)) = Some w'" "wallet_identity w' = wallet_identity w"
    using evolves_wallet [OF step(2) Some] by blast
  have "db_moved db path t = None" if "lookupBy entry_key (wallet_id w, t) (ledger (other 0 db)) = None"
    using that Some evolves_entry [OF step(2), of "(wallet_id w, t)"]
    by (cases "lookupBy entry_key (wallet_id w, t) (ledger db)") (auto simp: db_moved_def)
  then show ?thesis
    using Some inv step w'
    by (auto simp: get_movement_def findMovement_def WalletRepository_findByReference_def findByIdempotencyKey_def
        wp_simps thrown_of_def app_exception_defs MovementNotFoundException_def approved_def db_moved_def fact_of_def
        wallet_identity_def split: option.splits)
qed

lemma handle_get_spec:
  assumes "accounts_inv db" and "legit own other" and run: "handle_get cfg other w k db = (reply, db')"
  shows "accounts_inv db'" "db_steps own {} db db'"
    "fst reply = 404 \<Longrightarrow> db_moved db w k = None"
    "fst reply < 400 \<Longrightarrow> \<exists>resp ref t a. env_data (snd reply) = Some (Operation resp) \<and> response_reference resp = Some ref
       \<and> db_moved db' w k = Some (ref, t, a)"
proof -
  obtain r where r: "get_movement (credentials cfg) other (One (apiKeyHeader cfg)) (One (apiSecretHeader cfg)) w k db = (r, db')"
    "reply = respond 200 r Operation"
    using run by (auto simp: handle_get_def split: prod.splits)
  note spec = get_movement_spec [OF assms(1,2), of "credentials cfg" "One (apiKeyHeader cfg)" "One (apiSecretHeader cfg)" w k]
  have all: "accounts_inv db' \<and> evolves own db db' \<and> (fst reply = 404 \<longrightarrow> db_moved db w k = None)
    \<and> (fst reply < 400 \<longrightarrow> (\<exists>resp ref t a. env_data (snd reply) = Some (Operation resp) \<and> response_reference resp = Some ref
       \<and> db_moved db' w k = Some (ref, t, a)))"
  proof (cases r)
    case (Inl e)
    have "400 \<le> fst reply"
      using wp_throws [OF visible_get [rule_format] r(1) [unfolded Inl]] r(2) Inl by (simp add: respond_def)
    with wp_throws [OF spec r(1) [unfolded Inl]] r(2) Inl show ?thesis by (auto simp: respond_def)
  next
    case (Inr resp)
    with wp_returns [OF spec r(1) [unfolded Inr]] r(2) show ?thesis
      by (auto simp: respond_Inr ApiResponse_ok_def)
  qed
  then show "accounts_inv db'" "db_steps own {} db db'"
    "fst reply = 404 \<Longrightarrow> db_moved db w k = None"
    "fst reply < 400 \<Longrightarrow> \<exists>resp ref t a. env_data (snd reply) = Some (Operation resp) \<and> response_reference resp = Some ref
       \<and> db_moved db' w k = Some (ref, t, a)"
    using evolves_steps [OF assms(1)] by blast+
qed

section \<open>One exchange\<close>

lemma net_steps_lift:
  assumes "db_steps own I (server a) (server b)" and "net_pending b \<subseteq> net_pending a \<union> J" and "I \<subseteq> net_pending a \<union> J"
  shows "net_steps own J a b"
  using assms unfolding db_steps_def steps_def net_moved_def by blast

lemma net_steps_quiet:
  "server b = server a \<Longrightarrow> in_flight b = in_flight a \<Longrightarrow> net_steps own J a b"
  by (rule net_steps_lift [of own "{}"]) (simp_all add: db_steps_def steps_refl net_pending_def)

lemma net_inv_quiet:
  "server b = server a \<Longrightarrow> in_flight b = in_flight a \<Longrightarrow> weather b = weather a \<Longrightarrow> net_inv own b = net_inv own a"
  by (simp add: net_inv_def)

lemma set_remove_nth: "set (remove_nth i xs) \<subseteq> set xs"
  unfolding remove_nth_def using set_take_subset set_drop_subset by fastforce

lemma land_spec:
  assumes "net_inv own net" and "\<forall>(i, t) \<in> set arr. legit own t"
  shows "net_inv own (land arr net)" "net_steps own {} net (land arr net)" "weather (land arr net) = weather net"
proof -
  have "net_inv own (land arr net) \<and> net_steps own {} net (land arr net) \<and> weather (land arr net) = weather net"
    using assms
  proof (induction arr arbitrary: net)
    case (Cons x arr)
    obtain i t where x: "x = (i, t)" by fastforce
    show ?case
    proof (cases "i < length (in_flight net)")
      case False
      then show ?thesis using Cons x by simp
    next
      case True
      let ?f = "in_flight net ! i"
      let ?net = "net\<lparr>server := snd (handle_post (config net) t ?f (server net)), in_flight := remove_nth i (in_flight net)\<rparr>"
      have legit: "legit own t" and inv: "accounts_inv (server net)"
        and f: "?f \<in> set (in_flight net)" "fl_type ?f \<in> {CREDIT, DEBIT}"
        using Cons.prems x True by (auto simp: net_inv_def)
      obtain reply db where run: "handle_post (config net) t ?f (server net) = (reply, db)" by fastforce
      note spec = handle_post_spec [OF inv legit f(2) run]
      have "net_inv own ?net"
        using Cons.prems(1) spec(1) run set_remove_nth by (fastforce simp: net_inv_def)
      moreover have "net_steps own {} net ?net"
        by (rule net_steps_lift [OF _ _ , of own "{flight_issue ?f}"])
           (use spec(2) run f(1) in \<open>auto simp: net_pending_def dest: set_remove_nth [THEN subsetD]\<close>)
      ultimately show ?thesis
        using Cons.IH [of ?net] Cons.prems(2) x True steps_trans [of net_moved net_pending own "{}" net ?net "{}"]
        by auto
    qed
  qed (simp add: steps_refl)
  then show "net_inv own (land arr net)" "net_steps own {} net (land arr net)" "weather (land arr net) = weather net"
    by blast+
qed

lemma begin_exchange_spec:
  assumes inv: "net_inv own net"
  shows "net_inv own (begin_exchange net)" "net_steps own {} net (begin_exchange net)"
    "weather (begin_exchange net) = weather net"
proof -
  let ?x = "weather net (exchanges net)"
  let ?net = "land (arrivals ?x) net"
  have x: "legit_exchange own ?x" using inv by (simp add: net_inv_def)
  then have arr: "\<forall>(i, t) \<in> set (arrivals ?x). legit own t" by (simp add: legit_exchange_def)
  note land = land_spec [OF inv arr]
  have db: "accounts_inv (server ?net)" using land(1) by (simp add: net_inv_def)
  have o: "accounts_inv (others ?x (server ?net))" "evolves own (server ?net) (others ?x (server ?net))"
    using x db by (auto simp: legit_exchange_def legit_def)
  show "net_inv own (begin_exchange net)" "weather (begin_exchange net) = weather net"
    using land o(1) by (auto simp: begin_exchange_def Let_def net_inv_def)
  have "net_steps own {} ?net (begin_exchange net)"
    by (rule net_steps_lift [OF _ _ , of own "{}"])
       (use evolves_steps [OF db o] in \<open>auto simp: begin_exchange_def Let_def net_pending_def\<close>)
  with steps_trans [OF land(2)] show "net_steps own {} net (begin_exchange net)" by fastforce
qed

text \<open>The reply of a post, as the loop of \<open>send\<close> uses it.\<close>

definition confirms :: "network \<Rightarrow> flight \<Rightarrow> accounts_payload \<Rightarrow> bool" where
  "confirms net f p \<longleftrightarrow> (\<exists>resp ref. p = Operation resp \<and> response_reference resp = Some ref
     \<and> net_moved net (fl_wallet f) (fst (snd (flight_issue f))) = Some (ref, snd (snd (flight_issue f))))"

lemma failure_exn_not_domain: "\<not> isDomainError (failure_exn e)"
  by (cases e) simp_all

lemma http_post_spec:
  assumes inv: "net_inv own net" and f: "fl_type f \<in> {CREDIT, DEBIT}"
  shows "wp (http_post f)
     (\<lambda>reply net'. net_inv own net' \<and> net_steps own {flight_issue f} net net'
        \<and> (400 \<le> fst reply \<longrightarrow> net_steps own {} net net')
        \<and> (fst reply < 400 \<longrightarrow> (\<exists>p. env_data (snd reply) = Some p \<and> confirms net' f p)))
     (\<lambda>e net'. net_inv own net' \<and> net_steps own {flight_issue f} net net' \<and> \<not> isDomainError e) net"
proof -
  let ?x = "weather net (exchanges net)"
  let ?b = "begin_exchange net"
  note b = begin_exchange_spec [OF inv]
  have binv: "accounts_inv (server ?b)" using b(1) by (simp add: net_inv_def)
  have x: "legit_exchange own ?x" using inv by (simp add: net_inv_def)
  have after: "net_steps own J net c" if "net_steps own J ?b c" for J c
    using steps_trans [OF b(2) that] by simp
  have server: "net_inv own (?b\<lparr>server := db\<rparr>)" if "accounts_inv db" for db
    using that b(1) by (simp add: net_inv_def)
  have lift: "net_steps own J ?b (?b\<lparr>server := db\<rparr>)" if "db_steps own J (server ?b) db" for J db
    by (rule net_steps_lift [of own J]) (use that in \<open>auto simp: net_pending_def\<close>)
  show ?thesis
  proof (cases "exchange_fate ?x")
    case (Answered t)
    then have t: "legit own t" using x by (simp add: legit_exchange_def)
    obtain reply db where run: "handle_post (config ?b) t f (server ?b) = (reply, db)" by fastforce
    note spec = handle_post_spec [OF binv t f run]
    show ?thesis
      using Answered run spec server [OF spec(1)] after [OF lift [OF spec(2)]] after [OF lift [OF spec(3)]]
      by (auto simp: wp_def http_post_def Let_def confirms_def net_moved_def)
  next
    case (ReplyLost t e)
    then have t: "legit own t" using x by (simp add: legit_exchange_def)
    obtain reply db where run: "handle_post (config ?b) t f (server ?b) = (reply, db)" by fastforce
    note spec = handle_post_spec [OF binv t f run]
    show ?thesis
      using ReplyLost run server [OF spec(1)] after [OF lift [OF spec(2)]] failure_exn_not_domain
      by (auto simp: wp_def http_post_def Let_def)
  next
    case (RequestLost e)
    then show ?thesis
      using b(1) after [OF steps_refl] failure_exn_not_domain by (auto simp: wp_def http_post_def Let_def)
  next
    case (StillInFlight e)
    let ?n = "?b\<lparr>in_flight := in_flight ?b @ [f]\<rparr>"
    have "net_steps own {flight_issue f} ?b ?n"
      by (rule net_steps_lift [of own "{}"]) (auto simp: db_steps_def steps_refl net_pending_def)
    moreover have "net_inv own ?n" using b(1) f by (auto simp: net_inv_def)
    ultimately show ?thesis
      using StillInFlight after failure_exn_not_domain by (auto simp: wp_def http_post_def Let_def)
  qed
qed

lemma http_get_spec:
  assumes inv: "net_inv own net"
  shows "wp (http_get w k)
     (\<lambda>reply net'. net_inv own net' \<and> net_steps own {} net net'
        \<and> (fst reply = 404 \<longrightarrow> net_moved net w k = None)
        \<and> (fst reply < 400 \<longrightarrow> (\<exists>resp ref t a. env_data (snd reply) = Some (Operation resp)
             \<and> response_reference resp = Some ref \<and> net_moved net' w k = Some (ref, t, a))))
     (\<lambda>e net'. net_inv own net' \<and> net_steps own {} net net' \<and> \<not> isDomainError e) net"
proof -
  let ?x = "weather net (exchanges net)"
  let ?b = "begin_exchange net"
  note b = begin_exchange_spec [OF inv]
  have binv: "accounts_inv (server ?b)" using b(1) by (simp add: net_inv_def)
  have x: "legit_exchange own ?x" using inv by (simp add: net_inv_def)
  have none: "net_moved net w k = None" if "net_moved ?b w k = None"
    using that steps_keep [OF b(2), of w k] by (cases "net_moved net w k") auto
  have server: "net_inv own (?b\<lparr>server := db\<rparr>)" if "accounts_inv db" for db
    using that b(1) by (simp add: net_inv_def)
  have lift: "net_steps own {} net (?b\<lparr>server := db\<rparr>)" if db: "db_steps own {} (server ?b) db" for db
  proof -
    have "net_steps own {} ?b (?b\<lparr>server := db\<rparr>)"
      by (rule net_steps_lift [of own "{}"]) (use db in \<open>auto simp: net_pending_def\<close>)
    with steps_trans [OF b(2)] show ?thesis by fastforce
  qed
  show ?thesis
  proof (cases "exchange_fate ?x")
    case (Answered t)
    then have t: "legit own t" using x by (simp add: legit_exchange_def)
    obtain reply db where run: "handle_get (config ?b) t w k (server ?b) = (reply, db)" by fastforce
    note spec = handle_get_spec [OF binv t run]
    show ?thesis
      using Answered run spec server [OF spec(1)] lift [OF spec(2)] none
      by (auto simp: wp_def http_get_def Let_def net_moved_def)
  next
    case (ReplyLost t e)
    then have t: "legit own t" using x by (simp add: legit_exchange_def)
    obtain reply db where run: "handle_get (config ?b) t w k (server ?b) = (reply, db)" by fastforce
    note spec = handle_get_spec [OF binv t run]
    show ?thesis
      using ReplyLost run server [OF spec(1)] lift [OF spec(2)] failure_exn_not_domain
      by (auto simp: wp_def http_get_def Let_def)
  next
    case (RequestLost e)
    then show ?thesis
      using b(1,2) failure_exn_not_domain by (auto simp: wp_def http_get_def Let_def)
  next
    case (StillInFlight e)
    then show ?thesis
      using b(1,2) failure_exn_not_domain by (auto simp: wp_def http_get_def Let_def)
  qed
qed

section \<open>The client\<close>

lemma payload_of_Inr:
  "payload_of reply = Inr p \<longleftrightarrow> fst reply < 400 \<and> env_data (snd reply) = Some p"
  by (auto simp: payload_of_def split: option.splits)

lemma payload_of_Inl: "payload_of reply = Inl e \<Longrightarrow> \<not> isDomainError e"
  by (auto simp: payload_of_def split: if_splits option.splits)

lemma is_refusal_domain: "is_refusal e \<Longrightarrow> isDomainError e"
  by (cases e) simp_all

lemma asDomainError_status: "asDomainError reply w = Some e \<Longrightarrow> 400 \<le> fst reply \<and> is_refusal (Domain e)"
  by (auto simp: asDomainError_def split: if_splits ResponseMessage.splits)

definition sent_ok :: "string set \<Rightarrow> network \<Rightarrow> flight \<Rightarrow> accounts_payload \<Rightarrow> network \<Rightarrow> bool" where
  "sent_ok own net f p net' \<longleftrightarrow> net_inv own net' \<and> net_steps own {flight_issue f} net net' \<and> confirms net' f p"

definition sent_failed :: "string set \<Rightarrow> network \<Rightarrow> flight \<Rightarrow> exn \<Rightarrow> network \<Rightarrow> bool" where
  "sent_failed own net f e net' \<longleftrightarrow> net_inv own net' \<and> net_steps own {flight_issue f} net net'
     \<and> (is_refusal e \<longrightarrow> net_steps own {} net net')"

lemma attempt_post_spec:
  assumes "net_inv own net" and "fl_type f \<in> {CREDIT, DEBIT}"
  shows "wp (attempt_post f) (sent_ok own net f)
     (\<lambda>e net'. sent_failed own net f e net' \<and> (isDomainError e \<longrightarrow> is_refusal e)) net"
  unfolding attempt_post_def wp_andThen
proof (rule wp_mono [OF http_post_spec [OF assms]], goal_cases)
  case (1 reply net')
  show ?case
  proof (cases "asDomainError reply (fl_wallet f)")
    case (Some e)
    with 1 asDomainError_status [OF Some] show ?thesis
      by (simp add: wp_simps sent_failed_def)
  next
    case None
    with 1 show ?thesis
      by (auto simp: wp_simps sent_ok_def sent_failed_def payload_of_Inr split: sum.split
          dest: payload_of_Inl is_refusal_domain)
  qed
next
  case (2 e net')
  then show ?case by (auto simp: sent_failed_def dest: is_refusal_domain)
qed

lemma quiet_backoff: "server (net\<lparr>slept := x\<rparr>) = server net" "in_flight (net\<lparr>slept := x\<rparr>) = in_flight net"
  by simp_all

lemma sent_after:
  assumes "net_inv own net'" and "net_steps own {flight_issue f} net net'"
  shows "sent_ok own net' f p n \<Longrightarrow> sent_ok own net f p n"
    and "sent_failed own net' f e n \<Longrightarrow> \<not> is_refusal e \<Longrightarrow> sent_failed own net f e n"
  using steps_trans [OF assms(2), of "{flight_issue f}" n]
  by (simp_all add: sent_ok_def sent_failed_def)

lemma send_loop_spec:
  assumes "net_inv own net" and f: "fl_type f \<in> {CREDIT, DEBIT}" and "\<forall>x. prev = Some x \<longrightarrow> \<not> isDomainError x"
  shows "wp (send_loop operation f attempt left prev) (sent_ok own net f)
     (\<lambda>e net'. sent_failed own net f e net' \<and> (is_refusal e \<longrightarrow> prev = None)
        \<and> (isDomainError e \<longrightarrow> is_refusal e \<or> is_unavailable e)) net"
  using assms(1,3)
proof (induction left arbitrary: attempt prev net)
  case 0
  then show ?case
    by (auto simp: wp_simps sent_failed_def steps_refl dest: is_refusal_domain split: option.split)
next
  case (Suc left)
  show ?case
    unfolding send_loop.simps wp_catching
  proof (rule wp_mono [OF attempt_post_spec [OF Suc.prems(1) f]], goal_cases)
    case (2 e net')
    let ?net = "net'\<lparr>slept := slept net' @
       [backoffDelay attempt \<lparr>baseMs = 100, maxMs = timeoutMs (config net')\<rparr> (jitter net' (length (slept net')))]\<rparr>"
    have retry: "wp (send_loop operation f (attempt + 1) left (Some e)) (sent_ok own net f)
       (\<lambda>e net'. sent_failed own net f e net' \<and> (is_refusal e \<longrightarrow> prev = None)
          \<and> (isDomainError e \<longrightarrow> is_refusal e \<or> is_unavailable e)) ?net"
      if "\<not> isDomainError e"
    proof -
      have inv: "net_inv own ?net"
        using 2 by (simp add: sent_failed_def net_inv_def)
      have step: "net_steps own {flight_issue f} net ?net"
        using 2 steps_trans [of net_moved net_pending own "{flight_issue f}" net net' "{}" ?net]
          net_steps_quiet [of ?net net' own "{}"] by (simp add: sent_failed_def)
      show ?thesis
        by (rule wp_mono [OF Suc.IH [OF inv]]) (use that sent_after [OF inv step] in auto)
    qed
    show ?case
    proof (cases "isDomainError e")
      case True
      with 2 show ?thesis by (auto simp: wp_simps sent_failed_def)
    next
      case False
      then have "\<not> is_refusal e" using is_refusal_domain by blast
      with False 2 retry [OF False] show ?thesis
        by (cases "e = ProcessDied") (simp_all add: wp_throw wp_andThen wp_writes wp_if sleep_backoff_def)
    qed
  qed simp
qed

lemma quiet_breaker:
  "server (net\<lparr>breaker := b\<rparr>) = server net" "in_flight (net\<lparr>breaker := b\<rparr>) = in_flight net"
  "server (net\<lparr>ticks := t\<rparr>) = server net" "in_flight (net\<lparr>ticks := t\<rparr>) = in_flight net"
  by simp_all

text \<open>Predicates on what the contract observes of the network.\<close>

definition observes :: "(network \<Rightarrow> bool) \<Rightarrow> bool" where
  "observes P \<longleftrightarrow> (\<forall>a b. server a = server b \<longrightarrow> in_flight a = in_flight b \<longrightarrow> weather a = weather b \<longrightarrow> P a = P b)"

lemma observesD: "observes P \<Longrightarrow> P (net\<lparr>breaker := b\<rparr>) = P net" "observes P \<Longrightarrow> P (net\<lparr>ticks := t\<rparr>) = P net"
  unfolding observes_def
  by (drule spec [of _ "net\<lparr>breaker := b\<rparr>"], drule spec [of _ net], simp,
      drule spec [of _ "net\<lparr>ticks := t\<rparr>"], drule spec [of _ net], simp)

lemma wp_breaker_now: "wp breaker_now Q E net = Q (breaker_clock net (ticks net)) (net\<lparr>ticks := ticks net + 1\<rparr>)"
  by (simp add: breaker_now_def wp_def)

lemma wp_on_breaker: "wp (on_breaker f) Q E net = Q () (net\<lparr>breaker := f (breaker_options (config net)) (breaker net)\<rparr>)"
  by (simp add: on_breaker_def wp_simps)

lemma execute_spec:
  assumes work: "\<And>n. server n = server net \<Longrightarrow> in_flight n = in_flight net \<Longrightarrow> weather n = weather net \<Longrightarrow> wp work Q E n"
    and Q: "\<And>x. observes (Q x)" and E: "\<And>e. observes (E e)" and "E CircuitOpenError net"
  shows "wp (execute work) Q E net"
proof -
  have main: "wp (catching
       (andThen work (\<lambda>result. andThen (on_breaker onSuccess) (\<lambda>_. ret result)))
       (\<lambda>error. andThen breaker_now (\<lambda>now.
                 andThen (on_breaker (\<lambda>opts. onFailure opts now)) (\<lambda>_. throw error)))) Q E n"
    if "server n = server net" "in_flight n = in_flight net" "weather n = weather net" for n
    unfolding wp_catching wp_andThen
    by (rule wp_mono [OF work [OF that]])
       (auto simp: wp_ret wp_throw wp_on_breaker wp_breaker_now observesD Q E)
  have refused: "E CircuitOpenError (net\<lparr>ticks := t\<rparr>)" for t
    using assms(4) E observesD by blast
  show ?thesis
    by (simp add: execute_def wp_andThen wp_reads wp_if wp_ret wp_throw wp_writes wp_breaker_now main refused
        del: wp_catching split: option.split)
qed

lemma observes_sent: "observes (sent_ok own net f p)" "observes (sent_failed own net f e)"
  unfolding observes_def sent_ok_def sent_failed_def net_inv_def confirms_def net_moved_def steps_def net_pending_def
  by (intro allI impI; simp)+

lemma sent_from_quiet:
  assumes "server n = server net" "in_flight n = in_flight net" "weather n = weather net"
  shows "sent_ok own n f p n' \<Longrightarrow> sent_ok own net f p n'" "sent_failed own n f e n' \<Longrightarrow> sent_failed own net f e n'"
    "net_inv own n = net_inv own net"
  using assms
  unfolding sent_ok_def sent_failed_def net_inv_def confirms_def net_moved_def steps_def net_pending_def by simp_all

lemma execute_send_spec:
  assumes inv: "net_inv own net" and f: "fl_type f \<in> {CREDIT, DEBIT}"
  shows "wp (execute (send operation f)) (sent_ok own net f)
     (\<lambda>e net'. sent_failed own net f e net' \<and> (isDomainError e \<longrightarrow> is_refusal e \<or> is_unavailable e)) net"
proof (rule execute_spec)
  fix n :: network assume q: "server n = server net" "in_flight n = in_flight net" "weather n = weather net"
  have "net_inv own n" using inv sent_from_quiet(3) [OF q] by simp
  then show "wp (send operation f) (sent_ok own net f)
     (\<lambda>e net'. sent_failed own net f e net' \<and> (isDomainError e \<longrightarrow> is_refusal e \<or> is_unavailable e)) n"
    unfolding send_def wp_andThen wp_reads
    by (rule wp_mono [OF send_loop_spec [OF _ f]]) (use sent_from_quiet [OF q] in auto)
next
  show "observes (sent_ok own net f x)" for x by (rule observes_sent)
next
  show "observes (\<lambda>net'. sent_failed own net f e net' \<and> (isDomainError e \<longrightarrow> is_refusal e \<or> is_unavailable e))" for e
    using observes_sent(2) [of own net f e] unfolding observes_def by blast
next
  show "sent_failed own net f CircuitOpenError net
      \<and> (isDomainError CircuitOpenError \<longrightarrow> is_refusal CircuitOpenError \<or> is_unavailable CircuitOpenError)"
    using inv by (simp add: sent_failed_def steps_refl)
qed

lemma toMovementResult_Operation:
  assumes "response_reference resp = Some ref" and "toMovementResult (Operation resp) = Inr res"
  shows "wf_ref TRANSACTION (transactionReference res)" "value (transactionReference res) = ref"
  using assms by (auto simp: toMovementResult_def Let_def wf_ref_def split: if_splits sum.splits)

lemma toMovementResult_Inl: "toMovementResult p = Inl e \<Longrightarrow> \<not> isDomainError e \<and> e \<noteq> CircuitOpenError \<and> e \<noteq> ProcessDied"
  by (auto simp: toMovementResult_def Let_def split: accounts_payload.splits option.splits if_splits sum.splits)

lemma movement_issue:
  "flight_issue \<lparr>fl_type = t, fl_wallet = w, fl_body = movement_body m k d\<rparr> = (w, k, t, amount m)"
  by (simp add: flight_issue_def movement_body_def BalanceOperationRequest_of_def property_of_def)

lemma movement_spec_net:
  assumes inv: "net_inv own net" and t: "t \<in> {CREDIT, DEBIT}"
  shows "wp (movement operation t w m k d)
     (\<lambda>res net'. net_inv own net' \<and> net_steps own {(value w, k, t, amount m)} net net'
        \<and> wf_ref TRANSACTION (transactionReference res)
        \<and> net_moved net' (value w) k = Some (value (transactionReference res), t, amount m))
     (\<lambda>e net'. net_inv own net' \<and> net_steps own {(value w, k, t, amount m)} net net'
        \<and> (is_refusal e \<longrightarrow> net_steps own {} net net')
        \<and> (is_refusal e \<or> is_unavailable e \<or> e = ProcessDied)) net"
proof -
  let ?f = "\<lparr>fl_type = t, fl_wallet = value w, fl_body = movement_body m k d\<rparr>"
  have f: "fl_type ?f \<in> {CREDIT, DEBIT}" using t by simp
  show ?thesis
    unfolding movement_def wp_catching wp_andThen
  proof (rule wp_mono [OF execute_send_spec [OF inv f]], goal_cases)
    case (1 p net')
    then obtain resp ref where p: "p = Operation resp" "response_reference resp = Some ref"
      "net_moved net' (value w) k = Some (ref, t, amount m)"
      by (auto simp: sent_ok_def confirms_def movement_issue)
    with 1 show ?case
    proof (cases "toMovementResult p")
      case (Inl e)
      with 1 toMovementResult_Inl [OF Inl] show ?thesis
        by (simp add: wp_raiseInl wp_throw wp_if sent_ok_def movement_issue)
    next
      case (Inr res)
      with 1 p toMovementResult_Operation [OF p(2), of res] show ?thesis
        by (simp add: wp_raiseInl sent_ok_def movement_issue)
    qed
  next
    case (2 e net')
    let ?n = "net'\<lparr>breaker := recordHealthy (breaker_options (config net')) (breaker net')\<rparr>"
    have n: "sent_failed own net ?f e ?n"
      using 2 observesD [OF observes_sent(2)] by blast
    show ?case
      using 2 n by (auto simp: wp_if wp_throw wp_andThen wp_on_breaker sent_failed_def movement_issue)
  qed
qed

section \<open>Looking a movement up\<close>

definition read_ok :: "string set \<Rightarrow> network \<Rightarrow> string \<Rightarrow> string \<Rightarrow> accounts_payload option \<Rightarrow> network \<Rightarrow> bool" where
  "read_ok own net w k found net' \<longleftrightarrow> net_inv own net' \<and> net_steps own {} net net'
     \<and> (case found of None \<Rightarrow> net_moved net w k = None
         | Some p \<Rightarrow> (\<exists>resp ref t a. p = Operation resp \<and> response_reference resp = Some ref
             \<and> net_moved net' w k = Some (ref, t, a)))"

definition read_failed :: "string set \<Rightarrow> network \<Rightarrow> exn \<Rightarrow> network \<Rightarrow> bool" where
  "read_failed own net e net' \<longleftrightarrow> net_inv own net' \<and> net_steps own {} net net' \<and> \<not> isDomainError e"

lemma attempt_get_spec:
  assumes "net_inv own net"
  shows "wp (attempt_get w k) (read_ok own net w k) (read_failed own net) net"
  unfolding attempt_get_def wp_andThen
proof (rule wp_mono [OF http_get_spec [OF assms]], goal_cases)
  case (1 reply net')
  then show ?case
    by (auto simp: wp_if wp_ret wp_andThen wp_raiseInl read_ok_def read_failed_def payload_of_Inr
        split: sum.split dest: payload_of_Inl)
next
  case (2 e net')
  then show ?case by (simp add: read_failed_def)
qed

lemma read_after:
  assumes "net_steps own {} net net'"
  shows "read_ok own net' w k p n \<Longrightarrow> read_ok own net w k p n"
    and "read_failed own net' e n \<Longrightarrow> read_failed own net e n"
proof -
  have t: "net_steps own {} net' n \<Longrightarrow> net_steps own {} net n" using steps_trans [OF assms] by fastforce
  have "net_moved net' w k = None \<Longrightarrow> net_moved net w k = None"
    using steps_keep [OF assms, of w k] by (cases "net_moved net w k") auto
  with t show "read_ok own net' w k p n \<Longrightarrow> read_ok own net w k p n"
    by (auto simp: read_ok_def split: option.splits)
  from t show "read_failed own net' e n \<Longrightarrow> read_failed own net e n"
    by (simp add: read_failed_def)
qed

lemma read_loop_spec:
  assumes "net_inv own net" and "\<forall>x. prev = Some x \<longrightarrow> \<not> isDomainError x"
  shows "wp (read_loop w k attempt left prev) (read_ok own net w k) (read_failed own net) net"
  using assms
proof (induction left arbitrary: attempt prev net)
  case 0
  then show ?case by (auto simp: wp_throw read_failed_def steps_refl split: option.split)
next
  case (Suc left)
  show ?case
    unfolding read_loop.simps wp_catching
  proof (rule wp_mono [OF attempt_get_spec [OF Suc.prems(1)]], goal_cases)
    case (2 e net')
    let ?net = "net'\<lparr>slept := slept net' @
       [backoffDelay attempt \<lparr>baseMs = 100, maxMs = timeoutMs (config net')\<rparr> (jitter net' (length (slept net')))]\<rparr>"
    have inv: "net_inv own ?net" and nd: "\<not> isDomainError e"
      using 2 by (simp_all add: read_failed_def net_inv_def)
    have "net_steps own {} net' ?net" by (rule net_steps_quiet) simp_all
    then have step: "net_steps own {} net ?net"
      using 2 steps_trans [of net_moved net_pending own "{}" net net' "{}" ?net] by (simp add: read_failed_def)
    have "wp (read_loop w k (attempt + 1) left (Some e)) (read_ok own net w k) (read_failed own net) ?net"
      by (rule wp_mono [OF Suc.IH [OF inv]]) (use nd read_after [OF step] in auto)
    with 2 show ?case
      by (cases "e = ProcessDied") (simp_all add: wp_throw wp_andThen wp_writes wp_if sleep_backoff_def)
  qed simp
qed

lemma observes_read: "observes (read_ok own net w k p)" "observes (read_failed own net e)"
  unfolding observes_def read_ok_def read_failed_def net_inv_def net_moved_def steps_def net_pending_def
  by (cases p; intro allI impI; simp) (intro allI impI; simp)

lemma findMovement_spec_net:
  assumes inv: "net_inv own net"
  shows "wp (client_findMovement w k)
     (\<lambda>res net'. net_inv own net' \<and> net_steps own {} net net'
        \<and> (case res of None \<Rightarrow> net_moved net (value w) k = None
            | Some m \<Rightarrow> wf_ref TRANSACTION (transactionReference m)
                \<and> (\<exists>t a. net_moved net' (value w) k = Some (value (transactionReference m), t, a))))
     (\<lambda>e net'. net_inv own net' \<and> net_steps own {} net net' \<and> (is_unavailable e \<or> e = ProcessDied)) net"
proof -
  have exec: "wp (execute (read (value w) k)) (read_ok own net (value w) k) (read_failed own net) net"
  proof (rule execute_spec)
    fix n :: network assume q: "server n = server net" "in_flight n = in_flight net" "weather n = weather net"
    then have n: "net_inv own n" "net_steps own {} net n"
      using inv sent_from_quiet(3) [OF q] net_steps_quiet [OF q(1,2)] by simp_all
    show "wp (read (value w) k) (read_ok own net (value w) k) (read_failed own net) n"
      unfolding read_def wp_andThen wp_reads
      by (rule wp_mono [OF read_loop_spec [OF n(1)]]) (use read_after [OF n(2)] in auto)
  qed (use inv observes_read in \<open>auto simp: read_failed_def steps_refl\<close>)
  show ?thesis
    unfolding client_findMovement_def wp_catching wp_andThen
  proof (rule wp_mono [OF exec], goal_cases)
    case (1 found net')
    show ?case
    proof (cases found)
      case None
      with 1 show ?thesis by (simp add: wp_ret read_ok_def)
    next
      case (Some p)
      with 1 obtain resp ref t a where p: "p = Operation resp" "response_reference resp = Some ref"
        "net_moved net' (value w) k = Some (ref, t, a)" by (auto simp: read_ok_def)
      show ?thesis
      proof (cases "toMovementResult p")
        case (Inl e)
        with 1 Some toMovementResult_Inl [OF Inl] show ?thesis
          by (simp add: wp_andThen wp_raiseInl wp_throw wp_if read_ok_def)
      next
        case (Inr res)
        with 1 Some p toMovementResult_Operation [OF p(2), of res] show ?thesis
          by (simp add: wp_andThen wp_raiseInl wp_ret read_ok_def)
      qed
    qed
  next
    case (2 e net')
    then show ?case by (auto simp: wp_if wp_throw read_failed_def)
  qed
qed

section \<open>The contract holds\<close>

definition AccountsHttpClient :: "network AccountsPort" where
  "AccountsHttpClient = \<lparr>port_debit = client_debit, port_credit = client_credit, port_findMovement = client_findMovement\<rparr>"

interpretation wire: accounts_contract AccountsHttpClient net_moved net_pending "net_inv own" own for own
  by unfold_locales
     (simp_all add: AccountsHttpClient_def client_debit_def client_credit_def movement_spec_net findMovement_spec_net)

end
