(* ===== verification/Saga.thy ===== *)
theory Saga
  imports Coherence Accounts_Contract
begin

text \<open>
  The handlers of the saga keep the stored payment coherent with the accounts service and with its
  outbox, whatever the environment does: every call of the port may fail before or after taking
  effect, every local transaction may abort or commit unheard, and the process may die anywhere.
  The lemmas are proved in \<open>accounts_contract\<close>, so they hold for any accounts port that satisfies it.
\<close>

lemma leg_fields [simp]:
  "leg_quiet m pd r (p\<lparr>status := x0\<rparr>) = leg_quiet m pd r p" "leg_only m pd r (p\<lparr>status := x0\<rparr>) = leg_only m pd r p"
  "leg_moved m r (p\<lparr>status := x0\<rparr>) = leg_moved m r p"
  "leg_quiet m pd r (p\<lparr>updatedAt := x1\<rparr>) = leg_quiet m pd r p" "leg_only m pd r (p\<lparr>updatedAt := x1\<rparr>) = leg_only m pd r p"
  "leg_moved m r (p\<lparr>updatedAt := x1\<rparr>) = leg_moved m r p"
  "leg_quiet m pd r (p\<lparr>failureReason := x2\<rparr>) = leg_quiet m pd r p" "leg_only m pd r (p\<lparr>failureReason := x2\<rparr>) = leg_only m pd r p"
  "leg_moved m r (p\<lparr>failureReason := x2\<rparr>) = leg_moved m r p"
  "leg_quiet m pd r (p\<lparr>completedAt := x3\<rparr>) = leg_quiet m pd r p" "leg_only m pd r (p\<lparr>completedAt := x3\<rparr>) = leg_only m pd r p"
  "leg_moved m r (p\<lparr>completedAt := x3\<rparr>) = leg_moved m r p"
  "leg_quiet m pd r (p\<lparr>debitTransactionReference := x4\<rparr>) = leg_quiet m pd r p" "leg_only m pd r (p\<lparr>debitTransactionReference := x4\<rparr>) = leg_only m pd r p"
  "leg_moved m r (p\<lparr>debitTransactionReference := x4\<rparr>) = leg_moved m r p"
  "leg_quiet m pd r (p\<lparr>creditTransactionReference := x5\<rparr>) = leg_quiet m pd r p" "leg_only m pd r (p\<lparr>creditTransactionReference := x5\<rparr>) = leg_only m pd r p"
  "leg_moved m r (p\<lparr>creditTransactionReference := x5\<rparr>) = leg_moved m r p"
  "leg_quiet m pd r (p\<lparr>refundTransactionReference := x6\<rparr>) = leg_quiet m pd r p" "leg_only m pd r (p\<lparr>refundTransactionReference := x6\<rparr>) = leg_only m pd r p"
  "leg_moved m r (p\<lparr>refundTransactionReference := x6\<rparr>) = leg_moved m r p"
  "leg_quiet m pd r (p\<lparr>events := x7\<rparr>) = leg_quiet m pd r p" "leg_only m pd r (p\<lparr>events := x7\<rparr>) = leg_only m pd r p"
  "leg_moved m r (p\<lparr>events := x7\<rparr>) = leg_moved m r p"
  by (rule leg_cong; simp)+

lemma wp_eta_ret: "wp (ret x) Q E = Q x"
  and wp_eta_throw: "wp (throw e) Q E = E e"
  and wp_eta_andThen: "wp (andThen m k) Q E = wp m (\<lambda>x. wp (k x) Q E) E"
  by (simp_all add: fun_eq_iff wp_simps)

lemma wp_eta_if: "wp (if b then m else n) Q E = (if b then wp m Q E else wp n Q E)"
  by simp

lemmas wp_eta = wp_eta_ret wp_eta_throw wp_eta_andThen wp_eta_if

text \<open>A computation keeps a predicate on the state, however it ends.\<close>

definition stable :: "('s \<Rightarrow> bool) \<Rightarrow> ('s, 'e, 'a) prog \<Rightarrow> bool" where
  "stable I m \<longleftrightarrow> (\<forall>s. I s \<longrightarrow> wp m (\<lambda>_. I) (\<lambda>_. I) s)"

lemma stableI: "(\<And>s. I s \<Longrightarrow> wp m (\<lambda>_. I) (\<lambda>_. I) s) \<Longrightarrow> stable I m"
  by (simp add: stable_def)

lemma stableD: "stable I m \<Longrightarrow> I s \<Longrightarrow> wp m (\<lambda>_. I) (\<lambda>_. I) s"
  by (simp add: stable_def)

lemma stable_ret [intro]: "stable I (ret x)"
  by (simp add: stable_def wp_simps)

lemma stable_throw [intro]: "stable I (throw e)"
  by (simp add: stable_def wp_simps)

lemma stable_andThen [intro]: "stable I m \<Longrightarrow> (\<And>x. stable I (k x)) \<Longrightarrow> stable I (andThen m k)"
  unfolding stable_def wp_andThen by (blast intro: wp_mono)

lemma stable_catching [intro]: "stable I m \<Longrightarrow> (\<And>e. stable I (h e)) \<Longrightarrow> stable I (catching m h)"
  by (rule stableI, subst wp_catching, erule (1) wp_mono [OF stableD]) (simp_all add: stable_def)

lemma stable_if [intro]: "stable I m \<Longrightarrow> stable I n \<Longrightarrow> stable I (if b then m else n)"
  by simp

lemma stable_option [intro]: "stable I m \<Longrightarrow> (\<And>x. stable I (n x)) \<Longrightarrow> stable I (case z of None \<Rightarrow> m | Some x \<Rightarrow> n x)"
  by (cases z) simp_all

context accounts_contract
begin

abbreviation sound_here :: "string \<Rightarrow> 'r world \<Rightarrow> bool" where
  "sound_here \<equiv> sound moved pending inv"

abbreviation sound_here_as :: "string \<Rightarrow> 'r world \<Rightarrow> Payment \<Rightarrow> nat \<Rightarrow> bool" where
  "sound_here_as \<equiv> sound_as moved pending inv"

abbreviation credit_quiet :: "string \<Rightarrow> 'r world \<Rightarrow> bool" where
  "credit_quiet R s \<equiv> quiet moved pending (remote s) (R @ '':credit'')"

lemma sound_asD:
  assumes "sound_here_as R s p v"
  shows "inv (remote s)" "wf_payment p" "value (reference p) = R" "coherent moved pending p (remote s)" "sound_here R s"
    "movementKey p l \<in> own_keys R" "movementKey p credit_leg = R @ '':credit''"
  using assms movementKey_own [of p l] unfolding sound_as_def stored_def sound_def by (auto simp: movementKey_def)

lemma sound_as_remote:
  assumes "own = own_keys R" and "sound_here_as R s p v" and "inv r" and "steps moved pending own A (remote s) r"
    and "A \<subseteq> leg_issue p ` issuable p"
  shows "sound_here_as R (s\<lparr>remote := r\<rparr>) p v"
  using assms sound_asD(3) [OF assms(2)] coherent_steps [of moved pending p "remote s" A r]
  by (simp add: sound_as_def)

text \<open>A change of a field the invariant does not read.\<close>

lemma sound_as_frame:
  "sound_here_as R s p v \<Longrightarrow> db t = db s \<Longrightarrow> remote t = remote s \<Longrightarrow> tx_script t = tx_script s \<Longrightarrow> in_tx t = in_tx s
     \<Longrightarrow> sound_here_as R t p v"
  by (simp add: sound_as_def)

lemma sound_frame:
  "sound_here R s \<Longrightarrow> db t = db s \<Longrightarrow> remote t = remote s \<Longrightarrow> tx_script t = tx_script s \<Longrightarrow> in_tx t = in_tx s
     \<Longrightarrow> sound_here R t"
  unfolding sound_def using sound_as_frame by blast

lemma sound_quiet_fields [simp]:
  "sound_here R (s\<lparr>clock_reads := n\<rparr>) = sound_here R s"
  "sound_here R (s\<lparr>db_reads := n\<rparr>) = sound_here R s"
  "sound_here R (s\<lparr>held := h\<rparr>) = sound_here R s"
  "sound_here R (s\<lparr>revision := v\<rparr>) = sound_here R s"
  "sound_here R (s\<lparr>active := a\<rparr>) = sound_here R s"
  "sound_here R (s\<lparr>lock_calls := n\<rparr>) = sound_here R s"
  by (simp_all add: sound_def sound_as_def)

lemma sound_as_quiet_fields [simp]:
  "sound_here_as R (s\<lparr>clock_reads := n\<rparr>) p v = sound_here_as R s p v"
  "sound_here_as R (s\<lparr>db_reads := n\<rparr>) p v = sound_here_as R s p v"
  "sound_here_as R (s\<lparr>held := h\<rparr>) p v = sound_here_as R s p v"
  "sound_here_as R (s\<lparr>revision := u\<rparr>) p v = sound_here_as R s p v"
  by (simp_all add: sound_as_def)

lemma find_step:
  assumes s: "sound_here R s" and R: "value r = R"
    and Q: "\<And>t p v. sound_here_as R t p v \<Longrightarrow> held t = Some p \<Longrightarrow> revision t = Some v \<Longrightarrow> events p = []
        \<Longrightarrow> remote t = remote s \<Longrightarrow> Q (Some p) t"
    and E: "\<And>e t. \<not> isDomainError e \<Longrightarrow> sound_here R t \<Longrightarrow> E e t"
  shows "wp (findByReference r) Q E s"
proof -
  obtain q v where sq: "sound_here_as R s q v" using s unfolding sound_def by blast
  then obtain row p where row: "lookupBy row_reference R (payments (db s)) = Some row" "toDomain row = Inr p"
      "twin p q" "version row = v"
    by (auto simp: sound_as_def stored_def)
  have p: "sound_here_as R s p v" by (rule sound_as_twin [OF sq twin_sym [OF row(3)]])
  then show ?thesis
    using toDomain_transactionId [OF row(2)] s
    by (auto simp: findByReference_def hydrate_def wp_simps R row intro!: Q E)
qed

lemma plain_save_step:
  assumes "sound_here_as R s p v" and "held s = Some q" and "revision s = Some v" and "wf_payment q"
    and "reference q = reference p" "money q = money p" "transactionId q = transactionId p"
    and "coherent moved pending q (remote s)" and "announced q = announced p"
    and Q: "\<And>t. sound_here_as R t q (v + 1) \<Longrightarrow> revision t = Some (v + 1) \<Longrightarrow> held t = Some q
        \<Longrightarrow> remote t = remote s \<Longrightarrow> Q () t"
    and E: "\<And>e t. \<not> isDomainError e \<Longrightarrow> sound_here R t \<Longrightarrow> remote t = remote s \<Longrightarrow> E e t"
  shows "wp (transaction_run save) Q E s"
proof -
  have eq: "save = andThen save (\<lambda>_. ret ())"
    by (auto simp: fun_eq_iff andThen_def ret_def split: prod.splits sum.splits)
  show ?thesis
    by (subst eq, rule save_step [where h = q, OF assms(1-8)])
       (auto simp: wp_ret grows_def assms(9) intro!: exI [of _ "[]"] Q E)
qed

lemma ledger_silent: "status p \<notin> {Approved, Declined, Compensated} \<Longrightarrow> announced p old \<longleftrightarrow> old = []"
  by (cases "status p") (simp_all add: announced_def owed_def ledger_of_def announcement.simps)

section \<open>The debit step\<close>

lemma coherent_processing:
  assumes "coherent moved pending p r" and "wf_payment p" and "status p = Pending"
  shows "coherent moved pending (p\<lparr>status := Processing, updatedAt := now\<rparr>) r"
  using assms by (simp add: coherent_def status_coherent_def wf_payment_def wf_fields_def)

lemma coherent_debited:
  assumes "coherent moved pending p r" and "status p = Processing" and "debitTransactionReference p = None"
    and "leg_moved moved r p debit_leg (Some x)"
  shows "coherent moved pending (p\<lparr>debitTransactionReference := Some x, updatedAt := now\<rparr>) r"
  using assms by (simp add: coherent_def status_coherent_def)

lemma coherent_declined:
  assumes "coherent moved pending p r" and "status p = Processing" and "debitTransactionReference p = None"
    and "reason \<noteq> ACCOUNTS_UNAVAILABLE_REASON \<Longrightarrow> leg_quiet moved pending r p debit_leg"
  shows "coherent moved pending (p\<lparr>status := Declined, updatedAt := now, failureReason := Some reason,
    completedAt := Some now, events := es\<rparr>) r"
  using assms by (simp add: coherent_def status_coherent_def)

lemma coherent_approved:
  assumes "coherent moved pending p r" and "status p = Processing" and "debitTransactionReference p \<noteq> None"
    and "leg_moved moved r p credit_leg (Some x)"
  shows "coherent moved pending (p\<lparr>status := Approved, updatedAt := now, creditTransactionReference := Some x,
    completedAt := Some now, events := es\<rparr>) r"
  using assms by (simp add: coherent_def status_coherent_def)

lemma coherent_owing:
  assumes "coherent moved pending p r" and "status p = Processing" and "debitTransactionReference p \<noteq> None"
    and "leg_quiet moved pending r p credit_leg"
  shows "coherent moved pending (p\<lparr>status := CompensationPending, updatedAt := now, failureReason := Some reason\<rparr>) r"
  using assms by (simp add: coherent_def status_coherent_def)

lemma coherent_compensated:
  assumes "coherent moved pending p r" and "status p = CompensationPending"
    and "leg_moved moved r p refund_leg (Some x)"
  shows "coherent moved pending (p\<lparr>status := Compensated, updatedAt := now, refundTransactionReference := Some x,
    failureReason := reason, completedAt := Some now, events := es\<rparr>) r"
  using assms by (simp add: coherent_def status_coherent_def)

lemma announced_after:
  "status p \<notin> {Approved, Declined, Compensated} \<Longrightarrow> announced p old
     \<longrightarrow> announced q (old @ map content (owed q corr now))"
  using ledger_silent by (auto simp: announced_def)

lemma decline_step:
  assumes S: "sound_here_as R s p v" and held: "held s = Some p" and rev: "revision s = Some v" and ev: "events p = []"
    and st: "status p = Processing" "debitTransactionReference p = None"
    and reason: "reason \<noteq> ACCOUNTS_UNAVAILABLE_REASON \<Longrightarrow> leg_quiet moved pending (remote s) p debit_leg"
    and Q: "\<And>t. sound_here R t \<Longrightarrow> wp (K ()) Q E t" and E: "\<And>e t. \<not> isDomainError e \<Longrightarrow> sound_here R t \<Longrightarrow> E e t"
  shows "wp (andThen new_Date (\<lambda>now. andThen (on_payment (decline reason now)) (\<lambda>_.
      andThen (transaction_run (andThen save (\<lambda>_. andThen (on_payment pullEvents) enqueue_events))) K))) Q E s"
proof -
  let ?now = "clock s (clock_reads s)" and ?s = "s\<lparr>clock_reads := clock_reads s + 1\<rparr>"
  let ?q = "p\<lparr>status := Declined, updatedAt := ?now, failureReason := Some reason, completedAt := Some ?now,
      events := events p @ [PaymentDeclinedEvent (reference p) (money p) reason ?now]\<rparr>"
  have op: "decline reason ?now p = (Inr (), ?q)" using st by (simp add: decline_iff)
  have wf: "wf_payment ?q" using apply_op_wf [of p "Decline reason" ?now ?q] op sound_asD(2) [OF S] by simp
  have coh: "coherent moved pending ?q (remote s)"
    using coherent_declined [OF sound_asD(4) [OF S] st reason] by simp
  have R: "value (reference ?q) = R" using sound_asD(3) [OF S] by simp
  have "wp (transaction_run (andThen save (\<lambda>_. andThen (on_payment pullEvents) enqueue_events)))
      (\<lambda>x. wp (K x) Q E) E (?s\<lparr>held := Some ?q\<rparr>)"
  proof (rule save_step [where h = "?q\<lparr>events := []\<rparr>"])
    show "sound_here_as R (?s\<lparr>held := Some ?q\<rparr>) p v" using S by simp
    fix t :: "'r world" assume t: "held t = Some ?q"
    show "wp (andThen (on_payment pullEvents) enqueue_events) (\<lambda>_ u. \<exists>ms. grows R ms (?q\<lparr>events := []\<rparr>) t u
        \<and> (\<forall>old. announced p old \<longrightarrow> announced ?q (old @ map content ms))) (\<lambda>_ _. False) t"
    proof (rule wp_announce [OF t _ R])
      show "events ?q = announcement ?q" by (simp add: ev announcement.simps)
      show "ledger_of ?q = []" by (simp add: ledger_of_def)
      fix u assume "grows R (owed ?q [] 0) (?q\<lparr>events := []\<rparr>) t u"
      moreover have "\<forall>old. announced p old \<longrightarrow> announced ?q (old @ map content (owed ?q [] 0))"
        using st by (intro allI announced_after) simp
      ultimately show "\<exists>ms. grows R ms (?q\<lparr>events := []\<rparr>) t u
          \<and> (\<forall>old. announced p old \<longrightarrow> announced ?q (old @ map content ms))" by blast
    qed
  qed (use wf coh rev in \<open>auto intro!: Q E dest: sound_asD(5)\<close>)
  then show ?thesis using held op by (simp add: wp_andThen wp_new_Date wp_on_payment_op)
qed

lemma pending_step:
  assumes S: "sound_here_as R s p v" and held: "held s = Some p" and rev: "revision s = Some v" and ev: "events p = []"
    and st: "status p = Pending"
    and Q: "\<And>t q u. sound_here_as R t q u \<Longrightarrow> held t = Some q \<Longrightarrow> revision t = Some u \<Longrightarrow> events q = []
      \<Longrightarrow> status q = Processing \<Longrightarrow> debitTransactionReference q = None
      \<Longrightarrow> leg_quiet moved pending (remote t) q debit_leg \<Longrightarrow> leg_quiet moved pending (remote t) q credit_leg
      \<Longrightarrow> source p = source q \<Longrightarrow> money p = money q \<Longrightarrow> reference p = reference q \<Longrightarrow> wp (K ()) Q E t"
    and E: "\<And>e t. \<not> isDomainError e \<Longrightarrow> sound_here R t \<Longrightarrow> E e t"
  shows "wp (andThen new_Date (\<lambda>now. andThen (on_payment (markProcessing now)) (\<lambda>_.
      andThen (transaction_run save) K))) Q E s"
proof -
  let ?now = "clock s (clock_reads s)" and ?s = "s\<lparr>clock_reads := clock_reads s + 1\<rparr>"
  let ?q = "p\<lparr>status := Processing, updatedAt := ?now\<rparr>"
  have op: "markProcessing ?now p = (Inr (), ?q)" using st by (simp add: markProcessing_iff)
  have wf: "wf_payment ?q" using apply_op_wf [of p MarkProcessing ?now ?q] op sound_asD(2) [OF S] by simp
  have coh: "coherent moved pending ?q (remote s)" using coherent_processing [OF sound_asD(4,2) [OF S] st] .
  have quiet: "leg_quiet moved pending (remote s) p debit_leg" "leg_quiet moved pending (remote s) p credit_leg"
    using sound_asD(4) [OF S] st by (simp_all add: coherent_def status_coherent_def)
  have none: "debitTransactionReference p = None"
    using sound_asD(2) [OF S] st by (simp add: wf_payment_def wf_fields_def)
  have ann: "announced ?q = announced p"
    using st by (simp add: fun_eq_iff ledger_silent)
  have "wp (transaction_run save) (\<lambda>x. wp (K x) Q E) E (?s\<lparr>held := Some ?q\<rparr>)"
  proof (rule plain_save_step)
    show "sound_here_as R (?s\<lparr>held := Some ?q\<rparr>) p v" using S by simp
    fix t :: "'r world"
    assume t: "sound_here_as R t ?q (v + 1)" "revision t = Some (v + 1)" "held t = Some ?q"
      "remote t = remote (?s\<lparr>held := Some ?q\<rparr>)"
    show "wp (K ()) Q E t" by (rule Q [OF t(1,3,2)]) (use quiet none t(4) ev in simp_all)
  qed (use wf coh rev ann in \<open>auto intro!: E\<close>)
  then show ?thesis using held op by (simp add: wp_andThen wp_new_Date wp_on_payment_op)
qed

lemma debited_step:
  assumes S: "sound_here_as R s p v" and held: "held s = Some p" and rev: "revision s = Some v" and ev: "events p = []"
    and st: "status p = Processing" "debitTransactionReference p = None" "wf_ref TRANSACTION x"
    and moved: "leg_moved moved (remote s) p debit_leg (Some x)" and quiet: "leg_quiet moved pending (remote s) p credit_leg"
    and Q: "\<And>t q u. sound_here_as R t q u \<Longrightarrow> held t = Some q \<Longrightarrow> revision t = Some u \<Longrightarrow> events q = []
      \<Longrightarrow> status q = Processing \<Longrightarrow> debitTransactionReference q \<noteq> None
      \<Longrightarrow> leg_quiet moved pending (remote t) q credit_leg \<Longrightarrow> credit_quiet R t \<Longrightarrow> wp (K ()) Q E t"
    and E: "\<And>e t. \<not> isDomainError e \<Longrightarrow> sound_here R t \<Longrightarrow> E e t"
  shows "wp (andThen new_Date (\<lambda>now. andThen (on_payment (markDebited x now)) (\<lambda>_.
      andThen (transaction_run save) K))) Q E s"
proof -
  let ?now = "clock s (clock_reads s)" and ?s = "s\<lparr>clock_reads := clock_reads s + 1\<rparr>"
  let ?q = "p\<lparr>debitTransactionReference := Some x, updatedAt := ?now\<rparr>"
  have op: "markDebited x ?now p = (Inr (), ?q)" using st by (simp add: markDebited_iff)
  have wf: "wf_payment ?q" using apply_op_wf [of p "MarkDebited x" ?now ?q] op sound_asD(2) [OF S] st(3) by simp
  have coh: "coherent moved pending ?q (remote s)" using coherent_debited [OF sound_asD(4) [OF S] st(1,2) moved] .
  have ann: "announced ?q = announced p"
    using st by (simp add: fun_eq_iff ledger_silent)
  have key: "credit_quiet R s" using quiet sound_asD(7) [OF S] by (simp add: leg_quiet_def)
  have "wp (transaction_run save) (\<lambda>x. wp (K x) Q E) E (?s\<lparr>held := Some ?q\<rparr>)"
  proof (rule plain_save_step)
    show "sound_here_as R (?s\<lparr>held := Some ?q\<rparr>) p v" using S by simp
    fix t :: "'r world"
    assume t: "sound_here_as R t ?q (v + 1)" "revision t = Some (v + 1)" "held t = Some ?q"
      "remote t = remote (?s\<lparr>held := Some ?q\<rparr>)"
    show "wp (K ()) Q E t" by (rule Q [OF t(1,3,2)]) (use quiet key t(4) ev st in simp_all)
  qed (use wf coh rev ann in \<open>auto intro!: E\<close>)
  then show ?thesis using held op by (simp add: wp_andThen wp_new_Date wp_on_payment_op)
qed

lemma remote_back [simp]: "s\<lparr>remote := remote s\<rparr> = s"
  by simp

lemma debit_call:
  assumes own: "own = own_keys R" and S: "sound_here_as R s p v" and held: "held s = Some p" and rev: "revision s = Some v"
    and ev: "events p = []" and st: "status p = Processing" "debitTransactionReference p = None"
    and same: "source p' = source p" "money p' = money p" "reference p' = reference p"
    and quiet: "leg_quiet moved pending (remote s) p debit_leg" "leg_quiet moved pending (remote s) p credit_leg"
  shows "wp (catching
       (andThen (on_remote (port_debit port (source p') (money p') (movementKey p' debit_leg) d)) (\<lambda>movement.
        andThen new_Date (\<lambda>now.
        andThen (on_payment (markDebited (transactionReference movement) now)) (\<lambda>_.
        andThen (transaction_run save) (\<lambda>_. ret (value (transactionReference movement)))))))
       (\<lambda>error. (case error of
          Domain e \<Rightarrow>
            (case e of
               AccountsUnavailableError _ _ \<Rightarrow> throw error
             | _ \<Rightarrow>
                 andThen new_Date (\<lambda>now.
                 andThen (on_payment (decline (failureReasonOf e) now)) (\<lambda>_.
                 andThen (transaction_run (andThen save (\<lambda>_.
                    andThen (on_payment pullEvents) enqueue_events))) (\<lambda>_.
                 throw error))))
        | _ \<Rightarrow> throw error)))
     (\<lambda>_ t. sound_here R t \<and> credit_quiet R t) (\<lambda>_ t. sound_here R t) s"
    (is "wp (catching ?m ?h) ?Q ?E s")
proof -
  have key: "movementKey p' debit_leg = movementKey p debit_leg" using same by (simp add: movementKey_def)
  let ?H = "\<lambda>e t. if e = ProcessDied then ?E ProcessDied t else wp (?h e) ?Q ?E t"
  have silent: "?H e t" if "\<not> isDomainError e \<or> is_unavailable e" "sound_here R t" for e t
    using that by (cases e) (auto simp: wp_simps split: DomainError.splits)
  have "wp ?m ?Q ?H s"
    unfolding wp_andThen [where m = "on_remote c" for c] wp_on_remote same key
  proof (rule wp_mono [OF debit_law], goal_cases)
    case 1
    show ?case using sound_asD(1) [OF S] .
  next
    case (2 res r)
    let ?s = "s\<lparr>remote := r\<rparr>"
    have issue: "{(value (source p), movementKey p debit_leg, DEBIT, amount (money p))} \<subseteq> leg_issue p ` issuable p"
      using st by (simp add: issuable_def leg_issue_def leg_wallet_def leg_type_def)
    have S': "sound_here_as R ?s p v" using sound_as_remote [OF own S _ _ issue] 2 by blast
    have q: "leg_quiet moved pending r p credit_leg"
      using 2 own sound_asD(3) [OF S]
      by (intro leg_quiet_steps [where L = "{debit_leg}", OF _ quiet(2)])
         (auto simp: leg_issue_def leg_wallet_def leg_type_def)
    have m: "leg_moved moved r p debit_leg (Some (transactionReference res))"
      using 2 by (simp add: leg_moved_def leg_wallet_def leg_type_def)
    show ?case
      by (rule debited_step [OF S' _ _ ev st]) (use 2 held rev q m silent in \<open>auto simp: wp_ret dest: sound_asD(5)\<close>)
  next
    case (3 e r)
    let ?s = "s\<lparr>remote := r\<rparr>"
    have issue: "{(value (source p), movementKey p debit_leg, DEBIT, amount (money p))} \<subseteq> leg_issue p ` issuable p"
      using st by (simp add: issuable_def leg_issue_def leg_wallet_def leg_type_def)
    have S': "sound_here_as R ?s p v" using sound_as_remote [OF own S _ _ issue] 3 by blast
    show ?case
    proof (cases "is_refusal e")
      case False
      then consider "e = ProcessDied" | "is_unavailable e" using 3 by blast
      then show ?thesis using silent [of e ?s] sound_asD(5) [OF S'] by cases simp_all
    next
      case True
      have q: "leg_quiet moved pending r p debit_leg"
        using 3 True own sound_asD(3) [OF S]
        by (intro leg_quiet_steps [where L = "{}" and A = "{}", OF _ quiet(1)]) auto
      have "wp (andThen new_Date (\<lambda>now. andThen (on_payment (decline reason now)) (\<lambda>_.
          andThen (transaction_run (andThen save (\<lambda>_. andThen (on_payment pullEvents) enqueue_events))) (\<lambda>_. throw e))))
        ?Q ?E ?s" for reason
        by (rule decline_step [OF S' _ _ ev st]) (use held rev q in \<open>auto simp: wp_throw\<close>)
      then show ?thesis using True by (cases e rule: is_refusal.cases) simp_all
    qed
  qed
  then show ?thesis unfolding wp_catching .
qed

lemma load_step:
  assumes s: "sound_here R s"
    and Q: "\<And>t p v. sound_here_as R t p v \<Longrightarrow> held t = Some p \<Longrightarrow> revision t = Some v \<Longrightarrow> events p = []
        \<Longrightarrow> remote t = remote s \<Longrightarrow> wp (body (Some p)) Q E t"
    and E: "\<And>e t. \<not> isDomainError e \<Longrightarrow> sound_here R t \<Longrightarrow> E e t"
  shows "wp (andThen (raiseInl (Reference_of PAYMENT R)) (\<lambda>r. andThen (findByReference r) body)) Q E s"
proof (cases "Reference_of PAYMENT R")
  case (Inl e)
  then have "\<not> isDomainError e" by auto
  then show ?thesis unfolding Inl wp_andThen wp_raiseInl sum.case by (rule E [OF _ s])
next
  case (Inr r)
  then have R: "value r = R" by simp
  show ?thesis unfolding Inr wp_andThen wp_raiseInl sum.case
  proof (rule find_step [OF s R], goal_cases)
    case 1 then show ?case by (rule Q)
  next
    case 2 then show ?case by (rule E)
  qed
qed

lemma debit_locked_sound:
  assumes own: "own = own_keys R" and s: "sound_here R s"
  shows "wp (debit_executeLocked port R) (\<lambda>_ t. sound_here R t \<and> credit_quiet R t) (\<lambda>_ t. sound_here R t) s"
  unfolding debit_executeLocked_def
proof (rule load_step [OF s], goal_cases)
  case (1 t p v)
  show ?case
  proof (cases "status p = Pending")
    case False
    then show ?thesis using sound_asD(5) [OF 1(1)] by (simp add: wp_simps)
  next
    case True
    show ?thesis
      unfolding option.case True
      by (simp only: True simp_thms if_False, rule pending_step [OF 1(1-4) True], rule debit_call [OF own])
  qed
qed

section \<open>The credit step\<close>

lemma recording_step:
  assumes S: "sound_here_as R s p v" and rev: "revision s = Some v" and held: "held s = Some q"
    and wf: "wf_payment q" and id: "reference q = reference p" "money q = money p" "transactionId q = transactionId p"
    and coh: "coherent moved pending q (remote s)"
    and st: "status p \<notin> {Approved, Declined, Compensated}"
    and rec: "completedAt q = Some time" "events q = announcement q" "ledger_of q = movements q time"
    and Q: "\<And>t. sound_here R t \<Longrightarrow> Q () t" and E: "\<And>e t. \<not> isDomainError e \<Longrightarrow> sound_here R t \<Longrightarrow> E e t"
  shows "wp (transaction_run (andThen save (\<lambda>_. andThen the_payment (\<lambda>p. andThen (completion_time p) (\<lambda>t.
      andThen (record_movements (movements p t)) (\<lambda>_. andThen (on_payment pullEvents) enqueue_events)))))) Q E s"
proof (rule save_step [where h = "q\<lparr>events := []\<rparr>", OF S held rev wf id coh])
  fix t :: "'r world" assume t: "held t = Some q"
  have R: "value (reference q) = R" using sound_asD(3) [OF S] id(1) by simp
  show "wp (andThen the_payment (\<lambda>p. andThen (completion_time p) (\<lambda>t.
      andThen (record_movements (movements p t)) (\<lambda>_. andThen (on_payment pullEvents) enqueue_events))))
    (\<lambda>_ u. \<exists>ms. grows R ms (q\<lparr>events := []\<rparr>) t u
        \<and> (\<forall>old. announced p old \<longrightarrow> announced q (old @ map content ms))) (\<lambda>_ _. False) t"
    unfolding wp_andThen [where m = the_payment] wp_the_payment [OF t]
  proof (rule wp_record [where movements = "movements q", OF t rec(1,2) R rec(3)])
    fix corr now u assume "grows R (owed q corr now) (q\<lparr>events := []\<rparr>) t u"
    moreover have "\<forall>old. announced p old \<longrightarrow> announced q (old @ map content (owed q corr now))"
      using st by (intro allI announced_after)
    ultimately show "\<exists>ms. grows R ms (q\<lparr>events := []\<rparr>) t u
        \<and> (\<forall>old. announced p old \<longrightarrow> announced q (old @ map content ms))" by blast
  qed
qed (use sound_asD(5) in \<open>blast intro: Q E\<close>)+

lemma settle_step:
  assumes S: "sound_here_as R s p v" and held: "held s = Some p" and rev: "revision s = Some v" and ev: "events p = []"
    and st: "status p = Processing" "debitTransactionReference p \<noteq> None" "wf_ref TRANSACTION x"
    and m: "leg_moved moved (remote s) p credit_leg (Some x)"
    and Q: "\<And>t. sound_here R t \<Longrightarrow> Q () t" and E: "\<And>e t. \<not> isDomainError e \<Longrightarrow> sound_here R t \<Longrightarrow> E e t"
  shows "wp (settle x) Q E s"
proof -
  obtain d where d: "debitTransactionReference p = Some d" using st(2) by blast
  let ?now = "clock s (clock_reads s)" and ?s = "s\<lparr>clock_reads := clock_reads s + 1\<rparr>"
  let ?q = "p\<lparr>status := Approved, updatedAt := ?now, creditTransactionReference := Some x, completedAt := Some ?now,
      events := events p @ [PaymentApprovedEvent (reference p) (money p) d x ?now]\<rparr>"
  have op: "approve x ?now p = (Inr (), ?q)" unfolding approve_iff
    by (intro conjI exI [of _ d]) (rule st d refl)+
  have wf: "wf_payment ?q" using apply_op_wf [of p "Approve x" ?now ?q] op sound_asD(2) [OF S] st(3) by simp
  have coh: "coherent moved pending ?q (remote s)" using coherent_approved [OF sound_asD(4) [OF S] st(1,2) m] .
  have "wp (transaction_run (andThen save (\<lambda>_. andThen the_payment (\<lambda>p. andThen (completion_time p) (\<lambda>t.
      andThen (record_movements (settled_movements p x t)) (\<lambda>_. andThen (on_payment pullEvents) enqueue_events))))))
      Q E (?s\<lparr>held := Some ?q\<rparr>)"
  proof (rule recording_step [where movements = "\<lambda>p. settled_movements p x" and time = ?now])
    show "sound_here_as R (?s\<lparr>held := Some ?q\<rparr>) p v" using S by simp
    show "status p \<notin> {Approved, Declined, Compensated}" using st by simp
    show "events ?q = announcement ?q" using ev d by (simp add: announcement.simps)
    show "ledger_of ?q = settled_movements ?q x ?now" by (simp add: ledger_of_def)
  qed (use rev wf coh in \<open>simp_all add: Q E\<close>)
  then show ?thesis using held op by (simp add: settle_def wp_andThen wp_new_Date wp_on_payment_op)
qed

lemma owing_step:
  assumes S: "sound_here_as R s p v" and held: "held s = Some p" and rev: "revision s = Some v" and ev: "events p = []"
    and st: "status p = Processing" "debitTransactionReference p \<noteq> None"
    and quiet: "leg_quiet moved pending (remote s) p credit_leg"
    and Q: "\<And>t q u. sound_here_as R t q u \<Longrightarrow> held t = Some q \<Longrightarrow> revision t = Some u \<Longrightarrow> events q = []
      \<Longrightarrow> status q = CompensationPending \<Longrightarrow> wp (K ()) Q E t"
    and E: "\<And>e t. \<not> isDomainError e \<Longrightarrow> sound_here R t \<Longrightarrow> E e t"
  shows "wp (andThen new_Date (\<lambda>now. andThen (on_payment (markCompensationPending reason now)) (\<lambda>_.
      andThen (transaction_run save) K))) Q E s"
proof -
  let ?now = "clock s (clock_reads s)" and ?s = "s\<lparr>clock_reads := clock_reads s + 1\<rparr>"
  let ?q = "p\<lparr>status := CompensationPending, updatedAt := ?now, failureReason := Some reason\<rparr>"
  have op: "markCompensationPending reason ?now p = (Inr (), ?q)" using st by (simp add: markCompensationPending_iff)
  have wf: "wf_payment ?q"
    using apply_op_wf [of p "MarkCompensationPending reason" ?now ?q] op sound_asD(2) [OF S] by simp
  have coh: "coherent moved pending ?q (remote s)" using coherent_owing [OF sound_asD(4) [OF S] st quiet] .
  have ann: "announced ?q = announced p"
    using st by (simp add: fun_eq_iff ledger_silent)
  have "wp (transaction_run save) (\<lambda>x. wp (K x) Q E) E (?s\<lparr>held := Some ?q\<rparr>)"
  proof (rule plain_save_step)
    show "sound_here_as R (?s\<lparr>held := Some ?q\<rparr>) p v" using S by simp
    fix t :: "'r world"
    assume t: "sound_here_as R t ?q (v + 1)" "revision t = Some (v + 1)" "held t = Some ?q"
    show "wp (K ()) Q E t" by (rule Q [OF t(1,3,2)]) (use ev in simp_all)
  qed (use wf coh rev ann in \<open>auto intro!: E\<close>)
  then show ?thesis using held op by (simp add: wp_andThen wp_new_Date wp_on_payment_op)
qed

lemma explicit_refusal_eq: "explicit_refusal e = is_refusal e"
  by (cases e rule: explicit_refusal.cases) simp_all

lemma credit_call:
  assumes own: "own = own_keys R" and S: "sound_here_as R s p v" and held: "held s = Some p" and rev: "revision s = Some v"
    and ev: "events p = []" and st: "status p = Processing" "debitTransactionReference p \<noteq> None"
    and quiet: "leg_quiet moved pending (remote s) p credit_leg"
  shows "wp (andThen (catching
             (on_remote (port_credit port (destination p) (money p) (movementKey p credit_leg) d))
             (\<lambda>error.
                if explicit_refusal error
                then andThen new_Date (\<lambda>now.
                     andThen (on_payment (markCompensationPending CREDIT_FAILED_REASON now)) (\<lambda>_.
                     andThen (transaction_run save) (\<lambda>_. throw error)))
                else throw error)) (\<lambda>movement.
           andThen (settle (transactionReference movement)) (\<lambda>_.
           ret (value (transactionReference movement)))))
     (\<lambda>_ t. sound_here R t) (\<lambda>_ t. sound_here R t) s"
  unfolding wp_andThen [where m = "catching a b" for a b] wp_catching wp_on_remote
proof (rule wp_mono [OF credit_law], goal_cases)
  case 1
  show ?case using sound_asD(1) [OF S] .
next
  case (2 res r)
  let ?s = "s\<lparr>remote := r\<rparr>"
  have issue: "{(value (destination p), movementKey p credit_leg, CREDIT, amount (money p))} \<subseteq> leg_issue p ` issuable p"
    using st by (simp add: issuable_def leg_issue_def leg_wallet_def leg_type_def)
  have S': "sound_here_as R ?s p v" using sound_as_remote [OF own S _ _ issue] 2 by blast
  have "leg_moved moved r p credit_leg (Some (transactionReference res))"
    using 2 by (simp add: leg_moved_def leg_wallet_def leg_type_def)
  then show ?case
    unfolding wp_andThen wp_ret using 2 held rev by (intro settle_step [OF S' _ _ ev st]) auto
next
  case (3 e r)
  let ?s = "s\<lparr>remote := r\<rparr>"
  have issue: "{(value (destination p), movementKey p credit_leg, CREDIT, amount (money p))} \<subseteq> leg_issue p ` issuable p"
    using st by (simp add: issuable_def leg_issue_def leg_wallet_def leg_type_def)
  have S': "sound_here_as R ?s p v" using sound_as_remote [OF own S _ _ issue] 3 by blast
  show ?case
  proof (cases "is_refusal e")
    case False
    then show ?thesis using sound_asD(5) [OF S'] by (simp add: explicit_refusal_eq wp_throw)
  next
    case True
    have q: "leg_quiet moved pending r p credit_leg"
      using 3 True own sound_asD(3) [OF S]
      by (intro leg_quiet_steps [where L = "{}" and A = "{}", OF _ quiet]) auto
    show ?thesis
      by (simp add: True explicit_refusal_eq sound_asD(5) [OF S'], intro impI)
         (rule owing_step [OF S' _ _ ev st], use held rev q sound_asD(5) in \<open>auto simp: wp_throw\<close>)
  qed
qed

lemma credit_locked_sound:
  assumes own: "own = own_keys R" and s: "sound_here R s" and quiet: "credit_quiet R s"
  shows "wp (credit_executeLocked port R) (\<lambda>_ t. sound_here R t) (\<lambda>_ t. sound_here R t) s"
  unfolding credit_executeLocked_def
proof (rule load_step [OF s], goal_cases)
  case (1 t p v)
  have q: "leg_quiet moved pending (remote t) p credit_leg"
    using quiet 1(5) sound_asD(7) [OF 1(1)] by (simp add: leg_quiet_def)
  show ?case
  proof (cases "status p = Processing \<and> debitTransactionReference p \<noteq> None")
    case False
    then show ?thesis using sound_asD(5) [OF 1(1)]
      by (auto simp: wp_simps split: option.splits)
  next
    case True
    then show ?thesis
      by (simp only: option.case PaymentStatus.distinct simp_thms if_False,
          intro credit_call [OF own 1(1-4) _ _ q]) auto
  qed
qed

section \<open>Recovery\<close>

lemma found_leg:
  assumes "coherent moved pending p r" and "moved r (leg_wallet p l) (movementKey p l) = Some (value x, t, a)"
  shows "leg_moved moved r p l (Some x)"
proof -
  have "leg_only moved pending r p l" using assms(1) by (cases l) (simp_all add: coherent_def)
  then have "(leg_wallet p l, t, a) = (leg_wallet p l, leg_type l, amount (money p))"
    using assms(2) unfolding leg_only_def only_def by blast
  then show ?thesis using assms(2) by (simp add: leg_moved_def)
qed

lemma reconcile_credit_step:
  assumes own: "own = own_keys R" and S: "sound_here_as R s p v" and held: "held s = Some p" and rev: "revision s = Some v"
    and ev: "events p = []" and st: "status p = Processing" "debitTransactionReference p \<noteq> None"
  shows "wp (reconcileCredit port p) (\<lambda>_ t. sound_here R t) (\<lambda>_ t. sound_here R t) s"
  unfolding reconcileCredit_def wp_andThen wp_catching wp_on_remote wp_ret
proof (rule wp_mono [OF find_law], goal_cases)
  case 1
  show ?case using sound_asD(1) [OF S] .
next
  case (2 found r)
  have S': "sound_here_as R (s\<lparr>remote := r\<rparr>) p v" using sound_as_remote [OF own S, of r "{}"] 2 by blast
  show ?case
  proof (cases found)
    case None
    then show ?thesis using sound_asD(5) [OF S'] by (simp add: wp_ret)
  next
    case (Some m)
    with 2 obtain t a where m: "wf_ref TRANSACTION (transactionReference m)"
      "moved r (leg_wallet p credit_leg) (movementKey p credit_leg) = Some (value (transactionReference m), t, a)"
      by (auto simp: leg_wallet_def)
    have coh: "coherent moved pending p r" using sound_asD(4) [OF S'] by simp
    show ?thesis unfolding Some option.case
      by (rule settle_step [OF S' _ _ ev st]) (use m(1) held rev found_leg [OF coh m(2)] in simp_all)
  qed
next
  case (3 e r)
  have "sound_here_as R (s\<lparr>remote := r\<rparr>) p v" using sound_as_remote [OF own S, of r "{}"] 3 by blast
  then show ?case using sound_asD(5) by (auto simp: wp_ret)
qed

definition confirmed :: "string \<Rightarrow> 'r world \<Rightarrow> bool" where
  "confirmed R t \<longleftrightarrow> (\<exists>q u. sound_here_as R t q u \<and> held t = Some q \<and> revision t = Some u \<and> events q = []
     \<and> status q = Processing \<and> debitTransactionReference q \<noteq> None \<and> leg_quiet moved pending (remote t) q credit_leg)"

lemma confirm_debit_step:
  assumes own: "own = own_keys R" and S: "sound_here_as R s p v" and held: "held s = Some p" and rev: "revision s = Some v"
    and ev: "events p = []" and st: "status p = Processing" "debitTransactionReference p = None"
  shows "wp (confirmDebit port p) (\<lambda>debited t. if debited then confirmed R t else sound_here R t) (\<lambda>_ t. sound_here R t) s"
  unfolding confirmDebit_def wp_andThen [where m = "catching a b" for a b] wp_andThen [where m = "on_remote c" for c]
    wp_catching wp_on_remote wp_ret
proof (rule wp_mono [OF find_law], goal_cases)
  case 1
  show ?case using sound_asD(1) [OF S] .
next
  case (2 found r)
  have S': "sound_here_as R (s\<lparr>remote := r\<rparr>) p v" using sound_as_remote [OF own S, of r "{}"] 2 by blast
  have coh: "coherent moved pending p r" using sound_asD(4) [OF S'] by simp
  have quiet: "leg_quiet moved pending r p credit_leg" using coh st by (simp add: coherent_def status_coherent_def)
  show ?case
  proof (cases found)
    case None
    show ?thesis unfolding None option.case
      by (rule decline_step [OF S' _ _ ev st]) (use held rev in \<open>auto simp: wp_ret\<close>)
  next
    case (Some m)
    with 2 obtain t a where m: "wf_ref TRANSACTION (transactionReference m)"
      "moved r (leg_wallet p debit_leg) (movementKey p debit_leg) = Some (value (transactionReference m), t, a)"
      by (auto simp: leg_wallet_def)
    have "wp (andThen new_Date (\<lambda>now. andThen (on_payment (markDebited (transactionReference m) now)) (\<lambda>_.
        andThen (transaction_run save) (\<lambda>_. ret True))))
      (\<lambda>debited t. if debited then confirmed R t else sound_here R t) (\<lambda>_ t. sound_here R t) (s\<lparr>remote := r\<rparr>)"
      by (rule debited_step [OF S' _ _ ev st m(1)])
         (use held rev quiet found_leg [OF coh m(2)] in \<open>auto simp: wp_ret confirmed_def\<close>)
    then show ?thesis unfolding Some option.case st(1) by (simp add: wp_eta)
  qed
next
  case (3 e r)
  have "sound_here_as R (s\<lparr>remote := r\<rparr>) p v" using sound_as_remote [OF own S, of r "{}"] 3 by blast
  then show ?case using sound_asD(5) by (auto simp: wp_ret)
qed

lemma refund_step:
  assumes own: "own = own_keys R" and S: "sound_here_as R s p v" and held: "held s = Some p" and rev: "revision s = Some v"
    and ev: "events p = []" and st: "status p = CompensationPending"
  shows "wp (refund port) (\<lambda>_ t. sound_here R t) (\<lambda>_ t. sound_here R t) s"
  unfolding refund_def wp_andThen [where m = "catching a b" for a b] wp_andThen [where m = "on_remote c" for c]
    wp_andThen [where m = the_payment] wp_the_payment [OF held] wp_catching wp_on_remote wp_ret
proof (rule wp_mono [OF credit_law], goal_cases)
  case 1
  show ?case using sound_asD(1) [OF S] .
next
  case (2 res r)
  let ?s = "s\<lparr>remote := r\<rparr>" and ?x = "transactionReference res"
  have issue: "{(value (source p), movementKey p refund_leg, CREDIT, amount (money p))} \<subseteq> leg_issue p ` issuable p"
    using st by (simp add: issuable_def leg_issue_def leg_wallet_def leg_type_def)
  have S': "sound_here_as R ?s p v" using sound_as_remote [OF own S _ _ issue] 2 by blast
  have m: "leg_moved moved r p refund_leg (Some ?x)"
    using 2 by (simp add: leg_moved_def leg_wallet_def leg_type_def)
  let ?now = "clock s (clock_reads s)" and ?t = "?s\<lparr>clock_reads := clock_reads s + 1\<rparr>"
  obtain why where why: "failureReason p = Some why"
    using sound_asD(2) [OF S] st by (auto simp: wf_payment_def wf_fields_def)
  let ?q = "p\<lparr>status := Compensated, updatedAt := ?now, refundTransactionReference := Some ?x, failureReason := Some why,
      completedAt := Some ?now, events := events p @ [PaymentCompensatedEvent (reference p) (money p) ?x ?now]\<rparr>"
  have op: "compensate ?x ?now p = (Inr (), ?q)" using st why by (simp add: compensate_iff)
  have wf: "wf_payment ?q" using apply_op_wf [of p "Compensate ?x" ?now ?q] op sound_asD(2) [OF S] 2 by simp
  have coh: "coherent moved pending ?q r" using coherent_compensated [OF _ st m] sound_asD(4) [OF S'] by simp
  have "wp (transaction_run (andThen save (\<lambda>_. andThen the_payment (\<lambda>q. andThen (completion_time q) (\<lambda>t.
      andThen (record_movements [refund_movement q ?x t]) (\<lambda>_. andThen (on_payment pullEvents) enqueue_events))))))
      (\<lambda>_ t. sound_here R t) (\<lambda>_ t. sound_here R t) (?t\<lparr>held := Some ?q\<rparr>)"
  proof (rule recording_step [where movements = "\<lambda>q t. [refund_movement q ?x t]" and time = ?now])
    show "sound_here_as R (?t\<lparr>held := Some ?q\<rparr>) p v" using S' by simp
    show "status p \<notin> {Approved, Declined, Compensated}" using st by simp
    show "events ?q = announcement ?q" using ev by (simp add: announcement.simps)
    show "ledger_of ?q = [refund_movement ?q ?x ?now]" by (simp add: ledger_of_def)
  qed (use rev wf coh in simp_all)
  then show ?case using held op by (simp add: wp_eta wp_new_Date wp_on_payment_op)
next
  case (3 e r)
  have issue: "{(value (source p), movementKey p refund_leg, CREDIT, amount (money p))} \<subseteq> leg_issue p ` issuable p"
    using st by (simp add: issuable_def leg_issue_def leg_wallet_def leg_type_def)
  have "sound_here_as R (s\<lparr>remote := r\<rparr>) p v" using sound_as_remote [OF own S _ _ issue] 3 by blast
  then show ?case using sound_asD(5) by (auto simp: wp_ret)
qed

lemma compensate_locked_sound:
  assumes own: "own = own_keys R" and s: "sound_here R s"
  shows "wp (compensate_executeLocked port R) (\<lambda>_ t. sound_here R t) (\<lambda>_ t. sound_here R t) s"
  unfolding compensate_executeLocked_def
proof (rule load_step [OF s], goal_cases)
  case (1 t p v)
  note S = sound_asD(5) [OF 1(1)]
  show ?case
  proof (cases "status p")
    case Processing
    show ?thesis
    proof (cases "debitTransactionReference p")
      case None
      have step: "wp (andThen new_Date (\<lambda>now. andThen (on_payment (markCompensationPending CREDIT_FAILED_REASON now)) (\<lambda>_.
          andThen (transaction_run save) (\<lambda>_. refund port)))) (\<lambda>_ t. sound_here R t) (\<lambda>_ t. sound_here R t) u"
        if "confirmed R u" for u
        using that unfolding confirmed_def
        by (elim exE conjE, intro owing_step) (assumption | rule refund_step [OF own] | simp)+
      have "wp (confirmDebit port p) (\<lambda>debited u. wp (if \<not> debited then ret None
          else andThen new_Date (\<lambda>now. andThen (on_payment (markCompensationPending CREDIT_FAILED_REASON now)) (\<lambda>_.
          andThen (transaction_run save) (\<lambda>_. refund port)))) (\<lambda>_ t. sound_here R t) (\<lambda>_ t. sound_here R t) u)
        (\<lambda>_ t. sound_here R t) t"
        by (rule wp_mono [OF confirm_debit_step [OF own 1(1-4) Processing None]]) (auto simp: wp_ret step split: if_splits)
      then show ?thesis using Processing None by (simp add: wp_eta Let_def cong: if_cong)
    next
      case (Some d)
      then show ?thesis using Processing reconcile_credit_step [OF own 1(1-4) Processing]
        by (simp add: wp_eta Let_def)
    qed
  next
    case CompensationPending
    then have "debitTransactionReference p \<noteq> None"
      using sound_asD(4) [OF 1(1)] by (auto simp: coherent_def status_coherent_def leg_moved_def)
    then show ?thesis using CompensationPending refund_step [OF own 1(1-4) CompensationPending]
      by (simp add: wp_eta Let_def)
  qed (use S in \<open>simp_all add: wp_simps\<close>)
qed

section \<open>The lock, the saga and the job\<close>

lemma execution_step:
  assumes P: "P s" and work: "\<And>t. P t \<Longrightarrow> wp work (\<lambda>_. Q) (\<lambda>_. E) t"
    and frame: "\<And>t a n. P t \<Longrightarrow> P (t\<lparr>lock_calls := n, active := a\<rparr>)" "\<And>t n. P t \<Longrightarrow> E (t\<lparr>lock_calls := n\<rparr>)"
      "\<And>t a. Q t \<Longrightarrow> Q (t\<lparr>active := a\<rparr>)" "\<And>t a. E t \<Longrightarrow> E (t\<lparr>active := a\<rparr>)" "\<And>t. Q t \<Longrightarrow> E t"
  shows "wp (execution_run ref work) (\<lambda>_. Q) (\<lambda>_. E) s"
proof (cases "active s = Some ref")
  case True
  then show ?thesis using work [OF P] by (simp add: wp_def execution_run_def)
next
  case False
  have "wp work (\<lambda>_. Q) (\<lambda>_. E) (s\<lparr>lock_calls := lock_calls s + 1, active := Some ref\<rparr>)"
    using work frame(1) [OF P] by blast
  then show ?thesis using False frame P
    by (auto simp: wp_def execution_run_def Let_def split: lock_event.splits prod.splits sum.splits)
qed

lemma debit_sound:
  assumes "own = own_keys R" and "sound_here R s"
  shows "wp (debit_execute port R) (\<lambda>_ t. sound_here R t \<and> credit_quiet R t) (\<lambda>_ t. sound_here R t) s"
  unfolding debit_execute_def
  by (rule execution_step [where P = "sound_here R"]) (use assms debit_locked_sound in auto)

lemma credit_sound:
  assumes "own = own_keys R" and "sound_here R s" and "credit_quiet R s"
  shows "wp (credit_execute port R) (\<lambda>_ t. sound_here R t) (\<lambda>_ t. sound_here R t) s"
  unfolding credit_execute_def
  by (rule execution_step [where P = "\<lambda>t. sound_here R t \<and> credit_quiet R t"])
     (use assms credit_locked_sound in auto)

lemma compensate_sound:
  assumes "own = own_keys R" and "sound_here R s"
  shows "wp (compensate_execute port R) (\<lambda>_ t. sound_here R t) (\<lambda>_ t. sound_here R t) s"
  unfolding compensate_execute_def
  by (rule execution_step [where P = "sound_here R"]) (use assms compensate_locked_sound in auto)

lemma saga_locked_sound:
  assumes own: "own = own_keys R" and s: "sound_here R s"
  shows "wp (saga_runLocked port R) (\<lambda>_ t. sound_here R t) (\<lambda>_ t. sound_here R t) s"
proof -
  have credit: "wp (credit_execute port R) (\<lambda>_. sound_here R) (\<lambda>e u. if e = ProcessDied then sound_here R u
      else wp (compensate_execute port R) (\<lambda>_. sound_here R) (\<lambda>_. sound_here R) u) t"
    if "sound_here R t" "credit_quiet R t" for t
    by (rule wp_mono [OF credit_sound [OF own that]]) (use compensate_sound [OF own] in auto)
  show ?thesis
    unfolding saga_runLocked_def wp_andThen [where m = "catching a b" for a b] wp_catching wp_eta
  proof (rule wp_mono [OF debit_sound [OF own s]], goal_cases)
    case (1 x t)
    then show ?case using credit by (simp only: wp_eta simp_thms if_False if_cancel)
  next
    case (2 e t)
    then show ?case by (simp add: wp_simps)
  qed
qed

lemma saga_sound:
  assumes own: "own = own_keys R" and s: "sound_here R s" and R: "value r = R"
  shows "wp (saga_run port r) (\<lambda>_ t. sound_here R t) (\<lambda>_ t. sound_here R t) s"
  unfolding saga_run_def R
  by (rule execution_step [where P = "sound_here R"]) (use assms saga_locked_sound in auto)

lemma stored_attempt:
  assumes "stored R d p v" and "\<And>row. f row = row\<lparr>reconciliation_attempts := a row, last_reconciliation_error := l row,
      next_reconciliation_at := n row\<rparr>"
  shows "stored R (d\<lparr>payments := updateBy row_reference R f (payments d)\<rparr>) p v"
proof -
  have "lookupBy row_reference R (updateBy row_reference R f (payments d)) = map_option f (lookupBy row_reference R (payments d))"
    by (rule lookupBy_updateBy_same) (simp add: assms(2))
  moreover have "toDomain (f row) = toDomain row" for row
    by (simp add: assms(2) toDomain_def snapshot_of_row_def)
  ultimately show ?thesis using assms(1) by (auto simp: stored_def assms(2))
qed

lemma attempt_step:
  assumes s: "sound_here R s" and R: "value r = R"
  shows "wp (recordRecoveryAttempt r failure) (\<lambda>_ t. sound_here R t) (\<lambda>_ t. sound_here R t) s"
proof -
  obtain p v where S: "sound_here_as R s p v" using s unfolding sound_def by blast
  define base where "base = tx_others (tx_script s (txs s)) (db s)"
  have old: "stored R base p v" "announced p (messages_of R base)" using sound_as_base [OF S base_def] by simp_all
  have b: "sound_here R t" if "db t = base" "remote t = remote s" "tx_script t = tx_script s" "\<not> in_tx t" for t
    using that S old unfolding sound_def sound_as_def by (intro exI [of _ p] exI [of _ v]) simp
  have w: "sound_here R t"
    if "db t = base\<lparr>payments := updateBy row_reference R (\<lambda>row. row\<lparr>reconciliation_attempts := reconciliation_attempts row + 1,
                    last_reconciliation_error := map_option (take 2000) failure,
                    next_reconciliation_at := now + recovery_delay (reconciliation_attempts row)\<rparr>) (payments base)\<rparr>"
      and "remote t = remote s" "tx_script t = tx_script s" "\<not> in_tx t" for t now
    using that S old stored_attempt [OF old(1)] unfolding sound_def sound_as_def
    by (intro exI [of _ p] exI [of _ v]) (simp add: messages_of_def)
  show ?thesis
    unfolding recordRecoveryAttempt_def
    by (rule wp_transaction_run [OF _ base_def]) (use S b w in \<open>simp_all add: wp_simps R sound_as_def\<close>)
qed

lemma find_stable: "value r = R \<Longrightarrow> stable (sound_here R) (findByReference r)"
  by (rule stableI, rule find_step) (auto dest: sound_asD(5))

lemma recover_sound:
  assumes own: "own = own_keys R" and s: "sound_here R s" and R: "value r = R"
  shows "wp (recover port r) (\<lambda>_ t. sound_here R t) (\<lambda>_ t. sound_here R t) s"
  unfolding recover_def
proof (rule execution_step [where P = "sound_here R", OF s], goal_cases)
  case (1 t)
  have parts: "stable (sound_here R) (saga_run port r)" "stable (sound_here R) (compensate_execute port (value r))"
    "stable (sound_here R) (recordRecoveryAttempt r failure)" for failure
    using saga_sound [OF own _ R] compensate_sound [OF own] attempt_step [OF _ R] R by (simp_all add: stable_def)
  show ?case
    by (rule stableD [where I = "sound_here R" and s = t, OF _ 1]) (intro stable_andThen stable_option stable_if stable_catching stable_ret find_stable [OF R] parts)
qed simp_all

end

end
