(* ===== verification/Saga_Outcome.thy ===== *)
theory Saga_Outcome
  imports Saga
begin

text \<open>
  What a run achieves when the database and the lock behave: the final status as a function of the
  answers of the accounts service. \<open>saga_outcome\<close> and \<open>recovery_outcome\<close> are the specification, a
  decision table without database, locks or aggregates; the handlers implement it. A call in which
  the process dies has no outcome.
\<close>

section \<open>The specification\<close>

definition refund_outcome :: "'r AccountsPort \<Rightarrow> Payment \<Rightarrow> 'r \<Rightarrow> (PaymentStatus \<times> 'r) option" where
  "refund_outcome port p r =
     (case port_credit port (source p) (money p) (movementKey p refund_leg)
             (movement_details p ''Refund of a failed payment'') r of
        (Inr m, r') \<Rightarrow> Some (Compensated, r')
      | (Inl e, r') \<Rightarrow> if e = ProcessDied then None else Some (CompensationPending, r'))"

definition credit_lookup_outcome :: "'r AccountsPort \<Rightarrow> Payment \<Rightarrow> 'r \<Rightarrow> (PaymentStatus \<times> 'r) option" where
  "credit_lookup_outcome port p r =
     (case port_findMovement port (destination p) (movementKey p credit_leg) r of
        (Inr found, r') \<Rightarrow> Some (if found = None then Processing else Approved, r')
      | (Inl e, r') \<Rightarrow> if e = ProcessDied then None else Some (Processing, r'))"

definition credit_outcome :: "'r AccountsPort \<Rightarrow> Payment \<Rightarrow> 'r \<Rightarrow> (PaymentStatus \<times> 'r) option" where
  "credit_outcome port p r =
     (case port_credit port (destination p) (money p) (movementKey p credit_leg)
             (movement_details p (description p)) r of
        (Inr m, r') \<Rightarrow> Some (Approved, r')
      | (Inl e, r') \<Rightarrow>
          if e = ProcessDied then None
          else if is_refusal e then refund_outcome port p r'
          else credit_lookup_outcome port p r')"

definition saga_outcome :: "'r AccountsPort \<Rightarrow> Payment \<Rightarrow> 'r \<Rightarrow> (PaymentStatus \<times> 'r) option" where
  "saga_outcome port p r =
     (case port_debit port (source p) (money p) (movementKey p debit_leg)
             (movement_details p (description p)) r of
        (Inr m, r') \<Rightarrow> credit_outcome port p r'
      | (Inl e, r') \<Rightarrow>
          if e = ProcessDied then None else Some (if is_refusal e then Declined else Processing, r'))"

definition recovery_outcome :: "'r AccountsPort \<Rightarrow> Payment \<Rightarrow> 'r \<Rightarrow> (PaymentStatus \<times> 'r) option" where
  "recovery_outcome port p r =
     (if status p = CompensationPending then refund_outcome port p r
      else if debitTransactionReference p \<noteq> None then credit_lookup_outcome port p r
      else (case port_findMovement port (source p) (movementKey p debit_leg) r of
              (Inr None, r') \<Rightarrow> Some (Declined, r')
            | (Inr (Some m), r') \<Rightarrow> refund_outcome port p r'
            | (Inl e, r') \<Rightarrow> if e = ProcessDied then None else Some (Processing, r')))"

text \<open>The specification reads only these fields.\<close>

lemma outcome_cong:
  assumes "source q = source p" "destination q = destination p" "money q = money p" "reference q = reference p"
    "description q = description p"
  shows "refund_outcome port q = refund_outcome port p" "credit_lookup_outcome port q = credit_lookup_outcome port p"
    "credit_outcome port q = credit_outcome port p" "saga_outcome port q = saga_outcome port p"
    "status q = status p \<Longrightarrow> debitTransactionReference q = debitTransactionReference p
       \<Longrightarrow> recovery_outcome port q = recovery_outcome port p"
proof -
  note key = leg_cong(5) [OF assms(4,3,1,2)]
  have details: "movement_details q words = movement_details p words" for words
    using assms(4) by (simp add: movement_details_def)
  show r: "refund_outcome port q = refund_outcome port p" and l: "credit_lookup_outcome port q = credit_lookup_outcome port p"
    unfolding refund_outcome_def credit_lookup_outcome_def key details assms by (rule refl)+
  show c: "credit_outcome port q = credit_outcome port p"
    unfolding credit_outcome_def key details assms r l by (rule refl)
  show "saga_outcome port q = saga_outcome port p" unfolding saga_outcome_def key details assms c by (rule refl)
  show "recovery_outcome port q = recovery_outcome port p"
    if "status q = status p" "debitTransactionReference q = debitTransactionReference p"
    unfolding recovery_outcome_def key details assms that r l by (rule refl)
qed

lemma twin_spec_fields:
  assumes "twin p q"
  shows "source q = source p" "destination q = destination p" "money q = money p" "reference q = reference p"
    "description q = description p" "status q = status p" "debitTransactionReference q = debitTransactionReference p"
    "metadata q = metadata p"
  using assms unfolding twin_def by (cases p; cases q; simp)+

section \<open>A database and a lock that behave\<close>

definition well_behaved :: "string \<Rightarrow> 'r world \<Rightarrow> bool" where
  "well_behaved R s \<longleftrightarrow> calm_db s \<and> (\<forall>n. lock_script s n = LockGranted True)
     \<and> (\<forall>n. legit_tx R (tx_others (tx_script s n))) \<and> \<not> in_tx s"

text \<open>A payment at rest in the database, and a payment in the hands of a handler.\<close>

definition at_rest :: "string \<Rightarrow> 'r world \<Rightarrow> Payment \<Rightarrow> bool" where
  "at_rest R s p \<longleftrightarrow> well_behaved R s \<and> (\<exists>v. stored R (db s) p v)"

definition in_hand :: "string \<Rightarrow> 'r world \<Rightarrow> Payment \<Rightarrow> bool" where
  "in_hand R s p \<longleftrightarrow> well_behaved R s \<and> held s = Some p \<and> events p = []
     \<and> (\<exists>v. stored R (db s) p v \<and> revision s = Some v)"

lemma well_behaved_scripts: "same_scripts s t \<Longrightarrow> well_behaved R s \<Longrightarrow> well_behaved R t"
  by (simp add: same_scripts_def well_behaved_def calm_db_def)

lemma well_behaved_frame [simp]:
  "well_behaved R (s\<lparr>clock_reads := n\<rparr>) = well_behaved R s" "well_behaved R (s\<lparr>held := h\<rparr>) = well_behaved R s"
  "well_behaved R (s\<lparr>remote := r\<rparr>) = well_behaved R s" "well_behaved R (s\<lparr>active := a\<rparr>) = well_behaved R s"
  "well_behaved R (s\<lparr>lock_calls := n\<rparr>) = well_behaved R s" "well_behaved R (s\<lparr>db_reads := n\<rparr>) = well_behaved R s"
  "well_behaved R (s\<lparr>revision := v\<rparr>) = well_behaved R s"
  by (simp_all add: well_behaved_def calm_db_def)

lemma at_rest_frame [simp]:
  "at_rest R (s\<lparr>active := a\<rparr>) p = at_rest R s p" "at_rest R (s\<lparr>lock_calls := n\<rparr>) p = at_rest R s p"
  "at_rest R (s\<lparr>remote := r\<rparr>) p = at_rest R s p" "in_hand R (s\<lparr>remote := r\<rparr>) p = in_hand R s p"
  by (simp_all add: at_rest_def in_hand_def)

lemma in_hand_rests: "in_hand R s p \<Longrightarrow> at_rest R s p"
  by (auto simp: in_hand_def at_rest_def)

lemma at_rest_payment: "at_rest R s p \<Longrightarrow> wf_payment p \<and> value (reference p) = R"
  by (auto simp: at_rest_def stored_def)

lemma wp_answer: "m s = (Inr x, t) \<Longrightarrow> wp m Q E s = Q x t" "m s = (Inl e, t) \<Longrightarrow> wp m Q E s = E e t"
  by (simp_all add: wp_def)

lemma load_healthy:
  assumes s: "at_rest R s p"
    and Q: "\<And>t q. in_hand R t q \<Longrightarrow> twin p q \<Longrightarrow> remote t = remote s \<Longrightarrow> wp (body (Some q)) Q E t"
  shows "wp (andThen (raiseInl (Reference_of PAYMENT R)) (\<lambda>r. andThen (findByReference r) body)) Q E s"
proof -
  from s obtain v row p0 where row: "lookupBy row_reference R (payments (db s)) = Some row" "toDomain row = Inr p0"
      "twin p0 p" "version row = v" "stored R (db s) p v"
    by (auto simp: at_rest_def stored_def)
  have "wf_ref PAYMENT (reference p)" "value (reference p) = R" using at_rest_payment [OF s] by (auto simp: wf_payment_def)
  then have R: "Reference_of PAYMENT R = Inr (reference p)" using Reference_of_value by blast
  let ?t = "s\<lparr>db_reads := db_reads s + 1, held := Some p0, revision := Some v\<rparr>"
  have "in_hand R ?t p0"
    using s stored_twin [OF row(5) twin_sym [OF row(3)]] toDomain_transactionId [OF row(2)]
    by (simp add: in_hand_def at_rest_def)
  then have "wp (body (Some p0)) Q E ?t" by (rule Q) (use twin_sym [OF row(3)] in simp_all)
  moreover have "read_script s (db_reads s)" using s by (simp add: at_rest_def well_behaved_def calm_db_def)
  ultimately show ?thesis
    using row \<open>value (reference p) = R\<close>
    by (simp add: R wp_simps findByReference_def hydrate_def)
qed

lemma op_step:
  assumes s: "in_hand R s p" and op: "apply_op op (clock s (clock_reads s)) p = (Inr (), q)" and wf: "op_wf op"
    and ev: "events q = []"
    and Q: "\<And>t. in_hand R t q \<Longrightarrow> remote t = remote s \<Longrightarrow> wp (K ()) Q E t"
  shows "wp (andThen new_Date (\<lambda>now. andThen (on_payment (apply_op op now)) (\<lambda>_. andThen (transaction_run save) K))) Q E s"
proof -
  obtain v where v: "stored R (db s) p v" "revision s = Some v" and w: "well_behaved R s" and held: "held s = Some p"
    using s by (auto simp: in_hand_def)
  have p: "wf_payment p" using v(1) by (auto simp: stored_def)
  have id: "reference q = reference p" "money q = money p" "transactionId q = transactionId p"
    using apply_op_identity [of op "clock s (clock_reads s)" p] op by simp_all
  let ?s = "s\<lparr>clock_reads := clock_reads s + 1, held := Some q\<rparr>"
  have eq: "save = andThen save (\<lambda>_. ret ())"
    by (auto simp: fun_eq_iff andThen_def ret_def split: prod.splits sum.splits)
  have "wp (transaction_run (andThen save (\<lambda>_. ret ()))) (\<lambda>x. wp (K x) Q E) E ?s"
  proof (rule save_core [where P = "\<lambda>_. True" and h = q and p = p and q = q and v = v])
    show "\<not> in_tx ?s" "\<forall>n. legit_tx R (tx_others (tx_script ?s n))" using w by (simp_all add: well_behaved_def)
    show "wf_payment q" using apply_op_wf [OF p wf op] .
    fix t :: "'a world" assume "held t = Some q"
    then show "wp (ret ()) (\<lambda>_ u. \<exists>ms. grows R ms q t u \<and> True) (\<lambda>_ _. False) t"
      by (auto simp: wp_ret grows_def intro!: exI [of _ "[]"])
  next
    fix t ms assume t: "stored R (db t) q (v + 1)" "same_scripts ?s t" "revision t = Some (v + 1)" "held t = Some q"
      "remote t = remote ?s"
    have "well_behaved R t" using well_behaved_scripts [OF t(2)] w by simp
    then show "wp (K ()) Q E t" using t ev by (intro Q) (auto simp: in_hand_def)
  next
    fix e t assume "\<not> calm_db ?s"
    then show "E e t" using w by (simp add: well_behaved_def calm_db_def)
  qed (use v id in simp_all)
  then show ?thesis using held op by (subst (asm) eq [symmetric]) (simp add: wp_andThen wp_new_Date wp_on_payment_op)
qed

lemma final_step:
  assumes s: "in_hand R s p" and op: "apply_op op (clock s (clock_reads s)) p = (Inr (), q)" and wf: "op_wf op"
    and tail: "\<And>t. held t = Some q \<Longrightarrow> wp T (\<lambda>_ u. \<exists>ms. grows R ms h t u \<and> True) (\<lambda>_ _. False) t"
    and Q: "\<And>t. at_rest R t q \<Longrightarrow> remote t = remote s \<Longrightarrow> wp (K ()) Q E t"
  shows "wp (andThen new_Date (\<lambda>now. andThen (on_payment (apply_op op now)) (\<lambda>_.
      andThen (transaction_run (andThen save (\<lambda>_. T))) K))) Q E s"
proof -
  obtain v where v: "stored R (db s) p v" "revision s = Some v" and w: "well_behaved R s" and held: "held s = Some p"
    using s by (auto simp: in_hand_def)
  have p: "wf_payment p" using v(1) by (auto simp: stored_def)
  have id: "reference q = reference p" "money q = money p" "transactionId q = transactionId p"
    using apply_op_identity [of op "clock s (clock_reads s)" p] op by simp_all
  let ?s = "s\<lparr>clock_reads := clock_reads s + 1, held := Some q\<rparr>"
  have "wp (transaction_run (andThen save (\<lambda>_. T))) (\<lambda>x. wp (K x) Q E) E ?s"
  proof (rule save_core [where P = "\<lambda>_. True" and h = h and p = p and q = q and v = v, OF _ _ _ _ _ _ _ _ _ tail])
    show "\<not> in_tx ?s" "\<forall>n. legit_tx R (tx_others (tx_script ?s n))" using w by (simp_all add: well_behaved_def)
    show "wf_payment q" using apply_op_wf [OF p wf op] .
  next
    fix t ms assume t: "stored R (db t) q (v + 1)" "same_scripts ?s t" "remote t = remote ?s"
    have "well_behaved R t" using well_behaved_scripts [OF t(2)] w by simp
    then show "wp (K ()) Q E t" using t by (intro Q) (auto simp: at_rest_def)
  next
    fix e t assume "\<not> calm_db ?s"
    then show "E e t" using w by (simp add: well_behaved_def calm_db_def)
  qed (use v id in simp_all)
  then show ?thesis using held op by (simp add: wp_andThen wp_new_Date wp_on_payment_op)
qed

lemma execution_healthy:
  assumes s: "at_rest R s p" and work: "\<And>t. at_rest R t p \<Longrightarrow> remote t = remote s \<Longrightarrow> wp work Q E t"
    and frame: "\<And>x t a. Q x t \<Longrightarrow> Q x (t\<lparr>active := a\<rparr>)" "\<And>e t a. E e t \<Longrightarrow> E e (t\<lparr>active := a\<rparr>)"
  shows "wp (execution_run ref work) Q E s"
proof (cases "active s = Some ref")
  case True
  then show ?thesis using work [OF s refl] by (simp add: wp_def execution_run_def)
next
  case False
  have "lock_script s (lock_calls s) = LockGranted True" using s by (simp add: at_rest_def well_behaved_def)
  moreover have "wp work Q E (s\<lparr>lock_calls := lock_calls s + 1, active := Some ref\<rparr>)" using s by (intro work) simp_all
  ultimately show ?thesis using False frame
    by (auto simp: wp_def execution_run_def Let_def split: prod.splits sum.splits)
qed

text \<open>The tails of the transactions that end a payment.\<close>

lemma events_tail: "held t = Some q \<Longrightarrow> events q = announcement q \<Longrightarrow>
    wp (andThen (on_payment pullEvents) enqueue_events)
      (\<lambda>_ u. \<exists>ms. grows (value (reference q)) ms (q\<lparr>events := []\<rparr>) t u \<and> True) (\<lambda>_ _. False) t"
  by (rule wp_pull_and_enqueue) auto

lemma record_tail:
  assumes "held t = Some q" "events q = announcement q" "completedAt q = Some time" "ledger_of q = movements q time"
  shows "wp (andThen the_payment (\<lambda>p. andThen (completion_time p) (\<lambda>t.
      andThen (record_movements (movements p t)) (\<lambda>_. andThen (on_payment pullEvents) enqueue_events))))
    (\<lambda>_ u. \<exists>ms. grows (value (reference q)) ms (q\<lparr>events := []\<rparr>) t u \<and> True) (\<lambda>_ _. False) t"
  unfolding wp_andThen [where m = the_payment] wp_the_payment [OF assms(1)]
  by (rule wp_record [where movements = "movements q", OF assms(1,3,2) refl assms(4)]) blast

text \<open>The fields no operation changes.\<close>

definition same_payment :: "Payment \<Rightarrow> Payment \<Rightarrow> bool" where
  "same_payment p q \<longleftrightarrow> reference q = reference p \<and> transactionId q = transactionId p \<and> money q = money p
     \<and> source q = source p \<and> destination q = destination p \<and> description q = description p
     \<and> metadata q = metadata p"

lemma same_payment_refl [simp]: "same_payment p p"
  by (simp add: same_payment_def)

lemma same_payment_trans: "same_payment p q \<Longrightarrow> same_payment q r \<Longrightarrow> same_payment p r"
  by (simp add: same_payment_def)

lemma same_payment_twin: "twin p q \<Longrightarrow> same_payment p q"
  using twin_spec_fields(1-5,8) twin_same(4) unfolding same_payment_def by blast

text \<open>The run ended with the payment at rest in this status and the accounts service in this state.\<close>

definition ends_as :: "string \<Rightarrow> Payment \<Rightarrow> PaymentStatus \<Rightarrow> 'r \<Rightarrow> 'r world \<Rightarrow> bool" where
  "ends_as R p st r t \<longleftrightarrow> remote t = r \<and> (\<exists>q. at_rest R t q \<and> same_payment p q \<and> status q = st)"

lemma ends_asI: "at_rest R t q \<Longrightarrow> remote t = r \<Longrightarrow> status q = st \<Longrightarrow> same_payment p q \<Longrightarrow> ends_as R p st r t"
  by (auto simp: ends_as_def)

lemma ends_as_same: "same_payment p q \<Longrightarrow> ends_as R q st r t \<Longrightarrow> ends_as R p st r t"
  using same_payment_trans by (fastforce simp: ends_as_def)

lemma ends_as_frame [simp]: "ends_as R p st r (t\<lparr>active := a\<rparr>) = ends_as R p st r t"
  by (simp add: ends_as_def)

lemma in_hand_ends: "in_hand R t q \<Longrightarrow> ends_as R q (status q) (remote t) t"
  by (rule ends_asI [OF in_hand_rests _ _ same_payment_refl]) (rule refl | assumption)+

lemma wp_ends_as_same: "wp m (\<lambda>_. ends_as R q st r) (\<lambda>_ _. False) s \<Longrightarrow> same_payment p q
    \<Longrightarrow> wp m (\<lambda>_. ends_as R p st r) (\<lambda>_ _. False) s"
  by (erule wp_mono) (auto intro: ends_as_same)

lemma in_hand_payment: "in_hand R t q \<Longrightarrow> wf_payment q \<and> value (reference q) = R \<and> events q = []"
  by (auto simp: in_hand_def stored_def)

lemma decline_healthy:
  assumes s: "in_hand R s p" and st: "status p \<in> {Pending, Processing}"
    and Q: "\<And>t. ends_as R p Declined (remote s) t \<Longrightarrow> wp (K ()) Q E t"
  shows "wp (andThen new_Date (\<lambda>now. andThen (on_payment (decline reason now)) (\<lambda>_.
      andThen (transaction_run (andThen save (\<lambda>_. andThen (on_payment pullEvents) enqueue_events))) K))) Q E s"
proof -
  let ?now = "clock s (clock_reads s)"
  let ?q = "p\<lparr>status := Declined, updatedAt := ?now, failureReason := Some reason, completedAt := Some ?now,
      events := events p @ [PaymentDeclinedEvent (reference p) (money p) reason ?now]\<rparr>"
  have op: "apply_op (Decline reason) ?now p = (Inr (), ?q)" using st by (simp add: decline_iff)
  have tail: "wp (andThen (on_payment pullEvents) enqueue_events)
      (\<lambda>_ u. \<exists>ms. grows R ms (?q\<lparr>events := []\<rparr>) t u \<and> True) (\<lambda>_ _. False) t" if "held t = Some ?q" for t :: "'a world"
    using events_tail [OF that] in_hand_payment [OF s] by (simp add: announcement.simps)
  have "wp (andThen new_Date (\<lambda>now. andThen (on_payment (apply_op (Decline reason) now)) (\<lambda>_.
      andThen (transaction_run (andThen save (\<lambda>_. andThen (on_payment pullEvents) enqueue_events))) K))) Q E s"
    by (rule final_step [OF s op _ tail]) (auto intro!: Q simp: same_payment_def elim!: ends_asI)
  then show ?thesis by simp
qed

lemma settle_healthy:
  assumes s: "in_hand R s p" and st: "status p = Processing" "debitTransactionReference p = Some d" "wf_ref TRANSACTION x"
    and Q: "\<And>t. ends_as R p Approved (remote s) t \<Longrightarrow> Q () t"
  shows "wp (settle x) Q E s"
proof -
  let ?now = "clock s (clock_reads s)"
  let ?q = "p\<lparr>status := Approved, updatedAt := ?now, creditTransactionReference := Some x, completedAt := Some ?now,
      events := events p @ [PaymentApprovedEvent (reference p) (money p) d x ?now]\<rparr>"
  have op: "apply_op (Approve x) ?now p = (Inr (), ?q)" unfolding apply_op.simps approve_iff
    by (intro conjI exI [of _ d]) (rule st refl)+
  let ?T = "andThen the_payment (\<lambda>p. andThen (completion_time p) (\<lambda>t.
      andThen (record_movements (settled_movements p x t)) (\<lambda>_. andThen (on_payment pullEvents) enqueue_events)))"
  have tail: "wp ?T (\<lambda>_ u. \<exists>ms. grows R ms (?q\<lparr>events := []\<rparr>) t u \<and> True) (\<lambda>_ _. False) t"
    if "held t = Some ?q" for t :: "'a world"
    using record_tail [where movements = "\<lambda>p. settled_movements p x" and time = ?now, OF that] in_hand_payment [OF s] st(2)
    by (simp add: announcement.simps ledger_of_def)
  have eq: "transaction_run m = andThen (transaction_run m) ret" for m :: "('a, unit) work"
    by (auto simp: fun_eq_iff andThen_def ret_def split: prod.splits sum.splits)
  have "wp (andThen new_Date (\<lambda>now. andThen (on_payment (apply_op (Approve x) now)) (\<lambda>_.
      andThen (transaction_run (andThen save (\<lambda>_. ?T))) ret))) Q E s"
    by (rule final_step [OF s op _ tail]) (use st in \<open>auto intro!: Q simp: same_payment_def wp_ret elim!: ends_asI\<close>)
  then show ?thesis unfolding settle_def by (subst eq) simp
qed

lemma refund_healthy:
  assumes s: "in_hand R s p" and st: "status p = CompensationPending" and wf: "wf_ref TRANSACTION (transactionReference m)"
    and answer: "port_credit port (source p) (money p) (movementKey p refund_leg)
        (movement_details p ''Refund of a failed payment'') (remote s) = (Inr m, r)"
    and Q: "\<And>x t. ends_as R p Compensated r t \<Longrightarrow> Q x t"
  shows "wp (refund port) Q E s"
proof -
  let ?x = "transactionReference m" and ?s = "s\<lparr>remote := r\<rparr>"
  let ?now = "clock s (clock_reads s)"
  obtain why where why: "failureReason p = Some why"
    using in_hand_payment [OF s] st by (auto simp: wf_payment_def wf_fields_def)
  have held: "held s = Some p" using s by (simp add: in_hand_def)
  let ?q = "p\<lparr>status := Compensated, updatedAt := ?now, refundTransactionReference := Some ?x, failureReason := Some why,
      completedAt := Some ?now, events := events p @ [PaymentCompensatedEvent (reference p) (money p) ?x ?now]\<rparr>"
  have op: "apply_op (Compensate ?x) (clock ?s (clock_reads ?s)) p = (Inr (), ?q)"
    using st why by (simp add: compensate_iff)
  let ?T = "andThen the_payment (\<lambda>q. andThen (completion_time q) (\<lambda>t.
      andThen (record_movements [refund_movement q ?x t]) (\<lambda>_. andThen (on_payment pullEvents) enqueue_events)))"
  have tail: "wp ?T (\<lambda>_ u. \<exists>ms. grows R ms (?q\<lparr>events := []\<rparr>) t u \<and> True) (\<lambda>_ _. False) t"
    if "held t = Some ?q" for t :: "'a world"
    using record_tail [where movements = "\<lambda>q t. [refund_movement q ?x t]" and time = ?now, OF that] in_hand_payment [OF s]
    by (simp add: announcement.simps ledger_of_def)
  have "wp (andThen new_Date (\<lambda>now. andThen (on_payment (apply_op (Compensate ?x) now)) (\<lambda>_.
      andThen (transaction_run (andThen save (\<lambda>_. ?T))) (\<lambda>_. ret (Some (value ?x)))))) Q E ?s"
    by (rule final_step [OF _ op _ tail]) (use s wf in \<open>auto intro!: Q simp: same_payment_def wp_ret elim!: ends_asI\<close>)
  then show ?thesis
    unfolding refund_def wp_andThen [where m = the_payment] wp_the_payment [OF held]
      wp_andThen [where m = "catching a b" for a b] wp_catching wp_andThen [where m = "on_remote c" for c] wp_on_remote
      wp_answer(1) [where m = "port_credit port a b c d" and s = r for a b c d r, OF answer] wp_ret
    by simp
qed

lemma refund_refused:
  assumes s: "in_hand R s p" and st: "status p = CompensationPending" and e: "e \<noteq> ProcessDied"
    and answer: "port_credit port (source p) (money p) (movementKey p refund_leg)
        (movement_details p ''Refund of a failed payment'') (remote s) = (Inl e, r)"
    and Q: "\<And>x t. ends_as R p CompensationPending r t \<Longrightarrow> Q x t"
  shows "wp (refund port) Q E s"
proof -
  have held: "held s = Some p" using s by (simp add: in_hand_def)
  have "ends_as R p CompensationPending r (s\<lparr>remote := r\<rparr>)"
    using in_hand_ends [of R "s\<lparr>remote := r\<rparr>" p] s st by simp
  then show ?thesis
    using Q e unfolding refund_def wp_andThen [where m = the_payment] wp_the_payment [OF held]
      wp_andThen [where m = "catching a b" for a b] wp_catching wp_andThen [where m = "on_remote c" for c] wp_on_remote
      wp_answer(2) [where m = "port_credit port a b c d" and s = r for a b c d r, OF answer] wp_ret
    by (simp add: wp_ret)
qed

section \<open>The handlers implement the specification\<close>

text \<open>The outcome of a call, as the locale guarantees it.\<close>

context accounts_contract
begin

lemma debit_answers:
  assumes "inv r"
  shows "port_debit port w m k d r = (Inr x, r') \<Longrightarrow> inv r' \<and> wf_ref TRANSACTION (transactionReference x)"
    and "port_debit port w m k d r = (Inl e, r') \<Longrightarrow> inv r' \<and> (is_refusal e \<or> is_unavailable e \<or> e = ProcessDied)"
  using wp_returns [OF debit_law [OF assms]] wp_throws [OF debit_law [OF assms]] by blast+

lemma credit_answers:
  assumes "inv r"
  shows "port_credit port w m k d r = (Inr x, r') \<Longrightarrow> inv r' \<and> wf_ref TRANSACTION (transactionReference x)"
    and "port_credit port w m k d r = (Inl e, r') \<Longrightarrow> inv r' \<and> (is_refusal e \<or> is_unavailable e \<or> e = ProcessDied)"
  using wp_returns [OF credit_law [OF assms]] wp_throws [OF credit_law [OF assms]] by blast+

lemma find_answers:
  assumes "inv r"
  shows "port_findMovement port w k r = (Inr (Some x), r') \<Longrightarrow> inv r' \<and> wf_ref TRANSACTION (transactionReference x)"
    and "port_findMovement port w k r = (Inr None, r') \<Longrightarrow> inv r'"
    and "port_findMovement port w k r = (Inl e, r') \<Longrightarrow> inv r' \<and> (is_unavailable e \<or> e = ProcessDied)"
  using wp_returns [OF find_law [OF assms]] wp_throws [OF find_law [OF assms]] by fastforce+

lemma refund_implements:
  assumes s: "in_hand R s p" and st: "status p = CompensationPending" and "inv (remote s)"
    and out: "refund_outcome port p (remote s) = Some (final, r)"
  shows "wp (refund port) (\<lambda>_. ends_as R p final r) (\<lambda>_ _. False) s"
proof (cases "port_credit port (source p) (money p) (movementKey p refund_leg)
        (movement_details p ''Refund of a failed payment'') (remote s)")
  case (Pair answer r')
  show ?thesis
  proof (cases answer)
    case (Inl e)
    with Pair out have "e \<noteq> ProcessDied" "final = CompensationPending" "r' = r"
      by (auto simp: refund_outcome_def split: if_splits)
    then show ?thesis using Pair Inl by (intro refund_refused [OF s st]) auto
  next
    case (Inr m)
    with Pair out have "final = Compensated" "r' = r" by (auto simp: refund_outcome_def)
    moreover have "wf_ref TRANSACTION (transactionReference m)"
      using credit_answers(1) [OF assms(3)] Pair Inr by blast
    ultimately show ?thesis using Pair Inr by (intro refund_healthy [OF s st, where m = m and port = port]) auto
  qed
qed

lemma owing_healthy:
  assumes s: "in_hand R s p" and st: "status p = Processing"
    and Q: "\<And>t q. in_hand R t q \<Longrightarrow> remote t = remote s \<Longrightarrow> status q = CompensationPending \<Longrightarrow>
      same_payment p q \<Longrightarrow> debitTransactionReference q = debitTransactionReference p \<Longrightarrow> wp (K ()) Q E t"
  shows "wp (andThen new_Date (\<lambda>now. andThen (on_payment (markCompensationPending reason now)) (\<lambda>_.
      andThen (transaction_run save) K))) Q E s"
proof -
  let ?now = "clock s (clock_reads s)"
  let ?q = "p\<lparr>status := CompensationPending, updatedAt := ?now, failureReason := Some reason\<rparr>"
  have op: "apply_op (MarkCompensationPending reason) ?now p = (Inr (), ?q)"
    using st by (simp add: markCompensationPending_iff)
  have "wp (andThen new_Date (\<lambda>now. andThen (on_payment (apply_op (MarkCompensationPending reason) now)) (\<lambda>_.
      andThen (transaction_run save) K))) Q E s"
    by (rule op_step [OF s op]) (use in_hand_payment [OF s] in \<open>auto intro: Q simp: same_payment_def\<close>)
  then show ?thesis by simp
qed

lemma reconcile_credit_implements:
  assumes s: "in_hand R s p" and st: "status p = Processing" "debitTransactionReference p \<noteq> None" and i: "inv (remote s)"
    and out: "credit_lookup_outcome port p (remote s) = Some (final, r)"
  shows "wp (reconcileCredit port p) (\<lambda>_. ends_as R p final r) (\<lambda>_ _. False) s"
proof (cases "port_findMovement port (destination p) (movementKey p credit_leg) (remote s)")
  case (Pair answer r')
  have stays: "ends_as R p Processing r' (s\<lparr>remote := r'\<rparr>)"
    using in_hand_ends [of R "s\<lparr>remote := r'\<rparr>" p] s st by simp
  note run = reconcileCredit_def wp_andThen [where m = "catching a b" for a b] wp_catching
    wp_andThen [where m = "on_remote c" for c] wp_on_remote wp_ret wp_def [where m = "port_findMovement port a b" for a b]
    Pair
  show ?thesis
  proof (cases answer)
    case (Inl e)
    with Pair out have "e \<noteq> ProcessDied" "final = Processing" "r' = r"
      by (auto simp: credit_lookup_outcome_def split: if_splits)
    then show ?thesis using stays Inl by (simp add: run)
  next
    case (Inr found)
    with Pair out have f: "final = (if found = None then Processing else Approved)" "r' = r"
      by (auto simp: credit_lookup_outcome_def)
    show ?thesis
    proof (cases found)
      case None
      then show ?thesis using stays Inr f by (simp add: run)
    next
      case (Some m)
      obtain d where d: "debitTransactionReference p = Some d" using st(2) by blast
      have "wf_ref TRANSACTION (transactionReference m)" using find_answers(1) [OF i] Pair Inr Some by blast
      then have "wp (settle (transactionReference m)) (\<lambda>_. ends_as R p final r) (\<lambda>_ _. False) (s\<lparr>remote := r\<rparr>)"
        using s st d f Some by (intro settle_healthy [where p = p and d = d and R = R]) simp_all
      then show ?thesis using Inr Some f by (simp add: run)
    qed
  qed
qed

lemma confirm_debit_implements:
  assumes s: "in_hand R s p" and st: "status p = Processing" "debitTransactionReference p = None" and i: "inv (remote s)"
    and out: "recovery_outcome port p (remote s) = Some (final, r)"
  shows "wp (andThen (confirmDebit port p) (\<lambda>debited. if \<not> debited then ret None
      else andThen new_Date (\<lambda>now. andThen (on_payment (markCompensationPending CREDIT_FAILED_REASON now)) (\<lambda>_.
           andThen (transaction_run save) (\<lambda>_. refund port))))) (\<lambda>_. ends_as R p final r) (\<lambda>_ _. False) s"
    (is "wp (andThen _ ?K) ?Q ?E s")
proof (cases "port_findMovement port (source p) (movementKey p debit_leg) (remote s)")
  case (Pair answer r')
  let ?s = "s\<lparr>remote := r'\<rparr>"
  have here: "in_hand R ?s p" using s by simp
  note run = confirmDebit_def wp_andThen [where m = "catching a b" for a b]
    wp_catching wp_andThen [where m = "on_remote c" for c] wp_on_remote wp_ret
    wp_def [where m = "port_findMovement port a b" for a b] Pair
  show ?thesis
  proof (cases answer)
    case (Inl e)
    with Pair out st have "e \<noteq> ProcessDied" "final = Processing" "r' = r"
      by (auto simp: recovery_outcome_def split: if_splits)
    then show ?thesis using Inl in_hand_ends [OF here] st unfolding wp_andThen [where m = "confirmDebit port p"] by (simp add: run)
  next
    case (Inr found)
    show ?thesis
    proof (cases found)
      case None
      with Pair Inr out st have f: "final = Declined" "r' = r" by (auto simp: recovery_outcome_def)
      have "wp (andThen new_Date (\<lambda>now. andThen (on_payment (decline ACCOUNTS_UNAVAILABLE_REASON now)) (\<lambda>_.
          andThen (transaction_run (andThen save (\<lambda>_. andThen (on_payment pullEvents) enqueue_events))) (\<lambda>_. ret False))))
          (\<lambda>d. wp (?K d) ?Q ?E) ?E ?s"
        by (rule decline_healthy [OF here]) (use st f in \<open>auto simp: wp_ret\<close>)
      then show ?thesis using Inr None unfolding wp_andThen [where m = "confirmDebit port p"] by (simp add: run)
    next
      case (Some m)
      let ?x = "transactionReference m" and ?now = "clock s (clock_reads s)"
      let ?q = "p\<lparr>debitTransactionReference := Some ?x, updatedAt := ?now\<rparr>"
      from Pair Inr Some out st have out': "refund_outcome port p r' = Some (final, r)"
        by (simp add: recovery_outcome_def)
      have m: "inv r'" "wf_ref TRANSACTION ?x" using find_answers(1) [OF i] Pair Inr Some by blast+
      have op: "apply_op (MarkDebited ?x) (clock ?s (clock_reads ?s)) p = (Inr (), ?q)"
        using st by (simp add: markDebited_iff)
      have "wp (andThen new_Date (\<lambda>now. andThen (on_payment (apply_op (MarkDebited ?x) now)) (\<lambda>_.
          andThen (transaction_run save) (\<lambda>_. ret True)))) (\<lambda>d. wp (?K d) ?Q ?E) ?E ?s"
      proof (rule op_step [OF here op])
        show "op_wf (MarkDebited ?x)" using m by simp
        show "events ?q = []" using in_hand_payment [OF s] by simp
        fix t :: "'r world" assume t: "in_hand R t ?q" "remote t = remote ?s"
        have "wp (?K True) ?Q ?E t"
          unfolding not_True_eq_False if_False
        proof (rule owing_healthy [OF t(1)])
          fix u q assume u: "in_hand R u q" "remote u = remote t" "status q = CompensationPending" "same_payment ?q q"
          have same: "same_payment p q" using u(4) by (simp add: same_payment_def)
          have "refund_outcome port q = refund_outcome port p"
            by (rule outcome_cong(1)) (use same in \<open>simp_all add: same_payment_def\<close>)
          then have "refund_outcome port q (remote u) = Some (final, r)" using u(2) t(2) out' by simp
          then show "wp (refund port) ?Q ?E u"
            using wp_ends_as_same [OF refund_implements [OF u(1,3)] same] m(1) u(2) t(2) by simp
        qed (use st in simp)
        then show "wp (ret True) (\<lambda>d. wp (?K d) ?Q ?E) ?E t" by (simp add: wp_ret)
      qed
      then show ?thesis using Inr Some st unfolding wp_andThen [where m = "confirmDebit port p"] 
        by (simp add: run wp_eta)
    qed
  qed
qed

lemma compensate_implements:
  assumes s: "at_rest R s p" and st: "status p \<in> {Processing, CompensationPending}" and i: "inv (remote s)"
    and debited: "status p = CompensationPending \<Longrightarrow> debitTransactionReference p \<noteq> None"
    and out: "recovery_outcome port p (remote s) = Some (final, r)"
  shows "wp (compensate_executeLocked port R) (\<lambda>_. ends_as R p final r) (\<lambda>_ _. False) s"
  unfolding compensate_executeLocked_def
proof (rule load_healthy [OF s], goal_cases)
  case (1 t q)
  note same = twin_spec_fields(1-7) [OF 1(2)] and twin = same_payment_twin [OF 1(2)]
  have out: "recovery_outcome port q (remote t) = Some (final, r)"
    using out outcome_cong(5) [OF same, of port] 1(3) by simp
  have i: "inv (remote t)" using i 1(3) by simp
  show ?case
  proof (cases "status q = CompensationPending")
    case True
    then have "refund_outcome port q (remote t) = Some (final, r)" using out by (simp add: recovery_outcome_def)
    then show ?thesis using wp_ends_as_same [OF refund_implements [OF 1(1) True i] twin] True debited same
      by (simp add: wp_eta Let_def)
  next
    case False
    then have proc: "status q = Processing" using st same by simp
    show ?thesis
    proof (cases "debitTransactionReference q = None")
      case False
      then have "credit_lookup_outcome port q (remote t) = Some (final, r)" using out proc by (simp add: recovery_outcome_def)
      from wp_ends_as_same [OF reconcile_credit_implements [OF 1(1) proc False i this] twin] show ?thesis
        using proc False by (simp add: wp_eta Let_def)
    next
      case True
      from wp_ends_as_same [OF confirm_debit_implements [OF 1(1) proc True i out] twin] show ?thesis
        using proc True by (simp add: wp_eta Let_def cong: if_cong)
    qed
  qed
qed

definition to_recover :: "string \<Rightarrow> Payment \<Rightarrow> PaymentStatus \<Rightarrow> 'r \<Rightarrow> 'r world \<Rightarrow> bool" where
  "to_recover R p final r t \<longleftrightarrow> inv (remote t) \<and> (\<exists>q. at_rest R t q \<and> same_payment p q \<and> status q \<in> {Processing, CompensationPending}
     \<and> debitTransactionReference q \<noteq> None \<and> recovery_outcome port q (remote t) = Some (final, r))"

definition to_credit :: "string \<Rightarrow> Payment \<Rightarrow> PaymentStatus \<Rightarrow> 'r \<Rightarrow> 'r world \<Rightarrow> bool" where
  "to_credit R p final r t \<longleftrightarrow> inv (remote t) \<and> (\<exists>q. at_rest R t q \<and> same_payment p q \<and> status q = Processing
     \<and> debitTransactionReference q \<noteq> None \<and> credit_outcome port q (remote t) = Some (final, r))"

lemma to_frame [simp]:
  "to_recover R p final r (t\<lparr>active := a\<rparr>) = to_recover R p final r t"
  "to_credit R p final r (t\<lparr>active := a\<rparr>) = to_credit R p final r t"
  by (simp_all add: to_recover_def to_credit_def)

lemma credit_implements:
  assumes s: "at_rest R s p" and st: "status p = Processing" "debitTransactionReference p \<noteq> None" and i: "inv (remote s)"
    and out: "credit_outcome port p (remote s) = Some (final, r)"
  shows "wp (credit_executeLocked port R) (\<lambda>_. ends_as R p final r) (\<lambda>e t. e \<noteq> ProcessDied \<and> to_recover R p final r t) s"
  unfolding credit_executeLocked_def
proof (rule load_healthy [OF s], goal_cases)
  case (1 t q)
  note same = twin_spec_fields(1-7) [OF 1(2)] and twin = same_payment_twin [OF 1(2)]
  have st: "status q = Processing" "debitTransactionReference q \<noteq> None" using st same by simp_all
  have i: "inv (remote t)" using i 1(3) by simp
  have out: "credit_outcome port q (remote t) = Some (final, r)"
    using out outcome_cong(3) [OF same(1-5), of port] 1(3) by simp
  let ?Q = "\<lambda>_. ends_as R p final r" and ?E = "\<lambda>e t. e \<noteq> ProcessDied \<and> to_recover R p final r t"
  let ?body = "andThen (catching (on_remote (port_credit port (destination q) (money q) (movementKey q credit_leg)
                (movement_details q (description q)))) (\<lambda>error. if explicit_refusal error
                then andThen new_Date (\<lambda>now. andThen (on_payment (markCompensationPending CREDIT_FAILED_REASON now)) (\<lambda>_.
                     andThen (transaction_run save) (\<lambda>_. throw error))) else throw error)) (\<lambda>movement.
           andThen (settle (transactionReference movement)) (\<lambda>_. ret (value (transactionReference movement))))"
  have "wp ?body ?Q ?E t"
  proof (cases "port_credit port (destination q) (money q) (movementKey q credit_leg) (movement_details q (description q)) (remote t)")
    case (Pair answer r')
    let ?t = "t\<lparr>remote := r'\<rparr>"
    have here: "in_hand R ?t q" using 1(1) by simp
    note run = wp_andThen [where m = "catching a b" for a b] wp_catching wp_on_remote wp_def [where m = "port_credit port a b c d" for a b c d] Pair
    show ?thesis
    proof (cases answer)
      case (Inr m)
      then have f: "final = Approved" "r' = r" using out Pair by (auto simp: credit_outcome_def)
      obtain d where d: "debitTransactionReference q = Some d" using st(2) by blast
      have "wf_ref TRANSACTION (transactionReference m)" using credit_answers(1) [OF i] Pair Inr by blast
      then have "wp (settle (transactionReference m)) ?Q ?E ?t"
        using st f d by (intro settle_healthy [OF here]) (auto intro: ends_as_same [OF twin])
      then show ?thesis using Inr by (simp add: run wp_eta)
    next
      case (Inl e)
      have e: "e \<noteq> ProcessDied" using out Pair Inl by (auto simp: credit_outcome_def)
      have inv': "inv r'" "is_refusal e \<or> is_unavailable e" using credit_answers(2) [OF i] Pair Inl e by blast+
      show ?thesis
      proof (cases "is_refusal e")
        case True
        then have o2: "refund_outcome port q r' = Some (final, r)" using out Pair Inl e by (simp add: credit_outcome_def)
        have "wp (andThen new_Date (\<lambda>now. andThen (on_payment (markCompensationPending CREDIT_FAILED_REASON now)) (\<lambda>_.
            andThen (transaction_run save) (\<lambda>_. throw e)))) (\<lambda>x. wp (andThen (settle (transactionReference x)) (\<lambda>_.
            ret (value (transactionReference x)))) ?Q ?E) ?E ?t"
        proof (rule owing_healthy [OF here st(1)])
          fix u q' assume u: "in_hand R u q'" "remote u = remote ?t" "status q' = CompensationPending" "same_payment q q'"
            "debitTransactionReference q' = debitTransactionReference q"
          have "refund_outcome port q' = refund_outcome port q"
            by (rule outcome_cong(1)) (use u(4) in \<open>simp_all add: same_payment_def\<close>)
          moreover have "same_payment p q'" by (rule same_payment_trans [OF twin u(4)])
          ultimately have "to_recover R p final r u"
            using o2 inv' u in_hand_rests [OF u(1)] st unfolding to_recover_def recovery_outcome_def
            by (intro conjI exI [of _ q']) simp_all
          then show "wp (throw e) (\<lambda>x. wp (andThen (settle (transactionReference x)) (\<lambda>_.
            ret (value (transactionReference x)))) ?Q ?E) ?E u" using e by (simp add: wp_throw)
        qed
        then show ?thesis using Inl e True by (simp add: run explicit_refusal_eq)
      next
        case False
        then have "credit_lookup_outcome port q r' = Some (final, r)" using out Pair Inl e by (simp add: credit_outcome_def)
        then have "to_recover R p final r ?t"
          using inv' in_hand_rests [OF here] st twin unfolding to_recover_def recovery_outcome_def by (intro conjI exI [of _ q]) simp_all
        then show ?thesis using Inl e False by (simp add: run explicit_refusal_eq wp_throw)
      qed
    qed
  qed
  then show ?case using st by (cases "debitTransactionReference q") simp_all
qed

lemma debit_implements:
  assumes s: "at_rest R s p" and st: "status p = Pending" and i: "inv (remote s)"
    and out: "saga_outcome port p (remote s) = Some (final, r)"
  shows "wp (debit_executeLocked port R) (\<lambda>_. to_credit R p final r) (\<lambda>e t. isDomainError e \<and> ends_as R p final r t) s"
  unfolding debit_executeLocked_def
proof (rule load_healthy [OF s], goal_cases)
  case (1 t p')
  note same = twin_spec_fields(1-7) [OF 1(2)] and twin = same_payment_twin [OF 1(2)]
  have st: "status p' = Pending" using st same by simp
  have i: "inv (remote t)" using i 1(3) by simp
  have out: "saga_outcome port p' (remote t) = Some (final, r)"
    using out outcome_cong(4) [OF same(1-5), of port] 1(3) by simp
  let ?Q = "\<lambda>_. to_credit R p final r" and ?E = "\<lambda>e t. isDomainError e \<and> ends_as R p final r t"
  let ?now = "clock t (clock_reads t)"
  let ?q = "p'\<lparr>status := Processing, updatedAt := ?now\<rparr>"
  let ?call = "andThen (on_remote (port_debit port (source p') (money p') (movementKey p' debit_leg)
      (movement_details p' (description p')))) (\<lambda>movement.
      andThen new_Date (\<lambda>now. andThen (on_payment (markDebited (transactionReference movement) now)) (\<lambda>_.
      andThen (transaction_run save) (\<lambda>_. ret (value (transactionReference movement))))))"
  let ?handler = "\<lambda>error. (case error of
                Domain e \<Rightarrow>
                  (case e of
                     AccountsUnavailableError _ _ \<Rightarrow> throw error
                   | _ \<Rightarrow>
                       andThen new_Date (\<lambda>now.
                       andThen (on_payment (decline (failureReasonOf e) now)) (\<lambda>_.
                       andThen (transaction_run (andThen save (\<lambda>_.
                          andThen (on_payment pullEvents) enqueue_events))) (\<lambda>_.
                       throw error))))
              | _ \<Rightarrow> throw error)"
  have op: "apply_op MarkProcessing ?now p' = (Inr (), ?q)" using st by (simp add: markProcessing_iff)
  have "wp (andThen new_Date (\<lambda>now. andThen (on_payment (apply_op MarkProcessing now)) (\<lambda>_.
      andThen (transaction_run save) (\<lambda>_. catching ?call ?handler)))) ?Q ?E t"
  proof (rule op_step [OF 1(1) op])
    show "events ?q = []" using in_hand_payment [OF 1(1)] by simp
    fix u :: "'r world" assume u: "in_hand R u ?q" "remote u = remote t"
    have none: "debitTransactionReference ?q = None"
      using in_hand_payment [OF u(1)] in_hand_payment [OF 1(1)] st by (simp add: wf_payment_def wf_fields_def)
    show "wp (catching ?call ?handler) ?Q ?E u"
    proof (cases "port_debit port (source p') (money p') (movementKey p' debit_leg) (movement_details p' (description p')) (remote t)")
      case (Pair answer r')
      let ?u = "u\<lparr>remote := r'\<rparr>"
      have here: "in_hand R ?u ?q" using u(1) by simp
      note run = wp_catching wp_andThen [where m = "on_remote c" for c] wp_on_remote
        wp_def [where m = "port_debit port a b c d" for a b c d] u(2) Pair
      show ?thesis
      proof (cases answer)
        case (Inr m)
        let ?x = "transactionReference m" and ?then = "clock u (clock_reads u)"
        let ?d = "?q\<lparr>debitTransactionReference := Some ?x, updatedAt := ?then\<rparr>"
        have o2: "credit_outcome port p' r' = Some (final, r)" using out Pair Inr by (simp add: saga_outcome_def)
        have m: "inv r'" "wf_ref TRANSACTION ?x" using debit_answers(1) [OF i] Pair Inr by blast+
        have op2: "apply_op (MarkDebited ?x) (clock ?u (clock_reads ?u)) ?q = (Inr (), ?d)" by (simp add: markDebited_iff)
        have "wp (andThen new_Date (\<lambda>now. andThen (on_payment (apply_op (MarkDebited ?x) now)) (\<lambda>_.
            andThen (transaction_run save) (\<lambda>_. ret (value ?x))))) ?Q
            (\<lambda>e t. if e = ProcessDied then ?E ProcessDied t else wp (?handler e) ?Q ?E t) ?u"
        proof (rule op_step [OF here op2])
          show "op_wf (MarkDebited ?x)" using m by simp
          show "events ?d = []" using in_hand_payment [OF 1(1)] by simp
          fix v :: "'r world" assume v: "in_hand R v ?d" "remote v = remote ?u"
          have "credit_outcome port ?d = credit_outcome port p'" by (rule outcome_cong(3)) simp_all
          moreover have "same_payment p ?d" using twin by (simp add: same_payment_def)
          ultimately have "to_credit R p final r v"
            using o2 m v in_hand_rests [OF v(1)] unfolding to_credit_def by (intro conjI exI [of _ ?d]) simp_all
          then show "wp (ret (value ?x)) ?Q (\<lambda>e t. if e = ProcessDied then ?E ProcessDied t else wp (?handler e) ?Q ?E t) v"
            by (simp add: wp_ret)
        qed
        then show ?thesis using Inr by (simp add: run)
      next
        case (Inl e)
        have e: "e \<noteq> ProcessDied" using out Pair Inl by (auto simp: saga_outcome_def)
        then have kind: "is_refusal e \<or> is_unavailable e" using debit_answers(2) [OF i] Pair Inl by blast
        have f: "final = (if is_refusal e then Declined else Processing)" "r' = r"
          using out Pair Inl e by (auto simp: saga_outcome_def)
        have twin': "same_payment p ?q" using twin by (simp add: same_payment_def)
        have "wp (?handler e) ?Q ?E ?u"
        proof (cases "is_refusal e")
          case True
          have "wp (andThen new_Date (\<lambda>now. andThen (on_payment (decline reason now)) (\<lambda>_.
              andThen (transaction_run (andThen save (\<lambda>_. andThen (on_payment pullEvents) enqueue_events))) (\<lambda>_. throw e)))) ?Q ?E ?u" for reason
            by (rule decline_healthy [OF here]) (use f True ends_as_same [OF twin'] in \<open>auto simp: wp_throw elim: is_refusal.elims\<close>)
          then show ?thesis using True by (cases e rule: is_refusal.cases) simp_all
        next
          case False
          then have "is_unavailable e" using kind by simp
          then show ?thesis using f False ends_as_same [OF twin' in_hand_ends [OF here]]
            by (cases e rule: is_unavailable.cases) (simp_all add: wp_throw)
        qed
        then show ?thesis using Inl e by (simp add: run)
      qed
    qed
  qed simp
  then show ?case using st by simp
qed

lemma recover_step:
  assumes "to_recover R p final r s"
  shows "wp (compensate_execute port R) (\<lambda>_. ends_as R p final r) (\<lambda>_ _. False) s"
proof -
  obtain q where q: "at_rest R s q" "status q \<in> {Processing, CompensationPending}" "debitTransactionReference q \<noteq> None"
    "recovery_outcome port q (remote s) = Some (final, r)" and i: "inv (remote s)" and same: "same_payment p q"
    using assms unfolding to_recover_def by blast
  have "wp (compensate_execute port R) (\<lambda>_. ends_as R q final r) (\<lambda>_ _. False) s"
    unfolding compensate_execute_def
    by (rule execution_healthy [OF q(1)]) (use compensate_implements q i in auto)
  then show ?thesis by (rule wp_ends_as_same [OF _ same])
qed

lemma credit_run:
  assumes "to_credit R p final r s"
  shows "wp (credit_execute port R) (\<lambda>_. ends_as R p final r) (\<lambda>e t. e \<noteq> ProcessDied \<and> to_recover R p final r t) s"
proof -
  obtain q where q: "at_rest R s q" "status q = Processing" "debitTransactionReference q \<noteq> None"
    "credit_outcome port q (remote s) = Some (final, r)" and i: "inv (remote s)" and same: "same_payment p q"
    using assms unfolding to_credit_def by blast
  have shift: "to_recover R p final r t" if "to_recover R q final r t" for t
    using that same_payment_trans [OF same] unfolding to_recover_def by blast
  have "wp (credit_execute port R) (\<lambda>_. ends_as R q final r) (\<lambda>e t. e \<noteq> ProcessDied \<and> to_recover R q final r t) s"
    unfolding credit_execute_def
    by (rule execution_healthy [OF q(1)]) (use credit_implements q i in auto)
  then show ?thesis by (rule wp_mono) (auto intro: ends_as_same [OF same] shift)
qed

theorem saga_implements:
  assumes s: "at_rest R s p" and st: "status p = Pending" and i: "inv (remote s)" and ref: "value ref = R"
    and out: "saga_outcome port p (remote s) = Some (final, r)"
  shows "wp (saga_run port ref) (\<lambda>_. ends_as R p final r) (\<lambda>_ _. False) s"
proof -
  have credit: "wp (credit_execute port R) (\<lambda>_. ends_as R p final r) (\<lambda>e u. if e = ProcessDied then False
      else wp (compensate_execute port R) (\<lambda>_. ends_as R p final r) (\<lambda>_ _. False) u) t"
    if "to_credit R p final r t" for t
    by (rule wp_mono [OF credit_run [OF that]]) (use recover_step in auto)
  have debit: "wp (debit_execute port R) (\<lambda>_. to_credit R p final r) (\<lambda>e t. isDomainError e \<and> ends_as R p final r t) t"
    if "at_rest R t p" "remote t = remote s" for t
    unfolding debit_execute_def
    by (rule execution_healthy [OF that(1)]) (use debit_implements [OF _ st] i out that in auto)
  have locked: "wp (saga_runLocked port R) (\<lambda>_. ends_as R p final r) (\<lambda>_ _. False) t"
    if "at_rest R t p" "remote t = remote s" for t
    unfolding saga_runLocked_def wp_andThen [where m = "catching a b" for a b] wp_catching wp_eta
  proof (rule wp_mono [OF debit [OF that]], goal_cases)
    case (1 x u)
    then show ?case using credit by (simp only: wp_eta simp_thms if_False if_cancel)
  next
    case (2 e u)
    then show ?case by (cases e) (simp_all add: wp_simps)
  qed
  show ?thesis unfolding saga_run_def ref
    by (rule execution_healthy [OF s locked]) simp_all
qed

theorem recovery_implements:
  assumes s: "at_rest R s p" and st: "status p \<in> {Processing, CompensationPending}" and i: "inv (remote s)"
    and debited: "status p = CompensationPending \<Longrightarrow> debitTransactionReference p \<noteq> None"
    and out: "recovery_outcome port p (remote s) = Some (final, r)"
  shows "wp (compensate_execute port R) (\<lambda>_. ends_as R p final r) (\<lambda>_ _. False) s"
  unfolding compensate_execute_def
  by (rule execution_healthy [OF s]) (use compensate_implements [OF _ st _ debited] i out in auto)

end

end
