(* ===== verification/Payment_Life.thy ===== *)
theory Payment_Life
  imports Saga_Outcome Accounts_Properties
begin

text \<open>
  The life of one payment against the real client and the accounts service: every state reachable
  from its creation by runs of the saga, of the compensation handler and of the recovery job, in any
  order and however each run ends, interleaved with whatever the rest of the world does. The contract
  is used through its interpretation \<open>wire\<close>.
\<close>

section \<open>Reachable states\<close>

definition scripts_legit :: "string \<Rightarrow> 'r world \<Rightarrow> bool" where
  "scripts_legit R s \<longleftrightarrow> (\<forall>n. legit_tx R (tx_others (tx_script s n)))"

definition stored_payment :: "string \<Rightarrow> 'r world \<Rightarrow> Payment option" where
  "stored_payment R s = (case lookupBy row_reference R (payments (db s)) of
     None \<Rightarrow> None
   | Some row \<Rightarrow> (case toDomain row of Inl e \<Rightarrow> None | Inr p \<Rightarrow> Some p))"

text \<open>
  Between two runs another process may take over: nothing is assumed of its memory, of the scripts
  of its environment, or of the rows of other payments. The accounts service may move on by requests
  of this payment still in flight and by requests under other keys.
\<close>

definition elsewhere :: "string \<Rightarrow> network world \<Rightarrow> network world \<Rightarrow> bool" where
  "elsewhere R s t \<longleftrightarrow>
     net_inv (own_keys R) (remote t) \<and> steps net_moved net_pending (own_keys R) {} (remote s) (remote t)
     \<and> lookupBy row_reference R (payments (db t)) = lookupBy row_reference R (payments (db s))
     \<and> messages_of R (db t) = messages_of R (db s) \<and> scripts_legit R t \<and> \<not> in_tx t"

definition newborn :: "string \<Rightarrow> network world \<Rightarrow> bool" where
  "newborn R s \<longleftrightarrow> net_inv (own_keys R) (remote s) \<and> scripts_legit R s \<and> \<not> in_tx s
     \<and> (\<exists>p v. stored R (db s) p v \<and> status p = Pending) \<and> messages_of R (db s) = []
     \<and> (\<forall>k \<in> own_keys R. quiet net_moved net_pending (remote s) k)"

inductive payment_life :: "string \<Rightarrow> network world \<Rightarrow> bool" for R where
  created: "newborn R s \<Longrightarrow> payment_life R s"
| saga: "payment_life R s \<Longrightarrow> value r = R \<Longrightarrow> saga_run AccountsHttpClient r s = (x, t) \<Longrightarrow> payment_life R t"
| compensation: "payment_life R s \<Longrightarrow> compensate_execute AccountsHttpClient R s = (y, t) \<Longrightarrow> payment_life R t"
| recovery: "payment_life R s \<Longrightarrow> value r = R \<Longrightarrow> recover AccountsHttpClient r s = (z, t) \<Longrightarrow> payment_life R t"
| meanwhile: "payment_life R s \<Longrightarrow> elsewhere R s t \<Longrightarrow> payment_life R t"

abbreviation sound_payment :: "string \<Rightarrow> network world \<Rightarrow> bool" where
  "sound_payment R \<equiv> sound net_moved net_pending (net_inv (own_keys R)) R"

lemma newborn_sound: "newborn R s \<Longrightarrow> sound_payment R s"
proof -
  assume n: "newborn R s"
  then obtain p v where p: "stored R (db s) p v" "status p = Pending" by (auto simp: newborn_def)
  have "value (reference p) = R" using p(1) by (auto simp: stored_def)
  then have "leg_quiet net_moved net_pending (remote s) p l" for l
    using n movementKey_own [of p l] by (simp add: newborn_def leg_quiet_def)
  moreover have "leg_only net_moved net_pending (remote s) p l" for l
    using calculation by (simp add: leg_only_def only_def leg_quiet_def quiet_def)
  ultimately have "coherent net_moved net_pending p (remote s)"
    using p(2) by (simp add: coherent_def status_coherent_def)
  moreover have "announced p []" using p(2) by (simp add: announced_def owed_def ledger_of_def announcement.simps)
  ultimately show ?thesis using n p(1) unfolding sound_def sound_as_def newborn_def scripts_legit_def by auto
qed

lemma elsewhere_sound:
  assumes "sound_payment R s" and "elsewhere R s t"
  shows "sound_payment R t"
proof -
  obtain p v where S: "sound_as net_moved net_pending (net_inv (own_keys R)) R s p v"
    using assms(1) by (auto simp: sound_def)
  then have "value (reference p) = R" by (auto simp: sound_as_def stored_def)
  then have "coherent net_moved net_pending p (remote t)"
    using S assms(2) coherent_steps [of net_moved net_pending p "remote s" "{}" "remote t"]
    by (simp add: sound_as_def elsewhere_def)
  then show ?thesis
    using S assms(2) unfolding sound_def sound_as_def elsewhere_def stored_def scripts_legit_def by auto
qed

theorem payment_life_sound: "payment_life R s \<Longrightarrow> sound_payment R s"
proof (induction rule: payment_life.induct)
  case (created s)
  then show ?case by (rule newborn_sound)
next
  case (saga s r x t)
  show ?case using wire.saga_sound [OF refl saga.IH saga.hyps(2)] saga.hyps(3)
    by (simp add: wp_state)
next
  case (compensation s y t)
  then show ?case using wire.compensate_sound [OF refl compensation.IH] by (simp add: wp_state)
next
  case (recovery s r z t)
  show ?case using wire.recover_sound [OF refl recovery.IH recovery.hyps(2)] recovery.hyps(3)
    by (simp add: wp_state)
next
  case (meanwhile s t)
  then show ?case by (blast intro: elsewhere_sound)
qed

text \<open>The start of an HTTP exchange of anybody else is one of the steps \<open>elsewhere\<close> allows.\<close>

lemma exchange_elsewhere:
  assumes "payment_life R s"
  shows "elsewhere R s (s\<lparr>remote := begin_exchange (remote s)\<rparr>)"
proof -
  obtain p v where S: "sound_as net_moved net_pending (net_inv (own_keys R)) R s p v"
    using payment_life_sound [OF assms] by (auto simp: sound_def)
  then show ?thesis using begin_exchange_spec by (simp add: elsewhere_def sound_as_def scripts_legit_def)
qed

section \<open>The movements of a payment\<close>

definition payment_movements :: "string \<Rightarrow> network \<Rightarrow> (string \<times> string \<times> movement_fact) set" where
  "payment_movements R net = {(w, k, f). k \<in> own_keys R \<and> net_moved net w k = Some f}"

definition leg_movements :: "network \<Rightarrow> Payment \<Rightarrow> leg \<Rightarrow> (string \<times> string \<times> movement_fact) set" where
  "leg_movements net p l = {(w, k, f). k = movementKey p l \<and> net_moved net w k = Some f}"

abbreviation leg_fact :: "Payment \<Rightarrow> leg \<Rightarrow> string \<Rightarrow> string \<times> string \<times> movement_fact" where
  "leg_fact p l ref \<equiv> (leg_wallet p l, movementKey p l, ref, leg_type l, amount (money p))"

lemma payment_movements_legs:
  assumes "value (reference p) = R"
  shows "payment_movements R net = leg_movements net p debit_leg \<union> leg_movements net p credit_leg \<union> leg_movements net p refund_leg"
  using assms unfolding payment_movements_def leg_movements_def own_keys_def by (auto simp: movementKey_def)

lemma leg_movements_quiet: "leg_quiet net_moved net_pending net p l \<Longrightarrow> leg_movements net p l = {}"
  by (simp add: leg_movements_def leg_quiet_def quiet_def)

lemma leg_movements_only:
  assumes "leg_only net_moved net_pending net p l"
  shows "leg_movements net p l \<subseteq> range (leg_fact p l)"
proof
  fix x assume "x \<in> leg_movements net p l"
  then obtain w ref t a where x: "x = (w, movementKey p l, ref, t, a)" "net_moved net w (movementKey p l) = Some (ref, t, a)"
    by (auto simp: leg_movements_def)
  then have "(w, t, a) = (leg_wallet p l, leg_type l, amount (money p))"
    using assms unfolding leg_only_def only_def by blast
  with x show "x \<in> range (leg_fact p l)" by simp
qed

lemma leg_movements_moved:
  assumes only: "leg_only net_moved net_pending net p l" and moved: "leg_moved net_moved net p l (Some y)"
  shows "leg_movements net p l = {leg_fact p l (value y)}"
proof
  show "leg_movements net p l \<subseteq> {leg_fact p l (value y)}"
  proof
    fix x assume x: "x \<in> leg_movements net p l"
    then obtain ref where "x = leg_fact p l ref" using leg_movements_only [OF only] by blast
    with x moved show "x \<in> {leg_fact p l (value y)}" by (simp add: leg_movements_def leg_moved_def)
  qed
  show "{leg_fact p l (value y)} \<subseteq> leg_movements net p l"
    using moved by (simp add: leg_movements_def leg_moved_def)
qed

lemma life_payment:
  assumes "payment_life R s" and "stored_payment R s = Some p"
  shows "wf_payment p" "value (reference p) = R" "coherent net_moved net_pending p (remote s)"
    "announced p (messages_of R (db s))"
proof -
  obtain q v where q: "sound_as net_moved net_pending (net_inv (own_keys R)) R s q v"
    using payment_life_sound [OF assms(1)] by (auto simp: sound_def)
  then have "twin p q" using assms(2) by (auto simp: sound_as_def stored_def stored_payment_def)
  from sound_as_twin [OF q twin_sym [OF this]]
  show "wf_payment p" "value (reference p) = R" "coherent net_moved net_pending p (remote s)"
    "announced p (messages_of R (db s))"
    by (auto simp: sound_as_def stored_def)
qed

lemma life_stored: "payment_life R s \<Longrightarrow> \<exists>p. stored_payment R s = Some p"
  using payment_life_sound by (fastforce simp: sound_def sound_as_def stored_def stored_payment_def)

lemma life_legs:
  assumes "payment_life R s" and "stored_payment R s = Some p"
  shows "leg_only net_moved net_pending (remote s) p l"
  using life_payment(3) [OF assms] by (cases l) (simp_all add: coherent_def)

section \<open>What each status says about the fields\<close>

text \<open>
  Property C32. In every state of the service, whatever ran, failed or crashed before, the fields of the
  stored payment agree with its status: a credit reference exactly when it is approved, and then a debit
  reference too, a refund reference exactly when it is compensated, a failure reason exactly when it is
  declined, compensated or pending compensation, a completion time exactly when it is terminal; its
  wallets differ and its amount is a positive multiple of five. An operation of the aggregate that
  throws leaves the payment as it was, except \<open>approve\<close> of a processing payment without a debit
  reference, which has the status changed already; no state of the service stores the result.
\<close>

theorem fields_agree_with_status:
  assumes "payment_life R s" and "stored_payment R s = Some p"
  shows "(creditTransactionReference p \<noteq> None \<longleftrightarrow> status p = Approved)
       \<and> (status p = Approved \<longrightarrow> debitTransactionReference p \<noteq> None)
       \<and> (refundTransactionReference p \<noteq> None \<longleftrightarrow> status p = Compensated)
       \<and> (failureReason p \<noteq> None \<longleftrightarrow> status p \<in> {Declined, Compensated, CompensationPending})
       \<and> (completedAt p \<noteq> None \<longleftrightarrow> status p \<in> set TERMINAL_STATUSES)
       \<and> value (source p) \<noteq> value (destination p) \<and> 5 \<le> amount (money p) \<and> amount (money p) mod 5 = 0
       \<and> (\<forall>op now e p'. apply_op op now p = (Inl e, p') \<longrightarrow> p' = p
           \<or> (\<exists>c. op = Approve c) \<and> status p = Processing \<and> debitTransactionReference p = None \<and> status p' = Approved)"
proof -
  have "wf_payment p" using life_payment(1) [OF assms] .
  then have "wf_fields p" "wf_money (money p)" "value (source p) \<noteq> value (destination p)" by (simp_all add: wf_payment_def)
  then have fields: "(creditTransactionReference p \<noteq> None \<longleftrightarrow> status p = Approved)
       \<and> (status p = Approved \<longrightarrow> debitTransactionReference p \<noteq> None)
       \<and> (refundTransactionReference p \<noteq> None \<longleftrightarrow> status p = Compensated)
       \<and> (failureReason p \<noteq> None \<longleftrightarrow> status p \<in> {Declined, Compensated, CompensationPending})
       \<and> (completedAt p \<noteq> None \<longleftrightarrow> status p \<in> set TERMINAL_STATUSES)
       \<and> value (source p) \<noteq> value (destination p) \<and> 5 \<le> amount (money p) \<and> amount (money p) mod 5 = 0"
    by (cases "status p") (simp_all add: wf_fields_def wf_money_def TERMINAL_STATUSES_def)
  have "\<forall>op now e p'. apply_op op now p = (Inl e, p') \<longrightarrow> p' = p
      \<or> (\<exists>c. op = Approve c) \<and> status p = Processing \<and> debitTransactionReference p = None \<and> status p' = Approved"
    by (intro allI impI) (rule refused_operation)
  from conjI [OF fields this] show ?thesis unfolding conj_assoc .
qed

section \<open>What each status says about the money\<close>

text \<open>
  Property C1. An approved payment moved its amount exactly once: under its keys the accounts service
  holds the debit of the source and the credit of the destination, each for the amount of the payment
  and under the reference the payment recorded, and nothing else, whatever crashes, lost answers,
  retries and recoveries came before.
\<close>

theorem approved_moves_once:
  assumes "payment_life R s" and "stored_payment R s = Some p" and "status p = Approved"
  shows "\<exists>d c. debitTransactionReference p = Some d \<and> creditTransactionReference p = Some c
     \<and> payment_movements R (remote s) =
         {(value (source p), R, value d, DEBIT, amount (money p)),
          (value (destination p), R @ '':credit'', value c, CREDIT, amount (money p))}"
proof -
  note life = life_payment [OF assms(1,2)] and only = life_legs [OF assms(1,2)]
  obtain d c where dc: "debitTransactionReference p = Some d" "leg_moved net_moved (remote s) p debit_leg (Some d)"
    "creditTransactionReference p = Some c" "leg_moved net_moved (remote s) p credit_leg (Some c)"
    "leg_quiet net_moved net_pending (remote s) p refund_leg"
    using life(3) assms(3) by (auto simp: coherent_def status_coherent_def leg_moved_def)
  show ?thesis
    unfolding payment_movements_legs [OF life(2)] leg_movements_moved [OF only dc(2)] leg_movements_moved [OF only dc(4)]
      leg_movements_quiet [OF dc(5)]
    using dc(1,3) life(2) by (auto simp: leg_wallet_def leg_type_def movementKey_def)
qed

lemma compensated_movements:
  assumes "payment_life R s" and "stored_payment R s = Some p" and "status p = Compensated"
  shows "\<exists>d f. debitTransactionReference p = Some d \<and> refundTransactionReference p = Some f
     \<and> payment_movements R (remote s) =
         {(value (source p), R, value d, DEBIT, amount (money p)),
          (value (source p), R @ '':refund'', value f, CREDIT, amount (money p))}"
proof -
  note life = life_payment [OF assms(1,2)] and only = life_legs [OF assms(1,2)]
  obtain d f where df: "debitTransactionReference p = Some d" "leg_moved net_moved (remote s) p debit_leg (Some d)"
    "refundTransactionReference p = Some f" "leg_moved net_moved (remote s) p refund_leg (Some f)"
    "leg_quiet net_moved net_pending (remote s) p credit_leg"
    using life(3) assms(3) by (auto simp: coherent_def status_coherent_def leg_moved_def)
  show ?thesis
    unfolding payment_movements_legs [OF life(2)] leg_movements_moved [OF only df(2)] leg_movements_moved [OF only df(4)]
      leg_movements_quiet [OF df(5)]
    using df(1,3) life(2) by (auto simp: leg_wallet_def leg_type_def movementKey_def)
qed

text \<open>
  Property C2. A compensated payment left no net movement: under its keys the accounts service holds
  the debit of the source and the refund to the same wallet for the same amount, and the destination
  was never credited.
\<close>

theorem compensated_nets_to_zero:
  assumes "payment_life R s" and "stored_payment R s = Some p" and "status p = Compensated"
  shows "\<exists>d f. debitTransactionReference p = Some d \<and> refundTransactionReference p = Some f
     \<and> payment_movements R (remote s) =
         {(value (source p), R, value d, DEBIT, amount (money p)),
          (value (source p), R @ '':refund'', value f, CREDIT, amount (money p))}"
  by (rule compensated_movements [OF assms])

text \<open>
  Property C3. A payment is never both credited and refunded, and a refund is never even in flight
  while the credit is uncertain: in every reachable state, if anything moved or is in flight under
  the refund key, then nothing moved and nothing is in flight under the credit key.
\<close>

theorem never_credited_and_refunded:
  assumes "payment_life R s" and "\<not> quiet net_moved net_pending (remote s) (R @ '':refund'')"
  shows "quiet net_moved net_pending (remote s) (R @ '':credit'')"
proof -
  obtain p where p: "stored_payment R s = Some p" using life_stored [OF assms(1)] by blast
  note life = life_payment [OF assms(1) p]
  have keys: "movementKey p credit_leg = R @ '':credit''" "movementKey p refund_leg = R @ '':refund''"
    using life(2) by (simp_all add: movementKey_def)
  show ?thesis using life(3) assms(2)
    by (cases "status p") (auto simp: coherent_def status_coherent_def leg_quiet_def keys split: if_splits)
qed

lemma declined_only:
  assumes "payment_life R s" and "stored_payment R s = Some p" and "status p = Declined"
  shows "payment_movements R (remote s) = leg_movements (remote s) p debit_leg"
    and "payment_movements R (remote s) \<subseteq> range (\<lambda>ref. (value (source p), R, ref, DEBIT, amount (money p)))"
    and "leg_quiet net_moved net_pending (remote s) p credit_leg" "leg_quiet net_moved net_pending (remote s) p refund_leg"
    and "failureReason p \<noteq> Some ACCOUNTS_UNAVAILABLE_REASON \<Longrightarrow> leg_quiet net_moved net_pending (remote s) p debit_leg"
proof -
  note life = life_payment [OF assms(1,2)] and only = life_legs [OF assms(1,2)]
  show q: "leg_quiet net_moved net_pending (remote s) p credit_leg" "leg_quiet net_moved net_pending (remote s) p refund_leg"
    and "failureReason p \<noteq> Some ACCOUNTS_UNAVAILABLE_REASON \<Longrightarrow> leg_quiet net_moved net_pending (remote s) p debit_leg"
    using life(3) assms(3) by (auto simp: coherent_def status_coherent_def)
  show legs: "payment_movements R (remote s) = leg_movements (remote s) p debit_leg"
    unfolding payment_movements_legs [OF life(2)] using leg_movements_quiet q by simp
  show "payment_movements R (remote s) \<subseteq> range (\<lambda>ref. (value (source p), R, ref, DEBIT, amount (money p)))"
    unfolding legs using leg_movements_only [OF only, of debit_leg] life(2)
    by (auto simp: leg_wallet_def leg_type_def movementKey_def)
qed

text \<open>
  A declined payment never credited the destination and never refunded the source: all
  it can have moved is the debit of its source, for its amount.
\<close>

theorem declined_moves_at_most_the_debit:
  assumes "payment_life R s" and "stored_payment R s = Some p" and "status p = Declined"
  shows "payment_movements R (remote s) \<subseteq> range (\<lambda>ref. (value (source p), R, ref, DEBIT, amount (money p)))"
  by (rule declined_only(2) [OF assms])

text \<open>
  Property C5. A payment declined because accounts refused its debit moved nothing and has nothing in
  flight: its movements are empty now and in every state the accounts service can reach without new
  requests of this payment.
\<close>

theorem refused_payment_moves_nothing:
  assumes "payment_life R s" and "stored_payment R s = Some p" and "status p = Declined"
    and "failureReason p \<noteq> Some ACCOUNTS_UNAVAILABLE_REASON"
    and "steps net_moved net_pending (own_keys R) {} (remote s) r"
  shows "payment_movements R r = {}"
proof -
  note life = life_payment [OF assms(1,2)] and quiet = declined_only(3,4,5) [OF assms(1-3)]
  have "quiet net_moved net_pending (remote s) k" if "k \<in> own_keys R" for k
    using that quiet(1,2) quiet(3) [OF assms(4)] life(2) by (auto simp: own_keys_def leg_quiet_def movementKey_def)
  then have silent: "net_moved (remote s) w k = None" "(w, k, t, a) \<notin> net_pending (remote s)" if "k \<in> own_keys R" for w k t a
    using that by (auto simp: quiet_def)
  have "net_moved r w k \<noteq> Some f" if "k \<in> own_keys R" for w k f
    using steps_origin [OF assms(5) that silent(1) [OF that]] silent(2) [OF that] by (cases f) blast
  then show ?thesis by (auto simp: payment_movements_def)
qed

text \<open>
  Property C9. The outbox says what the status says: the messages under the reference of a payment are
  exactly the ledger movements and the lifecycle event of its status, in that order, with the data of
  the payment, and none while it is not settled.
\<close>

theorem outbox_matches_status:
  assumes "payment_life R s" and "stored_payment R s = Some p"
  shows "announced p (messages_of R (db s)) \<and>
    map fst (messages_of R (db s)) = (case status p of
       Approved \<Rightarrow> [''payment.transaction.recorded'', ''payment.transaction.recorded'', ''payment.approved'']
     | Compensated \<Rightarrow> [''payment.transaction.recorded'', ''payment.compensated'']
     | Declined \<Rightarrow> [''payment.declined'']
     | _ \<Rightarrow> [])"
proof -
  note life = life_payment [OF assms]
  obtain corr now where msgs: "messages_of R (db s) = map content (owed p corr now)" using life(4) by (auto simp: announced_def)
  have "map fst (messages_of R (db s)) = (case status p of
       Approved \<Rightarrow> [''payment.transaction.recorded'', ''payment.transaction.recorded'', ''payment.approved'']
     | Compensated \<Rightarrow> [''payment.transaction.recorded'', ''payment.compensated'']
     | Declined \<Rightarrow> [''payment.declined'']
     | _ \<Rightarrow> [])"
    using life(1) unfolding msgs
    by (cases "status p") (auto simp: owed_def ledger_of_def settled_movements_def content_def movement_message_def
        event_message_def announcement.simps wf_payment_def wf_fields_def)
  with life(4) show ?thesis ..
qed

text \<open>
  Work that leaves the tables and the accounts service as they are; \<open>returns\<close> tells whether it may return.
\<close>

definition untouched :: "'r world \<Rightarrow> 'r world \<Rightarrow> bool" where
  "untouched s t \<longleftrightarrow> db t = db s \<and> remote t = remote s"

abbreviation inert :: "bool \<Rightarrow> ('r, 'a) work \<Rightarrow> 'r world \<Rightarrow> 'r world \<Rightarrow> bool" where
  "inert returns m s t \<equiv> wp m (\<lambda>_ u. returns \<and> untouched s u) (\<lambda>_. untouched s) t"

lemma inert_execution:
  assumes "\<And>t. untouched s t \<Longrightarrow> inert returns work s t" and "untouched s t"
  shows "inert returns (execution_run ref work) s t"
proof (cases "active t = Some ref")
  case True
  then show ?thesis using assms by (simp add: wp_def execution_run_def)
next
  case False
  have "inert returns work s (t\<lparr>lock_calls := lock_calls t + 1, active := Some ref\<rparr>)"
    "untouched s (t\<lparr>lock_calls := lock_calls t + 1\<rparr>)"
    using assms by (simp_all add: untouched_def)
  then show ?thesis using False
    by (auto simp: wp_def execution_run_def untouched_def Let_def split: prod.splits sum.splits lock_event.splits)
qed

lemma inert_load:
  assumes "stored_payment R s = Some p" and "value r = R" and "untouched s t"
    and "\<And>u. untouched s u \<Longrightarrow> inert returns (body (Some p)) s u"
  shows "inert returns (andThen (findByReference r) body) s t"
proof -
  obtain row where row: "lookupBy row_reference R (payments (db s)) = Some row" "toDomain row = Inr p"
    using assms(1) by (auto simp: stored_payment_def split: option.splits sum.splits)
  have db: "db t = db s" using assms(3) by (simp add: untouched_def)
  have "untouched s (t\<lparr>db_reads := db_reads t + 1\<rparr>)"
    and u: "untouched s (t\<lparr>db_reads := db_reads t + 1, held := Some p, revision := Some (version row)\<rparr>)"
    using assms(3) by (simp_all add: untouched_def)
  then show ?thesis
    using row db assms(2) assms(4) [OF u] by (simp add: wp_simps findByReference_def hydrate_def)
qed

lemma inert_command:
  assumes "stored_payment R s = Some p" and "untouched s t"
    and "\<And>u. untouched s u \<Longrightarrow> inert returns (body (Some p)) s u"
  shows "inert returns (andThen (raiseInl (Reference_of PAYMENT R)) (\<lambda>r. andThen (findByReference r) body)) s t"
proof (cases "Reference_of PAYMENT R")
  case (Inl e)
  then show ?thesis using assms(2) unfolding wp_andThen [where m = "raiseInl a" for a] wp_raiseInl Inl by simp
next
  case (Inr r)
  then have "value r = R" by (auto simp: Reference_of_def split: if_splits)
  from inert_load [where body = body and returns = returns, OF assms(1) this assms(2)]
  have "inert returns (andThen (findByReference r) body) s t" using assms(3) by blast
  then show ?thesis unfolding wp_andThen [where m = "raiseInl a" for a] wp_raiseInl Inr by simp
qed

lemma inert_saga:
  assumes p: "stored_payment R s = Some p" and st: "status p \<noteq> Pending" and "untouched s t" and "value r = R"
  shows "inert True (saga_run port r) s t"
  unfolding saga_run_def assms(4)
proof (rule inert_execution [OF _ assms(3)])
  fix t :: "'a world" assume t: "untouched s t"
  have "inert False (debit_execute port R) s t"
    unfolding debit_execute_def debit_executeLocked_def
    by (intro inert_execution [OF _ t] inert_command [OF p]) (use st in \<open>simp_all add: wp_throw\<close>)
  then have "wp (catching (andThen (debit_execute port R) (\<lambda>_. ret True))
      (\<lambda>error. if isDomainError error then ret False else throw error)) (\<lambda>debited u. \<not> debited \<and> untouched s u) (\<lambda>_. untouched s) t"
    unfolding wp_catching wp_andThen by (rule wp_mono) (auto simp: wp_simps)
  then show "inert True (saga_runLocked port R) s t"
    unfolding saga_runLocked_def wp_andThen [where m = "catching a b" for a b] by (rule wp_mono) (auto simp: wp_ret)
qed

lemma inert_compensation:
  assumes p: "stored_payment R s = Some p" and st: "status p \<in> set TERMINAL_STATUSES" and t: "untouched s t"
  shows "inert True (compensate_execute port R) s t"
  unfolding compensate_execute_def compensate_executeLocked_def
  by (intro inert_execution [OF _ t] inert_command [OF p])
    (use st in \<open>auto simp: wp_throw wp_ret TERMINAL_STATUSES_def\<close>)

lemma inert_recovery:
  assumes p: "stored_payment R s = Some p" and st: "status p \<in> set TERMINAL_STATUSES" and t: "untouched s t"
    and r: "value r = R"
  shows "inert True (recover port r) s t"
  unfolding recover_def
  by (intro inert_execution [OF _ t] inert_load [OF p r]) (use st in \<open>simp_all add: wp_ret\<close>)

text \<open>
  Property C16. A settled payment is inert: running the saga, the compensation handler or the recovery
  job on it changes neither the database nor the accounts service, whatever the port does.
\<close>

theorem settled_payment_is_inert:
  assumes "stored_payment R s = Some p" and "status p \<in> set TERMINAL_STATUSES" and "value r = R"
  shows "untouched s (snd (saga_run port r s)) \<and> untouched s (snd (compensate_execute port R s))
    \<and> untouched s (snd (recover port r s))"
proof -
  have "untouched s s" "status p \<noteq> Pending" using assms(2) by (auto simp: untouched_def TERMINAL_STATUSES_def)
  then show ?thesis
    using inert_saga [OF assms(1) _ _ assms(3), of s port] inert_compensation [OF assms(1,2), of s port]
      inert_recovery [OF assms(1,2) _ assms(3), of s port]
    by (simp add: wp_state)
qed

section \<open>What one run achieves\<close>

lemma run_returns:
  assumes "wp m (\<lambda>_. P) (\<lambda>_ _. False) s"
  obtains x t where "m s = (Inr x, t)" "P t"
  using assms by (auto simp: wp_def split: prod.splits sum.splits)

lemma ends_stored:
  assumes "ends_as R p final r t"
  shows "\<exists>q. stored_payment R t = Some q \<and> same_payment p q \<and> status q = final"
proof -
  obtain q where q: "at_rest R t q" "same_payment p q" "status q = final" using assms by (auto simp: ends_as_def)
  then obtain q0 where q0: "stored_payment R t = Some q0" "twin q q0"
    using twin_sym by (auto simp: at_rest_def stored_def stored_payment_def)
  show ?thesis
  proof (intro exI conjI)
    show "stored_payment R t = Some q0" by (rule q0(1))
    show "same_payment p q0" by (rule same_payment_trans [OF q(2) same_payment_twin [OF q0(2)]])
    show "status q0 = final" using q(3) twin_spec_fields(6) [OF q0(2)] by simp
  qed
qed

text \<open>
  Property C6. The saga implements its decision table: from a pending payment at rest, with a database
  and a lock that work, the run returns, and the stored payment and the accounts service are as
  \<open>saga_outcome\<close> computes them from the answers of the real client, whatever the network does short of
  killing the process.
\<close>

theorem saga_refines_specification:
  assumes "at_rest R s p" and "status p = Pending" and "net_inv (own_keys R) (remote s)"
    and "saga_outcome AccountsHttpClient p (remote s) = Some (final, r)"
  shows "\<exists>t q. saga_run AccountsHttpClient (reference p) s = (Inr (), t) \<and> remote t = r
     \<and> stored_payment R t = Some q \<and> same_payment p q \<and> status q = final"
proof -
  have "value (reference p) = R" using at_rest_payment [OF assms(1)] by simp
  from wire.saga_implements [OF assms(1-3) this assms(4)]
  obtain x t where run: "saga_run AccountsHttpClient (reference p) s = (Inr x, t)" and ends: "ends_as R p final r t"
    by (rule run_returns)
  obtain q where q: "stored_payment R t = Some q \<and> same_payment p q \<and> status q = final" using ends_stored [OF ends] ..
  have "remote t = r" using ends by (simp add: ends_as_def)
  with run q show ?thesis by (intro exI [of _ t] exI [of _ q] conjI) simp_all
qed

text \<open>
  Property C8. The compensation handler implements its decision table on a payment that is processing
  or owes a refund: a recorded debit is reconciled with the credit and never refunded, an unrecorded
  debit is looked up and then refunded or declined, a pending refund is sent.
\<close>

theorem recovery_refines_specification:
  assumes "at_rest R s p" and "status p = Processing \<or> status p = CompensationPending \<and> debitTransactionReference p \<noteq> None"
    and "net_inv (own_keys R) (remote s)"
    and "recovery_outcome AccountsHttpClient p (remote s) = Some (final, r)"
  shows "\<exists>t q x. compensate_execute AccountsHttpClient R s = (Inr x, t) \<and> remote t = r
     \<and> stored_payment R t = Some q \<and> same_payment p q \<and> status q = final"
proof -
  have "wp (compensate_execute AccountsHttpClient R) (\<lambda>_. ends_as R p final r) (\<lambda>_ _. False) s"
    by (rule wire.recovery_implements [OF assms(1) _ assms(3) _ assms(4)]) (use assms(2) in auto)
  then obtain x t where "compensate_execute AccountsHttpClient R s = (Inr x, t)" "ends_as R p final r t"
    by (rule run_returns)
  moreover obtain q where "stored_payment R t = Some q \<and> same_payment p q \<and> status q = final"
    using ends_stored [OF calculation(2)] ..
  moreover have "remote t = r" using calculation(2) by (simp add: ends_as_def)
  ultimately show ?thesis by (intro exI [of _ t] exI [of _ q] exI [of _ x] conjI) simp_all
qed

end
