(* ===== verification/Concrete_World.thy ===== *)
theory Concrete_World
  imports Payment_Life
begin

text \<open>
  Concrete books, networks, a payment and the world it runs in, with the invariants they satisfy: the
  ground of every witness.
\<close>

section \<open>A concrete world\<close>

text \<open>
  The books of the accounts service are those \<open>demo_db\<close> reaches from its endpoints, written out; the network
  answers every request (\<open>sunny\<close>), or the destination wallet is frozen (\<open>frozen\<close>), or the first
  request stays in flight (\<open>stormy\<close>).
\<close>

definition demo_books :: accounts_db where
  "demo_books =
     \<lparr>users = [\<lparr>user_id = 0, user_reference = ''usr_00000000000000000000000000'', customer_firstname = ''Awa'',
        customer_lastname = ''Traore'', customer_email = ''awa@example.com'', customer_phone_number = ''+2250700000000'',
        customer_address = None, customer_city = None, customer_country = None, customer_zip_code = None,
        user_created_at = 0\<rparr>],
      wallets =
       [\<lparr>wallet_id = 0, wallet_reference = ''wlt_00000000010000000000000000'', wallet_user_id = 0,
         wallet_currency = ''XOF'', balance = 1000, reserved_amount = 0, wallet_label = None,
         wallet_status = ACTIVE, wallet_created_at = 0\<rparr>,
        \<lparr>wallet_id = 1, wallet_reference = ''wlt_00000000030000000000000000'', wallet_user_id = 0,
         wallet_currency = ''XOF'', balance = 0, reserved_amount = 0, wallet_label = None,
         wallet_status = ACTIVE, wallet_created_at = 0\<rparr>],
      ledger =
       [\<lparr>entry_reference = ''trx_00000000020000000000000000'', entry_wallet_id = 0,
         entry_transaction_id = ''opening-wlt-00000000010000000000000000'', entry_type = CREDIT, entry_amount = 1000,
         entry_currency = ''XOF'', balance_before = 0, balance_after = 1000, entry_description = ''Opening balance'',
         entry_payment_reference = None, entry_created_at = 0\<rparr>],
      refs = (\<lambda>n. (n, \<lambda>_. 0)), drawn = 4, now_ms = 0\<rparr>"

lemma demo_ids: "map entry_transaction_id (ledger demo_books) = [''opening-wlt-00000000010000000000000000'']"
  "map entry_transaction_id (ledger (set_status w st demo_books)) = [''opening-wlt-00000000010000000000000000'']"
  by (simp_all add: demo_books_def set_status_def)

lemma demo_books_inv: "accounts_inv demo_books"
  unfolding accounts_inv_def chained_def by code_simp

definition demo_network :: "accounts_db \<Rightarrow> (nat \<Rightarrow> exchange) \<Rightarrow> network" where
  "demo_network d w =
     \<lparr>config = \<lparr>credentials = demo_credentials, apiKeyHeader = ''demo-key'', apiSecretHeader = ''demo-secret'',
        timeoutMs = 5000, maxAttempts = 1,
        breaker_options = \<lparr>failureThreshold = num 5, openMs = num 10000, successThreshold = num 1\<rparr>\<rparr>,
      server = d, in_flight = [], weather = w, exchanges = 0, breaker = new_breaker,
      breaker_clock = (\<lambda>n. n), ticks = 0, jitter = (\<lambda>_. 0), slept = []\<rparr>"

definition plainly :: "fate \<Rightarrow> exchange" where
  "plainly f = \<lparr>arrivals = [], others = (\<lambda>d. d), shared = (\<lambda>b. b), exchange_fate = f\<rparr>"

definition demo_name :: string where "demo_name = ''pay_00000000050000000000000000''"

definition demo_payment :: Payment where
  "demo_payment = \<lparr>reference = \<lparr>prefix = ''pay'', value = demo_name\<rparr>, transactionId = ''order-0001'',
     money = \<lparr>amount = 300, currency = XOF\<rparr>, source = \<lparr>prefix = ''wlt'', value = ''wlt_00000000010000000000000000''\<rparr>,
     destination = \<lparr>prefix = ''wlt'', value = ''wlt_00000000030000000000000000''\<rparr>, description = ''Invoice'', metadata = None,
     status = Pending, createdAt = 0, updatedAt = 0, failureReason = None,
     debitTransactionReference = None, creditTransactionReference = None,
     refundTransactionReference = None, completedAt = None, events = []\<rparr>"

definition demo_world :: "network \<Rightarrow> network world" where
  "demo_world net =
     \<lparr>db = \<lparr>payments = [toPersistence demo_payment (default_row 0)], idempotency_keys = [], outbox = []\<rparr>,
      remote = net, held = None, revision = None, active = None, in_tx = False,
      tx_script = (\<lambda>_. \<lparr>tx_others = (\<lambda>d. d), tx_fate = TxCommits\<rparr>), txs = 0,
      lock_script = (\<lambda>_. LockGranted True), lock_calls = 0, read_script = (\<lambda>_. True), db_reads = 0,
      clock = (\<lambda>n. n), clock_reads = 0, draws = (\<lambda>_ _. 0), generated = 0, correlation = ''demo''\<rparr>"

definition sunny :: network where
  "sunny = demo_network demo_books (\<lambda>_. plainly (Answered calm))"

definition frozen :: network where
  "frozen = demo_network (set_status ''wlt_00000000030000000000000000'' FROZEN demo_books) (\<lambda>_. plainly (Answered calm))"

definition barred :: network where
  "barred = demo_network (set_status ''wlt_00000000010000000000000000'' FROZEN demo_books) (\<lambda>_. plainly (Answered calm))"

text \<open>The first request stays in flight and lands with the third exchange; the lookup between them is answered.\<close>

definition stormy_weather :: "nat \<Rightarrow> exchange" where
  "stormy_weather n =
     (if n = 0 then plainly (StillInFlight (Broken \<lparr>shape_status = None, shape_code = None, timedOut = True\<rparr> ''Timeout has occurred''))
      else if n = 1 then plainly (Answered calm)
      else (plainly (Answered calm))\<lparr>arrivals := [(0, calm)]\<rparr>)"

definition stormy :: network where
  "stormy = demo_network demo_books stormy_weather"

lemma plainly_legit: "legit_exchange own (plainly (Answered calm))"
  using legit_calm by (simp add: legit_exchange_def plainly_def calm_def [abs_def])

lemma demo_network_inv:
  "accounts_inv d \<Longrightarrow> (\<And>n. legit_exchange own (w n)) \<Longrightarrow> net_inv own (demo_network d w)"
  by (simp add: net_inv_def demo_network_def)

lemma sunny_inv: "net_inv own sunny" and frozen_inv: "net_inv own frozen" and barred_inv: "net_inv own barred"
  unfolding sunny_def frozen_def barred_def
  using demo_books_inv plainly_legit set_status_keeps by (auto intro!: demo_network_inv)

lemma stormy_inv: "net_inv own stormy"
proof -
  have "legit_exchange own (stormy_weather n)" for n
    using legit_calm by (simp add: legit_exchange_def stormy_weather_def plainly_def calm_def [abs_def])
  then show ?thesis unfolding stormy_def using demo_books_inv by (intro demo_network_inv)
qed

lemma demo_payment_wf: "wf_payment demo_payment"
proof -
  have "referencePattern ''pay'' demo_name" "referencePattern ''wlt'' ''wlt_00000000010000000000000000''"
    "referencePattern ''wlt'' ''wlt_00000000030000000000000000''"
    by code_simp+
  then show ?thesis
    by (simp add: wf_payment_def demo_payment_def wf_ref_def wf_money_def optional_wf_def wf_fields_def)
qed

lemma demo_stored: "stored demo_name (db (demo_world net)) demo_payment 1"
proof -
  let ?row = "toPersistence demo_payment (default_row 0)"
  have amount: "amount (money demo_payment) \<le> 2 ^ 53" and R: "value (reference demo_payment) = demo_name"
    by (simp_all add: demo_payment_def)
  have "toDomain ?row = Inr (demo_payment\<lparr>createdAt := row_created_at (default_row 0), updatedAt := row_updated_at (default_row 0), events := []\<rparr>)"
    by (rule toDomain_fresh [OF demo_payment_wf amount])
  moreover have "twin (demo_payment\<lparr>createdAt := c, updatedAt := u, events := []\<rparr>) demo_payment" for c u
    using twin_sym twin_fields(2) by blast
  moreover have "lookupBy row_reference demo_name (payments (db (demo_world net))) = Some ?row"
    using R by (simp add: demo_world_def row_of_payment)
  moreover have "version ?row = 1" by (simp add: row_of_payment default_row_def)
  ultimately show ?thesis using demo_payment_wf amount R unfolding stored_def by blast
qed

lemma demo_at_rest: "at_rest demo_name (demo_world net) demo_payment"
  using demo_stored [of net]
  by (auto simp: at_rest_def well_behaved_def calm_db_def legit_tx_def demo_world_def)

lemma demo_fresh:
  assumes "map entry_transaction_id (ledger d) = [''opening-wlt-00000000010000000000000000'']" and "k \<in> own_keys R"
    and "''opening-wlt-00000000010000000000000000'' \<notin> own_keys R"
  shows "quiet net_moved net_pending (demo_network d w) k"
proof -
  have "entry_transaction_id e \<noteq> k" if "e \<in> set (ledger d)" for e
  proof -
    have "entry_transaction_id e \<in> set (map entry_transaction_id (ledger d))" using that by simp
    then have "entry_transaction_id e = ''opening-wlt-00000000010000000000000000''" unfolding assms(1) by simp
    then show ?thesis using assms(2,3) by auto
  qed
  then have "lookupBy entry_key (i, k) (ledger d) = None" for i
    by (auto simp: lookupBy_None entry_key_def)
  then show ?thesis
    by (simp add: quiet_def net_moved_def db_moved_def net_pending_def demo_network_def split: option.split)
qed

lemma demo_born:
  assumes "net_inv (own_keys demo_name) (demo_network d w)"
    and "map entry_transaction_id (ledger d) = [''opening-wlt-00000000010000000000000000'']"
  shows "payment_life demo_name (demo_world (demo_network d w))"
proof (rule payment_life.created)
  let ?net = "demo_network d w"
  have "remote (demo_world ?net) = ?net" "messages_of demo_name (db (demo_world ?net)) = []"
    by (simp_all add: demo_world_def messages_of_def)
  moreover have "scripts_legit demo_name (demo_world ?net)" "\<not> in_tx (demo_world ?net)"
    by (simp_all add: demo_world_def scripts_legit_def legit_tx_def)
  moreover have "\<exists>p v. stored demo_name (db (demo_world ?net)) p v \<and> status p = Pending"
    using demo_stored by (intro exI [of _ demo_payment] exI [of _ 1]) (simp add: demo_payment_def)
  ultimately show "newborn demo_name (demo_world ?net)"
    using assms demo_fresh [OF assms(2), of _ demo_name] by (auto simp: newborn_def own_keys_def demo_name_def)
qed

end
