(* ===== verification/Conservation.thy ===== *)
theory Conservation
  imports Payment_Life
begin

text \<open>
  Money is conserved. The balances of all wallets add up to the signed movements of the ledger, the
  movements of a payment are exactly its entries, and what these add up to follows from the coherence
  of the payment: nothing, or minus its amount while it is under way.
\<close>

section \<open>Balances and entries\<close>

definition total_balance :: "accounts_db \<Rightarrow> int" where
  "total_balance a = sum_list (map balance (wallets a))"

definition total_booked :: "LedgerEntry list \<Rightarrow> int" where
  "total_booked es = sum_list (map signed_amount es)"

definition own_entries :: "string \<Rightarrow> accounts_db \<Rightarrow> LedgerEntry list" where
  "own_entries R a = filter (\<lambda>e. entry_transaction_id e \<in> own_keys R) (ledger a)"

definition foreign_entries :: "string \<Rightarrow> accounts_db \<Rightarrow> LedgerEntry list" where
  "foreign_entries R a = filter (\<lambda>e. entry_transaction_id e \<notin> own_keys R) (ledger a)"

lemma booked_total: "(\<forall>e \<in> set es. entry_wallet_id e < n) \<Longrightarrow> (\<Sum>i<n. booked i es) = total_booked es"
proof (induction es)
  case (Cons e es)
  have "booked i (e # es) = (if i = entry_wallet_id e then signed_amount e else 0) + booked i es" for i
    by (simp add: booked_def)
  with Cons show ?case by (simp add: sum.distrib total_booked_def)
qed (simp add: booked_def total_booked_def)

lemma total_balance_booked:
  assumes "accounts_inv a"
  shows "total_balance a = total_booked (ledger a)"
proof -
  have "\<forall>w \<in> set (wallets a). balance w = booked (wallet_id w) (ledger a)"
    using assms by (simp add: accounts_inv_def wallet_ok_def list_all_iff)
  then have "map balance (wallets a) = map (\<lambda>i. booked i (ledger a)) (map wallet_id (wallets a))" by simp
  also have "\<dots> = map (\<lambda>i. booked i (ledger a)) [0..<length (wallets a)]"
    using assms by (simp add: accounts_inv_def)
  finally have "total_balance a = (\<Sum>i<length (wallets a). booked i (ledger a))"
    unfolding total_balance_def by (simp add: sum_list_distinct_conv_sum_set atLeast0LessThan)
  also have "\<dots> = total_booked (ledger a)"
    using assms by (intro booked_total) (auto simp: accounts_inv_def)
  finally show ?thesis .
qed

lemma total_split: "total_booked (ledger a) = total_booked (foreign_entries R a) + total_booked (own_entries R a)"
proof -
  have "total_booked es = total_booked (filter (\<lambda>e. \<not> P e) es) + total_booked (filter P es)" for P es
    by (induction es) (simp_all add: total_booked_def)
  then show ?thesis by (simp add: foreign_entries_def own_entries_def)
qed

section \<open>Entries and movements\<close>

definition movement_of :: "accounts_db \<Rightarrow> LedgerEntry \<Rightarrow> string \<times> string \<times> movement_fact" where
  "movement_of a e = (wallet_reference (wallets a ! entry_wallet_id e), entry_transaction_id e, fact_of e)"

fun effect :: "string \<times> string \<times> movement_fact \<Rightarrow> int" where
  "effect (w, k, ref, type, amnt) = delta_of type amnt"

lemma wallet_of_entry:
  assumes "accounts_inv a" and "e \<in> set (ledger a)"
  shows "wallets a ! entry_wallet_id e \<in> set (wallets a)" "wallet_id (wallets a ! entry_wallet_id e) = entry_wallet_id e"
proof -
  have ids: "map wallet_id (wallets a) = [0..<length (wallets a)]" and low: "entry_wallet_id e < length (wallets a)"
    using assms by (auto simp: accounts_inv_def)
  show "wallets a ! entry_wallet_id e \<in> set (wallets a)" using low by simp
  show "wallet_id (wallets a ! entry_wallet_id e) = entry_wallet_id e"
    using low arg_cong [OF ids, of "\<lambda>xs. xs ! entry_wallet_id e"] by simp
qed

lemma moved_iff_entry:
  assumes "accounts_inv a"
  shows "db_moved a w k = Some f \<longleftrightarrow> (\<exists>e \<in> set (ledger a). movement_of a e = (w, k, f))"
proof
  assume "db_moved a w k = Some f"
  then obtain wal e where wal: "lookupBy wallet_reference w (wallets a) = Some wal"
      and e: "lookupBy entry_key (wallet_id wal, k) (ledger a) = Some e" "f = fact_of e"
    by (auto simp: db_moved_def split: option.splits)
  have found: "e \<in> set (ledger a)" "entry_wallet_id e = wallet_id wal" "entry_transaction_id e = k"
    using lookupBy_Some [OF e(1)] by (simp_all add: entry_key_def)
  have "wallets a ! entry_wallet_id e = wal"
    using assms wallet_of_entry [OF assms found(1)] lookupBy_Some [OF wal] found(2)
    by (intro wallet_id_unique [of "wallets a"]) (simp_all add: accounts_inv_def)
  then show "\<exists>e \<in> set (ledger a). movement_of a e = (w, k, f)"
    using found e(2) lookupBy_Some [OF wal] by (intro bexI [of _ e]) (simp_all add: movement_of_def)
next
  assume "\<exists>e \<in> set (ledger a). movement_of a e = (w, k, f)"
  then obtain e where e: "e \<in> set (ledger a)" "movement_of a e = (w, k, f)" by blast
  let ?wal = "wallets a ! entry_wallet_id e"
  have "lookupBy wallet_reference (wallet_reference ?wal) (wallets a) = Some ?wal"
    using assms wallet_of_entry(1) [OF assms e(1)] by (intro distinct_keys_lookup) (auto simp: accounts_inv_def)
  moreover have "lookupBy entry_key (wallet_id ?wal, k) (ledger a) = Some e"
    using assms e distinct_keys_lookup [of entry_key "ledger a" e] wallet_of_entry(2) [OF assms e(1)]
    by (simp add: accounts_inv_def movement_of_def entry_key_def)
  ultimately show "db_moved a w k = Some f" using e(2) by (auto simp: db_moved_def movement_of_def)
qed

lemma own_entries_effect:
  assumes "accounts_inv (server net)"
  shows "total_booked (own_entries R (server net)) = sum effect (payment_movements R net)"
    and "finite (payment_movements R net)"
proof -
  let ?a = "server net"
  have image: "payment_movements R net = movement_of ?a ` set (own_entries R ?a)"
    unfolding payment_movements_def net_moved_def moved_iff_entry [OF assms] own_entries_def
    by (auto simp: movement_of_def image_iff)
  then show "finite (payment_movements R net)" by simp
  have refs: "inj_on entry_reference (set (ledger ?a))" and rows: "distinct (ledger ?a)"
    using assms by (auto simp: accounts_inv_def distinct_map)
  then have "inj_on (movement_of ?a) (set (own_entries R ?a))"
    by (auto simp: inj_on_def movement_of_def fact_of_def own_entries_def)
  then have "sum effect (payment_movements R net) = sum (effect \<circ> movement_of ?a) (set (own_entries R ?a))"
    unfolding image by (rule sum.reindex)
  also have "effect \<circ> movement_of ?a = signed_amount"
    by (rule ext) (simp add: movement_of_def fact_of_def signed_amount_def)
  finally show "total_booked (own_entries R ?a) = sum effect (payment_movements R net)"
    using rows by (simp add: total_booked_def sum_list_distinct_conv_sum_set own_entries_def)
qed

section \<open>The effect of a payment\<close>

definition leg_effect :: "network \<Rightarrow> Payment \<Rightarrow> leg \<Rightarrow> int" where
  "leg_effect net p l = sum effect (leg_movements net p l)"

lemma leg_effect_quiet: "leg_quiet net_moved net_pending net p l \<Longrightarrow> leg_effect net p l = 0"
  by (simp add: leg_effect_def leg_movements_quiet)

lemma leg_effect_moved:
  assumes "leg_only net_moved net_pending net p l" and "leg_moved net_moved net p l y"
  shows "leg_effect net p l = delta_of (leg_type l) (amount (money p))"
proof -
  obtain d where "y = Some d" using assms(2) by (auto simp: leg_moved_def)
  with assms show ?thesis by (simp add: leg_effect_def leg_movements_moved)
qed

lemma leg_effect_cases:
  assumes "leg_only net_moved net_pending net p l"
  shows "leg_effect net p l \<in> {0, delta_of (leg_type l) (amount (money p))}"
proof (cases "leg_movements net p l = {}")
  case False
  then obtain ref where ref: "leg_fact p l ref \<in> leg_movements net p l"
    using leg_movements_only [OF assms] by blast
  moreover have "x = leg_fact p l ref" if x: "x \<in> leg_movements net p l" for x
  proof -
    obtain ref' where "x = leg_fact p l ref'" using leg_movements_only [OF assms] x by blast
    with x ref show ?thesis by (simp add: leg_movements_def)
  qed
  ultimately have "leg_movements net p l = {leg_fact p l ref}" by blast
  then show ?thesis by (simp add: leg_effect_def)
qed (simp add: leg_effect_def)

lemma payment_effect_legs:
  assumes "value (reference p) = R" and "finite (payment_movements R net)"
  shows "sum effect (payment_movements R net) = leg_effect net p debit_leg + leg_effect net p credit_leg + leg_effect net p refund_leg"
proof -
  let ?m = "leg_movements net p"
  have "finite (?m debit_leg)" "finite (?m credit_leg)" "finite (?m refund_leg)"
    using assms(2) unfolding payment_movements_legs [OF assms(1)] by simp_all
  moreover have "?m debit_leg \<inter> ?m credit_leg = {}" "(?m debit_leg \<union> ?m credit_leg) \<inter> ?m refund_leg = {}"
    using movementKey_distinct [of p] by (auto simp: leg_movements_def)
  ultimately show ?thesis
    unfolding payment_movements_legs [OF assms(1)] leg_effect_def by (simp add: sum.union_disjoint)
qed

text \<open>
  Property C4. Money is conserved: in every reachable state of a payment the balances of all wallets add
  up to what everybody else booked, less at most the amount of the payment, which only an unsettled
  payment or one declined without an answer can have under way; once the payment is Approved or
  Compensated, or declined by a refusal, the sum is exactly what everybody else booked.
\<close>

theorem money_is_conserved:
  assumes "payment_life R s" and "stored_payment R s = Some p"
  shows "\<exists>under_way \<in> {0, amount (money p)}.
       total_balance (server (remote s)) = total_booked (foreign_entries R (server (remote s))) - under_way
     \<and> (status p \<in> {Pending, Approved, Compensated} \<or> status p = Declined \<and> failureReason p \<noteq> Some ACCOUNTS_UNAVAILABLE_REASON
          \<longrightarrow> under_way = 0)"
proof -
  let ?net = "remote s" and ?a = "amount (money p)"
  note life = life_payment [OF assms] and only = life_legs [OF assms]
  have inv: "accounts_inv (server ?net)"
    using payment_life_sound [OF assms(1)] by (auto simp: sound_def sound_as_def net_inv_def)
  note effect = own_entries_effect [OF inv, of R]
  have total: "total_balance (server ?net) = total_booked (foreign_entries R (server ?net))
      + (leg_effect ?net p debit_leg + leg_effect ?net p credit_leg + leg_effect ?net p refund_leg)"
    using total_balance_booked [OF inv] total_split [of "server ?net" R] effect payment_effect_legs [OF life(2) effect(2)] by simp
  have deltas: "delta_of (leg_type debit_leg) ?a = - ?a" "delta_of (leg_type credit_leg) ?a = ?a" "delta_of (leg_type refund_leg) ?a = ?a"
    by (simp_all add: leg_type_def delta_of_def)
  have "\<exists>under_way \<in> {0, ?a}. leg_effect ?net p debit_leg + leg_effect ?net p credit_leg + leg_effect ?net p refund_leg = - under_way
     \<and> (status p \<in> {Pending, Approved, Compensated} \<or> status p = Declined \<and> failureReason p \<noteq> Some ACCOUNTS_UNAVAILABLE_REASON
          \<longrightarrow> under_way = 0)"
    using life(3) leg_effect_cases [OF only, of debit_leg] leg_effect_cases [OF only, of credit_leg]
      leg_effect_cases [OF only, of refund_leg] leg_effect_quiet leg_effect_moved [OF only]
    unfolding coherent_def status_coherent_def deltas
    by (cases "status p") (fastforce simp: deltas split: if_splits)+
  with total show ?thesis by fastforce
qed

end
