(* ===== verification/Payment_Scenarios.thy ===== *)
theory Payment_Scenarios
  imports Concrete_World Conservation
begin

text \<open>
  Concrete runs of a payment against the real client and concrete books: the witnesses of the
  properties of \<open>Payment_Life\<close>, and the scenario in which a payment declined for want of an answer is
  debited afterwards.
\<close>

section \<open>The runs\<close>

text \<open>The saga of the demo payment ends as the specification says.\<close>

definition demo_end :: "network \<Rightarrow> network world" where
  "demo_end net = snd (saga_run AccountsHttpClient (reference demo_payment) (demo_world net))"

lemma demo_payment_is: "value (reference demo_payment) = demo_name" "status demo_payment = Pending"
  by (simp_all add: demo_payment_def)

lemma demo_saga:
  assumes "net = demo_network d w" and "net_inv (own_keys demo_name) net"
    and "map entry_transaction_id (ledger d) = [''opening-wlt-00000000010000000000000000'']"
    and "map_option fst (saga_outcome AccountsHttpClient demo_payment net) = Some final"
  shows "payment_life demo_name (demo_end net) \<and> ends_as demo_name demo_payment final
    (snd (the (saga_outcome AccountsHttpClient demo_payment net))) (demo_end net)"
proof -
  obtain r where out: "saga_outcome AccountsHttpClient demo_payment net = Some (final, r)"
    using assms(4) by auto
  have i: "net_inv (own_keys demo_name) (remote (demo_world net))" and rem: "remote (demo_world net) = net"
    using assms(2) by (simp_all add: demo_world_def)
  have born: "payment_life demo_name (demo_world net)"
    unfolding assms(1) by (rule demo_born) (use assms in simp_all)
  have "wp (saga_run AccountsHttpClient (reference demo_payment)) (\<lambda>_. ends_as demo_name demo_payment final r)
      (\<lambda>_ _. False) (demo_world net)"
    by (rule wire.saga_implements [OF demo_at_rest demo_payment_is(2) i demo_payment_is(1)]) (simp add: out rem)
  then obtain x t where run: "saga_run AccountsHttpClient (reference demo_payment) (demo_world net) = (Inr x, t)"
      and ends: "ends_as demo_name demo_payment final r t"
    by (rule run_returns)
  have "demo_end net = t" by (simp add: demo_end_def run)
  then show ?thesis using payment_life.saga [OF born demo_payment_is(1) run] ends out by simp
qed

lemma demo_ends:
  assumes "payment_life demo_name s \<and> ends_as demo_name demo_payment final r s"
  obtains p where "payment_life demo_name s" "stored_payment demo_name s = Some p" "same_payment demo_payment p"
    "status p = final" "remote s = r"
  using assms ends_stored [of demo_name demo_payment final r s] by (auto simp: ends_as_def)

lemma sunny_outcome: "map_option fst (saga_outcome AccountsHttpClient demo_payment sunny) = Some Approved"
  by code_simp

lemma frozen_outcome: "map_option fst (saga_outcome AccountsHttpClient demo_payment frozen) = Some Compensated"
  by code_simp

lemma barred_outcome: "map_option fst (saga_outcome AccountsHttpClient demo_payment barred) = Some Declined"
  by code_simp

lemmas sunny_end = demo_saga [OF sunny_def sunny_inv demo_ids(1) sunny_outcome]
lemmas frozen_end = demo_saga [OF frozen_def frozen_inv demo_ids(2) frozen_outcome]
lemmas barred_end = demo_saga [OF barred_def barred_inv demo_ids(2) barred_outcome]

section \<open>A debit that lands after the payment was declined\<close>

definition stormy_sent :: network where
  "stormy_sent = snd (the (saga_outcome AccountsHttpClient demo_payment stormy))"

definition stormy_closed :: network where
  "stormy_closed = snd (the (recovery_outcome AccountsHttpClient (demo_payment\<lparr>status := Processing\<rparr>) stormy_sent))"

lemma stormy_outcome: "map_option fst (saga_outcome AccountsHttpClient demo_payment stormy) = Some Processing"
  by code_simp

lemma stormy_unmoved: "net_moved stormy_sent ''wlt_00000000010000000000000000'' demo_name = None"
  by code_simp

lemma stormy_recovery:
  "map_option fst (recovery_outcome AccountsHttpClient (demo_payment\<lparr>status := Processing\<rparr>) stormy_sent) = Some Declined"
  by code_simp

lemma stormy_landed:
  "map_option snd (net_moved (begin_exchange stormy_closed) ''wlt_00000000010000000000000000'' demo_name) = Some (DEBIT, 300)"
  by code_simp

text \<open>After the run of the saga: the payment is processing without a debit, as far as anybody can see.\<close>

lemma stormy_end: "payment_life demo_name (demo_end stormy)" "ends_as demo_name demo_payment Processing stormy_sent (demo_end stormy)"
  using demo_saga [OF stormy_def stormy_inv demo_ids(1) stormy_outcome] by (simp_all add: stormy_sent_def)

lemma stormy_processing:
  obtains q where "at_rest demo_name (demo_end stormy) q" "same_payment demo_payment q" "status q = Processing"
    "debitTransactionReference q = None" "remote (demo_end stormy) = stormy_sent"
    "recovery_outcome AccountsHttpClient q (remote (demo_end stormy)) = Some (Declined, stormy_closed)"
proof -
  obtain q where q: "at_rest demo_name (demo_end stormy) q" "same_payment demo_payment q" "status q = Processing"
    and rem: "remote (demo_end stormy) = stormy_sent"
    using stormy_end(2) by (auto simp: ends_as_def)
  obtain q0 where q0: "stored_payment demo_name (demo_end stormy) = Some q0" "twin q q0"
    using q(1) twin_sym by (auto simp: at_rest_def stored_def stored_payment_def)
  note same = twin_spec_fields [OF q0(2)]
  have "leg_moved net_moved (remote (demo_end stormy)) q0 debit_leg (Some d)" if "debitTransactionReference q0 = Some d" for d
    using life_payment(3) [OF stormy_end(1) q0(1)] that same q(3) by (simp add: coherent_def status_coherent_def)
  moreover have "leg_wallet q0 debit_leg = ''wlt_00000000010000000000000000''" "movementKey q0 debit_leg = demo_name"
    using q(2) same by (simp_all add: same_payment_def demo_payment_def leg_wallet_def movementKey_def)
  ultimately have none: "debitTransactionReference q0 = None"
    using stormy_unmoved rem by (cases "debitTransactionReference q0") (auto simp: leg_moved_def)
  have "recovery_outcome AccountsHttpClient q = recovery_outcome AccountsHttpClient (demo_payment\<lparr>status := Processing\<rparr>)"
    by (rule outcome_cong(5)) (use q none same in \<open>simp_all add: same_payment_def demo_payment_def\<close>)
  then have "recovery_outcome AccountsHttpClient q (remote (demo_end stormy)) = Some (Declined, stormy_closed)"
    using stormy_recovery rem by (auto simp: stormy_closed_def)
  with q rem none same show thesis by (intro that) simp_all
qed

definition stormy_declined :: "network world" where
  "stormy_declined = snd (compensate_execute AccountsHttpClient demo_name (demo_end stormy))"

definition stormy_later :: "network world" where
  "stormy_later = stormy_declined\<lparr>remote := begin_exchange (remote stormy_declined)\<rparr>"

lemma stormy_declined_end:
  "payment_life demo_name stormy_declined" "ends_as demo_name demo_payment Declined stormy_closed stormy_declined"
proof -
  obtain q where q: "at_rest demo_name (demo_end stormy) q" "same_payment demo_payment q" "status q = Processing"
    and rem: "remote (demo_end stormy) = stormy_sent"
    and out: "recovery_outcome AccountsHttpClient q (remote (demo_end stormy)) = Some (Declined, stormy_closed)"
    by (rule stormy_processing)
  have i: "net_inv (own_keys demo_name) (remote (demo_end stormy))"
    using payment_life_sound [OF stormy_end(1)] by (auto simp: sound_def sound_as_def)
  have "wp (compensate_execute AccountsHttpClient demo_name) (\<lambda>_. ends_as demo_name q Declined stormy_closed) (\<lambda>_ _. False) (demo_end stormy)"
    by (rule wire.recovery_implements [OF q(1) _ i _ out]) (use q(3) in simp_all)
  then obtain x t where run: "compensate_execute AccountsHttpClient demo_name (demo_end stormy) = (Inr x, t)"
      "ends_as demo_name q Declined stormy_closed t" by (rule run_returns)
  then have t: "stormy_declined = t" by (simp add: stormy_declined_def)
  show "payment_life demo_name stormy_declined" using payment_life.compensation [OF stormy_end(1) run(1)] by (simp add: t)
  show "ends_as demo_name demo_payment Declined stormy_closed stormy_declined"
    using ends_as_same [OF q(2) run(2)] by (simp add: t)
qed

text \<open>
  Property C15. The recovery of a payment whose debit got no answer can decline it while the debit is
  still on its way: there is a reachable state in which the payment is Declined, for good, and its
  source has been debited of its amount, with no refund owed to it.
\<close>

theorem declined_payment_can_lose_its_debit:
  "\<exists>p ref. payment_life demo_name stormy_later \<and> stored_payment demo_name stormy_later = Some p \<and> status p = Declined
     \<and> payment_movements demo_name (remote stormy_later) = {(value (source p), demo_name, ref, DEBIT, amount (money p))}"
proof -
  obtain p where p: "stored_payment demo_name stormy_declined = Some p" "same_payment demo_payment p" "status p = Declined"
    using ends_stored [OF stormy_declined_end(2)] by blast
  have life: "payment_life demo_name stormy_later"
    unfolding stormy_later_def
    by (rule payment_life.meanwhile [OF stormy_declined_end(1) exchange_elsewhere [OF stormy_declined_end(1)]])
  have here: "stored_payment demo_name stormy_later = Some p" using p(1) by (simp add: stormy_later_def stored_payment_def)
  have "remote stormy_later = begin_exchange stormy_closed" using stormy_declined_end(2) by (simp add: stormy_later_def ends_as_def)
  moreover have "value (source p) = ''wlt_00000000010000000000000000''" using p(2) by (simp add: same_payment_def demo_payment_def)
  ultimately obtain ref where moved: "net_moved (remote stormy_later) (value (source p)) demo_name = Some (ref, DEBIT, 300)"
    using stormy_landed by (cases "net_moved (begin_exchange stormy_closed) ''wlt_00000000010000000000000000'' demo_name") auto
  have own: "demo_name \<in> own_keys demo_name" and amount: "amount (money p) = 300"
    using p(2) by (simp_all add: own_keys_def same_payment_def demo_payment_def)
  have "payment_movements demo_name (remote stormy_later) = {(value (source p), demo_name, ref, DEBIT, amount (money p))}"
  proof (intro equalityI subsetI)
    fix x assume x: "x \<in> payment_movements demo_name (remote stormy_later)"
    then obtain ref' where "x = (value (source p), demo_name, ref', DEBIT, amount (money p))"
      using declined_only(2) [OF life here p(3)] by blast
    then show "x \<in> {(value (source p), demo_name, ref, DEBIT, amount (money p))}"
      using x moved by (simp add: payment_movements_def)
  next
    fix x assume "x \<in> {(value (source p), demo_name, ref, DEBIT, amount (money p))}"
    then show "x \<in> payment_movements demo_name (remote stormy_later)"
      using moved own amount by (simp add: payment_movements_def)
  qed
  with life here p(3) show ?thesis by blast
qed

section \<open>The properties applied\<close>

theorem recovery_refines_specification_witness:
  "\<exists>t q x. compensate_execute AccountsHttpClient demo_name (demo_end stormy) = (Inr x, t)
     \<and> stored_payment demo_name t = Some q \<and> status q = Declined"
proof -
  obtain q where q: "at_rest demo_name (demo_end stormy) q" "status q = Processing"
    and out: "recovery_outcome AccountsHttpClient q (remote (demo_end stormy)) = Some (Declined, stormy_closed)"
    by (rule stormy_processing)
  have i: "net_inv (own_keys demo_name) (remote (demo_end stormy))"
    using payment_life_sound [OF stormy_end(1)] by (auto simp: sound_def sound_as_def)
  from recovery_refines_specification [OF q(1) _ i out] q(2) show ?thesis by blast
qed

lemma barred_reason: "map_option failureReason (stored_payment demo_name (demo_end barred)) = Some (Some WALLET_FROZEN_REASON)"
  by code_simp

theorem refused_payment_moves_nothing_witness:
  "payment_movements demo_name (remote (demo_end barred)) = {}"
proof (rule demo_ends [OF barred_end])
  fix p assume p: "payment_life demo_name (demo_end barred)" "stored_payment demo_name (demo_end barred) = Some p" "status p = Declined"
  have "failureReason p \<noteq> Some ACCOUNTS_UNAVAILABLE_REASON" using barred_reason p(2) by simp
  from refused_payment_moves_nothing [OF p this steps_refl] show ?thesis .
qed

theorem approved_moves_once_witness:
  "\<exists>p d c. stored_payment demo_name (demo_end sunny) = Some p \<and> status p = Approved
     \<and> debitTransactionReference p = Some d \<and> creditTransactionReference p = Some c
     \<and> payment_movements demo_name (remote (demo_end sunny)) =
         {(value (source p), demo_name, value d, DEBIT, amount (money p)),
          (value (destination p), demo_name @ '':credit'', value c, CREDIT, amount (money p))}"
  by (rule demo_ends [OF sunny_end]) (use approved_moves_once in blast)

theorem fields_agree_with_status_witness:
  "\<exists>p. stored_payment demo_name (demo_end sunny) = Some p \<and> status p = Approved
     \<and> creditTransactionReference p \<noteq> None \<and> debitTransactionReference p \<noteq> None \<and> completedAt p \<noteq> None
     \<and> refundTransactionReference p = None"
proof (rule demo_ends [OF sunny_end])
  fix p assume p: "payment_life demo_name (demo_end sunny)" "stored_payment demo_name (demo_end sunny) = Some p" "status p = Approved"
  from fields_agree_with_status [OF p(1,2)] p(2,3) show
    "\<exists>p. stored_payment demo_name (demo_end sunny) = Some p \<and> status p = Approved
     \<and> creditTransactionReference p \<noteq> None \<and> debitTransactionReference p \<noteq> None \<and> completedAt p \<noteq> None
     \<and> refundTransactionReference p = None"
    by (intro exI [of _ p]) (auto simp: TERMINAL_STATUSES_def)
qed

theorem compensated_nets_to_zero_witness:
  "\<exists>p d f. stored_payment demo_name (demo_end frozen) = Some p \<and> status p = Compensated
     \<and> debitTransactionReference p = Some d \<and> refundTransactionReference p = Some f
     \<and> payment_movements demo_name (remote (demo_end frozen)) =
         {(value (source p), demo_name, value d, DEBIT, amount (money p)),
          (value (source p), demo_name @ '':refund'', value f, CREDIT, amount (money p))}"
  by (rule demo_ends [OF frozen_end]) (use compensated_nets_to_zero in blast)

theorem never_credited_and_refunded_witness:
  "quiet net_moved net_pending (remote (demo_end frozen)) (demo_name @ '':credit'')"
proof (rule demo_ends [OF frozen_end])
  fix p assume p: "payment_life demo_name (demo_end frozen)" "stored_payment demo_name (demo_end frozen) = Some p" "status p = Compensated"
  obtain f where "(value (source p), demo_name @ '':refund'', f) \<in> payment_movements demo_name (remote (demo_end frozen))"
    using compensated_movements [OF p] by blast
  then have "\<not> quiet net_moved net_pending (remote (demo_end frozen)) (demo_name @ '':refund'')"
    by (cases f) (auto simp: payment_movements_def quiet_def)
  with p(1) show ?thesis by (rule never_credited_and_refunded)
qed

theorem declined_moves_at_most_the_debit_witness:
  "\<exists>p. stored_payment demo_name (demo_end barred) = Some p \<and> status p = Declined
     \<and> payment_movements demo_name (remote (demo_end barred))
       \<subseteq> range (\<lambda>ref. (value (source p), demo_name, ref, DEBIT, amount (money p)))"
  by (rule demo_ends [OF barred_end]) (use declined_moves_at_most_the_debit in blast)

theorem outbox_matches_status_witness:
  "map fst (messages_of demo_name (db (demo_end sunny)))
     = [''payment.transaction.recorded'', ''payment.transaction.recorded'', ''payment.approved'']"
  by (rule demo_ends [OF sunny_end]) (use outbox_matches_status [of demo_name "demo_end sunny"] in auto)

theorem settled_payment_is_inert_witness:
  "untouched (demo_end sunny) (snd (recover AccountsHttpClient (reference demo_payment) (demo_end sunny)))"
  by (rule demo_ends [OF sunny_end])
    (use settled_payment_is_inert [OF _ _ demo_payment_is(1), of "demo_end sunny"] in \<open>auto simp: TERMINAL_STATUSES_def\<close>)

theorem saga_refines_specification_witness:
  "\<exists>t q. saga_run AccountsHttpClient (reference demo_payment) (demo_world sunny) = (Inr (), t)
     \<and> stored_payment demo_name t = Some q \<and> status q = Approved"
proof -
  obtain r where r: "saga_outcome AccountsHttpClient demo_payment sunny = Some (Approved, r)" using sunny_outcome by auto
  have "remote (demo_world sunny) = sunny" by (simp add: demo_world_def)
  with saga_refines_specification [OF demo_at_rest demo_payment_is(2), of sunny Approved r] r sunny_inv
  show ?thesis by auto
qed

text \<open>After the approved payment of 300 the two wallets hold together the 1000 that were put in.\<close>

lemma sunny_foreign:
  "total_booked (foreign_entries demo_name (server (snd (the (saga_outcome AccountsHttpClient demo_payment sunny))))) = 1000"
  by code_simp

theorem money_is_conserved_witness:
  "total_balance (server (remote (demo_end sunny))) = 1000"
  by (rule demo_ends [OF sunny_end]) (use money_is_conserved sunny_foreign in fastforce)

end
