(* ===== verification/Initiation.thy ===== *)
theory Initiation
  imports Concrete_World
begin

text \<open>
  Initiating a payment: the idempotency key, the payment row and the stored response commit together,
  a repeated request is answered from the stored row, the hash ignores the order of the keys of a
  body, and a payment so created starts a \<open>payment_life\<close>. Then the optimistic lock of the repository.
\<close>

section \<open>Creating the payment\<close>

text \<open>The columns a creation decides on, in the state of the tables \<open>d\<close> it runs on.\<close>

definition new_payment :: "InitiatePaymentCommand \<Rightarrow> payments_db \<Rightarrow> Payment \<Rightarrow> bool" where
  "new_payment c d p \<longleftrightarrow> wf_payment p \<and> status p = Pending \<and> transactionId p = cmd_transactionId c
     \<and> Money_of (cmd_amount c) (cmd_currency c) = Inr (money p)
     \<and> value (source p) = cmd_sourceWallet c \<and> value (destination p) = cmd_destinationWallet c
     \<and> lookupBy row_reference (value (reference p)) (payments d) = None
     \<and> lookupBy row_transaction_id (transactionId p) (payments d) = None"

text \<open>What no part of the initiation transaction touches.\<close>

definition steady :: "'r world \<Rightarrow> 'r world \<Rightarrow> bool" where
  "steady s t \<longleftrightarrow> remote t = remote s \<and> same_scripts s t \<and> active t = active s"

lemma steady_simps [simp]:
  "steady s s" "steady s (t\<lparr>clock_reads := n\<rparr>) = steady s t" "steady s (t\<lparr>db_reads := n\<rparr>) = steady s t"
  "steady s (t\<lparr>db := d\<rparr>) = steady s t" "steady s (t\<lparr>held := h\<rparr>) = steady s t" "steady s (t\<lparr>revision := v\<rparr>) = steady s t"
  "steady s (t\<lparr>generated := n\<rparr>) = steady s t" "steady (s\<lparr>db := d\<rparr>) t = steady s t"
  by (simp_all add: steady_def same_scripts_def)

lemma wp_fresh: "wp fresh_payment_reference Q E s = Q (Reference_generate PAYMENT (clock s (clock_reads s)) (draws s (generated s)))
    (s\<lparr>clock_reads := clock_reads s + 1, generated := generated s + 1\<rparr>)"
  by (simp add: fresh_payment_reference_def wp_simps)

lemma wp_save_new:
  assumes "in_tx s" and "held s = Some p" and "revision s = None" and "steady s0 s"
    and "\<And>t now. db t = (db s)\<lparr>payments := payments (db s) @ [toPersistence p (default_row now)]\<rparr> \<Longrightarrow> steady s0 t
      \<Longrightarrow> lookupBy row_reference (value (reference p)) (payments (db s)) = None
      \<Longrightarrow> lookupBy row_transaction_id (transactionId p) (payments (db s)) = None \<Longrightarrow> Q () t"
    and "\<And>e t. steady s0 t \<Longrightarrow> E e t"
  shows "wp (transaction_run save) Q E s"
proof -
  have "transaction_run save s = save s" using assms(1) by (simp add: transaction_run_def)
  moreover have "wp save Q E s"
    using assms(2-4) by (auto simp: save_def wp_simps wp_the_payment intro!: assms(5,6))
  ultimately show ?thesis by (simp add: wp_def)
qed

lemma wp_create_payment:
  assumes "in_tx s"
  shows "wp (create_payment c)
    (\<lambda>R t. steady s t \<and> (\<exists>p now. R = value (reference p) \<and> new_payment c (db s) p
       \<and> db t = (db s)\<lparr>payments := payments (db s) @ [toPersistence p (default_row now)]\<rparr>))
    (\<lambda>_. steady s) s"
proof -
  let ?now = "clock s (clock_reads s)"
  let ?s = "s\<lparr>clock_reads := clock_reads s + 1\<rparr>"
  let ?fresh = "Reference_generate PAYMENT (clock ?s (clock_reads ?s)) (draws ?s (generated ?s))"
  let ?Q = "\<lambda>R t. steady s t \<and> (\<exists>p now. R = value (reference p) \<and> new_payment c (db s) p
       \<and> db t = (db s)\<lparr>payments := payments (db s) @ [toPersistence p (default_row now)]\<rparr>)"
  have step: "wp (andThen (transaction_run save) (\<lambda>_. ret (value (reference p)))) ?Q (\<lambda>_. steady s)
      (?s\<lparr>clock_reads := clock_reads ?s + 1, generated := generated ?s + 1, held := Some p, revision := None\<rparr>)"
    if m: "Money_of (cmd_amount c) (cmd_currency c) = Inr m" and src: "Reference_of WALLET (cmd_sourceWallet c) = Inr src"
      and dst: "Reference_of WALLET (cmd_destinationWallet c) = Inr dst"
      and p: "initiate \<lparr>in_transactionId = cmd_transactionId c, in_money = m, in_source = src,
        in_destination = dst, in_description = cmd_description c, in_metadata = cmd_metadata c\<rparr> ?fresh ?now = Inr p"
    for m src dst p
  proof -
    have wallets: "wf_ref WALLET src" "value src = cmd_sourceWallet c" "wf_ref WALLET dst" "value dst = cmd_destinationWallet c"
      using src dst by (auto simp: wf_ref_def)
    have wf: "wf_payment p"
      by (rule initiate_wf [OF p]) (use Money_of_wf [OF m] wallets Reference_generate_wf in \<open>simp_all add: input_wf_def\<close>)
    have fields: "status p = Pending" "transactionId p = cmd_transactionId c" "money p = m" "source p = src" "destination p = dst"
      using p by (auto simp: initiate_def split: if_splits)
    show ?thesis
      unfolding wp_andThen wp_ret
      by (rule wp_save_new [where p = p and ?s0.0 = s])
        (use assms wf fields m wallets in \<open>auto simp: new_payment_def\<close>)
  qed
  show ?thesis
    unfolding create_payment_def wp_andThen wp_raiseInl wp_new_Date wp_fresh wp_writes
    using step by (auto simp: wp_andThen split: sum.splits)
qed

section \<open>The transaction\<close>

abbreviation claim_of :: "json_text \<Rightarrow> InitiatePaymentCommand \<Rightarrow> string \<Rightarrow> IdempotencyRow" where
  "claim_of j c R \<equiv> \<lparr>key_text = cmd_transactionId c, request_hash = hash_payload j (command_payload c),
     key_status = COMPLETED, key_payment = Some R, response_body = Some R\<rparr>"

definition initiated :: "json_text \<Rightarrow> InitiatePaymentCommand \<Rightarrow> string \<Rightarrow> payments_db \<Rightarrow> payments_db \<Rightarrow> bool" where
  "initiated j c R d d' \<longleftrightarrow> lookupBy key_text (cmd_transactionId c) (idempotency_keys d) = None
     \<and> (\<exists>p now. R = value (reference p) \<and> new_payment c d p
          \<and> d' = d\<lparr>payments := payments d @ [toPersistence p (default_row now)],
                   idempotency_keys := idempotency_keys d @ [claim_of j c R]\<rparr>)"

text \<open>The tables the transaction finds: its own and what others committed before it.\<close>

definition found_tables :: "'r world \<Rightarrow> payments_db" where
  "found_tables s = tx_others (tx_script s (txs s)) (db s)"

abbreviation the_initiation :: "json_text \<Rightarrow> InitiatePaymentCommand \<Rightarrow> ('r, string option \<times> bool) work" where
  "the_initiation j c \<equiv> idempotency_execute j (cmd_transactionId c) (command_payload c) (create_payment c)"

lemma updateBy_new: "lookupBy k x rows = None \<Longrightarrow> k row = x \<Longrightarrow> updateBy k x f (rows @ [row]) = rows @ [f row]"
  by (induction rows) (auto simp: updateBy_def split: if_splits)

lemma wp_claim: "wp (claim k h) Q E s =
    (let t = s\<lparr>db_reads := db_reads s + 1\<rparr>; d = db s in
     if \<not> read_script s (db_reads s) then E (Plain ''connection failure'') t
     else if lookupBy key_text k (idempotency_keys d) \<noteq> None then Q False t
     else Q True (t\<lparr>db := d\<lparr>idempotency_keys := idempotency_keys d @ [\<lparr>key_text = k, request_hash = h,
          key_status = IN_PROGRESS, key_payment = None, response_body = None\<rparr>]\<rparr>\<rparr>))"
  by (simp add: claim_def wp_simps Let_def)

lemma wp_claimed_work:
  assumes "in_tx s" and "lookupBy key_text (cmd_transactionId c) (idempotency_keys d) = None"
    and "db s = d\<lparr>idempotency_keys := idempotency_keys d @ [\<lparr>key_text = cmd_transactionId c,
       request_hash = hash_payload j (command_payload c), key_status = IN_PROGRESS, key_payment = None, response_body = None\<rparr>]\<rparr>"
  shows "wp (andThen (create_payment c) (\<lambda>R. andThen (complete (cmd_transactionId c) R R) (\<lambda>_. ret (Some R, False))))
    (\<lambda>(b, replayed) t. steady s t \<and> \<not> replayed \<and> (\<exists>R. b = Some R \<and> initiated j c R d (db t))) (\<lambda>_. steady s) s"
  unfolding wp_andThen [where m = "create_payment c"]
proof (rule wp_mono [OF wp_create_payment [OF assms(1)]], goal_cases)
  case (1 R t)
  then obtain p now where p: "R = value (reference p)" "new_payment c (db s) p" and steady: "steady s t"
    and t: "db t = (db s)\<lparr>payments := payments (db s) @ [toPersistence p (default_row now)]\<rparr>"
    by blast
  have p': "new_payment c d p" using p(2) assms(3) by (auto simp: new_payment_def)
  have keys: "updateBy key_text (cmd_transactionId c)
       (\<lambda>row. row\<lparr>key_status := COMPLETED, key_payment := Some R, response_body := Some R\<rparr>) (idempotency_keys (db t))
     = idempotency_keys d @ [claim_of j c R]"
    using assms(3) t updateBy_new [OF assms(2)] by simp
  have "initiated j c R d ((db t)\<lparr>idempotency_keys := idempotency_keys d @ [claim_of j c R]\<rparr>)"
    unfolding initiated_def using assms(2,3) p(1) p' t by (intro conjI exI [of _ p] exI [of _ now]) simp_all
  then show ?case using steady keys by (simp add: wp_simps complete_def)
qed

lemma wp_the_initiation:
  assumes "\<not> in_tx s"
  shows "wp (the_initiation j c)
    (\<lambda>(b, replayed) t. steady s t \<and> (if replayed then db t = found_tables s \<and> lookupBy key_text (cmd_transactionId c) (idempotency_keys (db t)) \<noteq> None
       else \<exists>R. b = Some R \<and> initiated j c R (found_tables s) (db t)))
    (\<lambda>_ t. steady s t \<and> (db t = found_tables s \<or> (\<exists>R. initiated j c R (found_tables s) (db t)))) s"
    (is "wp _ ?Q ?E s")
  unfolding idempotency_execute_def
proof (rule wp_transaction_run [OF assms found_tables_def])
  let ?k = "cmd_transactionId c" and ?h = "hash_payload j (command_payload c)" and ?d = "found_tables s"
  let ?s = "s\<lparr>db := ?d, txs := txs s + 1, in_tx := True\<rparr>"
  let ?read = "?s\<lparr>db_reads := db_reads s + 1\<rparr>"
  show "wp (andThen (claim ?k ?h) (\<lambda>claimed. if \<not> claimed
       then andThen (resolveExisting ?k ?h) (\<lambda>stored. ret (stored, True))
       else andThen (create_payment c) (\<lambda>R. andThen (complete ?k R R) (\<lambda>_. ret (Some R, False)))))
     (\<lambda>x t. (tx_fate (tx_script s (txs s)) = TxCommits \<longrightarrow> ?Q x (t\<lparr>in_tx := False\<rparr>))
        \<and> (tx_fate (tx_script s (txs s)) \<noteq> TxCommits \<longrightarrow> (\<forall>e. \<not> isDomainError e \<longrightarrow>
             ?E e (t\<lparr>in_tx := False\<rparr>) \<and> ?E e (t\<lparr>db := ?d, in_tx := False\<rparr>))))
     (\<lambda>e t. ?E e (t\<lparr>db := ?d, in_tx := False\<rparr>)) ?s"
  proof (cases "lookupBy key_text ?k (idempotency_keys ?d)")
    case None
    let ?t = "?read\<lparr>db := ?d\<lparr>idempotency_keys := idempotency_keys ?d @ [\<lparr>key_text = ?k, request_hash = ?h,
          key_status = IN_PROGRESS, key_payment = None, response_body = None\<rparr>]\<rparr>\<rparr>"
    have "wp (andThen (create_payment c) (\<lambda>R. andThen (complete ?k R R) (\<lambda>_. ret (Some R, False))))
       (\<lambda>(b, replayed) t. steady ?t t \<and> \<not> replayed \<and> (\<exists>R. b = Some R \<and> initiated j c R ?d (db t))) (\<lambda>_. steady ?t) ?t"
      by (rule wp_claimed_work [OF _ None]) simp_all
    then have work: "wp (andThen (create_payment c) (\<lambda>R. andThen (complete ?k R R) (\<lambda>_. ret (Some R, False))))
       (\<lambda>x t. (tx_fate (tx_script s (txs s)) = TxCommits \<longrightarrow> ?Q x (t\<lparr>in_tx := False\<rparr>))
        \<and> (tx_fate (tx_script s (txs s)) \<noteq> TxCommits \<longrightarrow> (\<forall>e. \<not> isDomainError e \<longrightarrow>
             ?E e (t\<lparr>in_tx := False\<rparr>) \<and> ?E e (t\<lparr>db := ?d, in_tx := False\<rparr>))))
       (\<lambda>e t. ?E e (t\<lparr>db := ?d, in_tx := False\<rparr>)) ?t"
      by (rule wp_mono) (use assms in \<open>auto simp: steady_def same_scripts_def\<close>)
    have "steady s (?read\<lparr>db := ?d, in_tx := False\<rparr>)" using assms by (simp add: steady_def same_scripts_def)
    then show ?thesis using None work
      unfolding wp_andThen [where m = "claim a b" for a b] wp_claim by simp
  next
    case (Some row)
    then show ?thesis using assms
      by (auto simp: wp_simps claim_def resolveExisting_def find_key_def steady_def same_scripts_def)
  qed
qed

text \<open>
  Property C11. Initiation is atomic: whatever the request, the database and the other workers do, the
  transaction leaves the tables it found, or adds exactly one pending payment together with its
  completed idempotency key and stored response; it returns a new reference only in the second case,
  a replayed response only in the first, and calls nothing outside the database.
\<close>

theorem initiation_is_atomic:
  assumes "\<not> in_tx s" and "the_initiation j c s = (x, t)"
  shows "remote t = remote s \<and> (case x of
      Inr (b, True) \<Rightarrow> db t = found_tables s
    | Inr (b, False) \<Rightarrow> \<exists>R. b = Some R \<and> initiated j c R (found_tables s) (db t)
    | Inl e \<Rightarrow> db t = found_tables s \<or> (\<exists>R. initiated j c R (found_tables s) (db t)))"
  using wp_the_initiation [OF assms(1), of j c] assms(2)
  by (auto simp: wp_def steady_def split: sum.splits bool.splits)

lemma stored_key_decides:
  assumes "\<not> in_tx s" and "tx_fate (tx_script s (txs s)) = TxCommits" and "\<forall>n. read_script s n"
    and "lookupBy key_text (cmd_transactionId c) (idempotency_keys (found_tables s)) = Some row"
  shows "\<exists>t. initiate_execute port j c s =
      (if request_hash row \<noteq> hash_payload j (command_payload c)
       then Inl (Domain (IdempotencyConflictError (cmd_transactionId c)))
       else if key_status row = IN_PROGRESS then Inl (Domain (RequestInProgressError (cmd_transactionId c)))
       else Inr (response_body row), t)
    \<and> db t = found_tables s \<and> remote t = remote s"
  using assms
  by (auto simp: initiate_execute_def idempotency_execute_def claim_def resolveExisting_def find_key_def found_tables_def
      transaction_run_def query_def andThen_def ret_def throw_def Let_def)

text \<open>
  Property C13. A repeated request is decided by its stored key alone: another body is a conflict, a key
  still in progress is refused, and otherwise the stored response is returned; the tables and the
  accounts service are left alone, the saga is not run.
\<close>

theorem repeated_request_is_replayed:
  assumes "\<not> in_tx s" and "tx_fate (tx_script s (txs s)) = TxCommits" and "\<forall>n. read_script s n"
    and "lookupBy key_text (cmd_transactionId c) (idempotency_keys (found_tables s)) = Some row"
  shows "\<exists>t. initiate_execute port j c s =
      (if request_hash row \<noteq> hash_payload j (command_payload c)
       then Inl (Domain (IdempotencyConflictError (cmd_transactionId c)))
       else if key_status row = IN_PROGRESS then Inl (Domain (RequestInProgressError (cmd_transactionId c)))
       else Inr (response_body row), t)
    \<and> db t = found_tables s \<and> remote t = remote s"
  by (rule stored_key_decides [OF assms])

section \<open>One payment per key\<close>

text \<open>
  The tables the service can reach: from empty ones by initiations and by anything that leaves the
  keys and the identity columns of the payments alone, as every other operation does.
\<close>

definition identities :: "payments_db \<Rightarrow> (string \<times> string option) list" where
  "identities d = map (\<lambda>row. (row_transaction_id row, Some (row_reference row))) (payments d)"

inductive tables_reachable :: "json_text \<Rightarrow> payments_db \<Rightarrow> bool" for j where
  empty: "tables_reachable j \<lparr>payments = [], idempotency_keys = [], outbox = []\<rparr>"
| initiation: "tables_reachable j (found_tables (s :: network world)) \<Longrightarrow> \<not> in_tx s \<Longrightarrow> the_initiation j c s = (x, t) \<Longrightarrow> tables_reachable j (db t)"
| other: "tables_reachable j d \<Longrightarrow> identities d' = identities d \<Longrightarrow> idempotency_keys d' = idempotency_keys d \<Longrightarrow> tables_reachable j d'"

lemma initiated_keys:
  assumes "initiated j c R d d'"
  shows "identities d' = identities d @ [(cmd_transactionId c, Some R)]"
    and "idempotency_keys d' = idempotency_keys d @ [claim_of j c R]"
    and "cmd_transactionId c \<notin> set (map key_text (idempotency_keys d))"
    and "R \<notin> set (map row_reference (payments d))"
  using assms by (auto simp: initiated_def new_payment_def identities_def row_of_payment lookupBy_None)

text \<open>
  Property C12. Idempotency keys and payments are in bijection: in every reachable state of the tables
  the keys are distinct, all are completed, and the key and the reference of each, in order, are the
  transaction id and the reference of a payment; no two payments share either.
\<close>

theorem one_payment_per_key:
  assumes "tables_reachable j d"
  shows "map (\<lambda>k. (key_text k, key_payment k)) (idempotency_keys d) = identities d
    \<and> distinct (map key_text (idempotency_keys d)) \<and> distinct (map row_reference (payments d))
    \<and> list_all (\<lambda>k. key_status k = COMPLETED \<and> response_body k = key_payment k) (idempotency_keys d)"
  using assms
proof (induction rule: tables_reachable.induct)
  case empty
  then show ?case by (simp add: identities_def)
next
  case (initiation s c x t)
  then consider "db t = found_tables s" | R where "initiated j c R (found_tables s) (db t)"
    using wp_the_initiation [OF initiation.hyps(2), of j c] by (auto simp: wp_def split: sum.splits if_splits)
  then show ?case
  proof cases
    case 1
    then show ?thesis using initiation.IH by simp
  next
    case 2
    have "map row_reference (payments (db t)) = map row_reference (payments (found_tables s)) @ [R]"
      using 2 by (auto simp: initiated_def row_of_payment)
    then show ?thesis using initiation.IH initiated_keys [OF 2] by simp
  qed
next
  case (other d d')
  have refs: "map row_reference (payments e) = map (\<lambda>(_, r). the r) (identities e)" for e by (simp add: identities_def)
  have "map row_reference (payments d') = map row_reference (payments d)" unfolding refs other.hyps(2) ..
  then show ?case using other by simp
qed

section \<open>A created payment begins its life\<close>

lemma initiated_life:
  assumes "\<not> in_tx s" and "the_initiation j c s = (Inr (Some R, False), t)" and "integerOf (cmd_amount c) \<le> 2 ^ 53"
    and "net_inv (own_keys R) (remote s)" and "scripts_legit R s" and "messages_of R (found_tables s) = []"
    and "\<forall>k \<in> own_keys R. quiet net_moved net_pending (remote s) k"
  shows "payment_life R t \<and> (\<exists>p. stored_payment R t = Some p \<and> status p = Pending
     \<and> transactionId p = cmd_transactionId c \<and> amount (money p) = integerOf (cmd_amount c))"
proof -
  have steady: "steady s t" and i: "initiated j c R (found_tables s) (db t)"
    using wp_the_initiation [OF assms(1), of j c] assms(2) by (auto simp: wp_def)
  obtain p now where p: "R = value (reference p)" "new_payment c (found_tables s) p"
    and t: "payments (db t) = payments (found_tables s) @ [toPersistence p (default_row now)]" "outbox (db t) = outbox (found_tables s)"
    using i by (auto simp: initiated_def)
  have wf: "wf_payment p" and pending: "status p = Pending" and id: "transactionId p = cmd_transactionId c"
    and money: "Money_of (cmd_amount c) (cmd_currency c) = Inr (money p)"
    using p(2) by (simp_all add: new_payment_def)
  have amount: "amount (money p) = integerOf (cmd_amount c)" using money [symmetric] by (auto simp: Money_of_def split: if_splits)
  let ?row = "toPersistence p (default_row now)"
  have row: "lookupBy row_reference R (payments (db t)) = Some ?row"
    using p t(1) by (auto simp: new_payment_def lookupBy_append row_of_payment)
  note reread = toDomain_fresh [OF wf, of "default_row now"]
  have twin: "twin (p\<lparr>createdAt := a, updatedAt := u, events := []\<rparr>) p" for a u using twin_sym twin_fields(2) by blast
  have "stored R (db t) p 1"
    unfolding stored_def using row reread twin assms(3) amount wf p(1)
    by (intro exI [of _ ?row] exI conjI) (auto simp: row_of_payment default_row_def)
  moreover have "messages_of R (db t) = []" using assms(6) t(2) by (simp add: messages_of_def)
  moreover have "remote t = remote s" "scripts_legit R t" "\<not> in_tx t"
    using steady assms(1,5) by (simp_all add: steady_def same_scripts_def scripts_legit_def)
  ultimately have "payment_life R t" using assms(4,7) pending by (intro payment_life.created) (auto simp: newborn_def)
  moreover have "stored_payment R t = Some (p\<lparr>createdAt := row_created_at (default_row now), updatedAt := row_updated_at (default_row now), events := []\<rparr>)"
    using row reread assms(3) amount by (simp add: stored_payment_def)
  ultimately show ?thesis using pending id amount by simp
qed

text \<open>
  A payment the initiation creates starts its \<open>payment_life\<close>: if nothing was ever sent
  under its fresh reference, the state after the transaction is one from which the saga, the recovery
  and every interference keep the guarantees of that life.
\<close>

theorem initiated_payment_begins_its_life:
  assumes "\<not> in_tx s" and "the_initiation j c s = (Inr (Some R, False), t)" and "integerOf (cmd_amount c) \<le> 2 ^ 53"
    and "net_inv (own_keys R) (remote s)" and "scripts_legit R s" and "messages_of R (found_tables s) = []"
    and "\<forall>k \<in> own_keys R. quiet net_moved net_pending (remote s) k"
  shows "payment_life R t \<and> (\<exists>p. stored_payment R t = Some p \<and> status p = Pending
     \<and> transactionId p = cmd_transactionId c \<and> amount (money p) = integerOf (cmd_amount c))"
  using assms by (rule initiated_life)

section \<open>The optimistic lock\<close>

text \<open>
  No update is lost: once a handler has saved a payment, a save by anybody who loaded it at
  the same revision writes nothing and reports a concurrent modification (or the failure of its
  connection), as long as the row is the one the first save left.
\<close>

theorem stale_save_is_refused:
  assumes "save s = (Inr (), t)" and "held s = Some p" and "revision s = Some v"
    and "held u = Some q" and "value (reference q) = value (reference p)" and "revision u = Some v"
    and "lookupBy row_reference (value (reference p)) (payments (db u)) = lookupBy row_reference (value (reference p)) (payments (db t))"
  shows "db (snd (save u)) = db u
    \<and> fst (save u) \<in> {Inl (Domain (ConcurrentPaymentError (value (reference p)))), Inl (Plain ''connection failure'')}"
proof -
  let ?R = "value (reference p)"
  have "wp save (\<lambda>_ t. \<exists>row. lookupBy row_reference ?R (payments (db t)) = Some row \<and> version row = v + 1) (\<lambda>_ _. True) s"
    using assms(2,3) by (auto simp: save_def wp_simps wp_the_payment lookupBy_updateBy_same row_of_payment)
  then obtain row where "lookupBy row_reference ?R (payments (db t)) = Some row" "version row = v + 1"
    using assms(1) by (auto simp: wp_def)
  then have "wp save (\<lambda>_ _. False) (\<lambda>e u'. db u' = db u
      \<and> e \<in> {Domain (ConcurrentPaymentError ?R), Plain ''connection failure''}) u"
    using assms(4-7) by (auto simp: save_def wp_simps wp_the_payment)
  then show ?thesis by (cases "save u") (auto simp: wp_def split: sum.splits)
qed

section \<open>The hash of a request\<close>

text \<open>Two bodies that differ in the order of the keys of their objects, at any depth.\<close>

inductive reordered :: "js_value \<Rightarrow> js_value \<Rightarrow> bool" where
  same: "reordered v v"
| items: "list_all2 reordered xs ys \<Longrightarrow> reordered (Array xs) (Array ys)"
| entries: "list_all2 (rel_prod (=) reordered) xs zs \<Longrightarrow> mset zs = mset ys \<Longrightarrow> distinct (map fst ys)
    \<Longrightarrow> reordered (Object xs) (Object ys)"

text \<open>What \<open>localeCompare\<close> must be on the names of an object: a total order.\<close>

definition orders :: "('k \<Rightarrow> 'k \<Rightarrow> bool) \<Rightarrow> bool" where
  "orders le \<longleftrightarrow> (\<forall>x y. le x y \<or> le y x) \<and> (\<forall>x y z. le x y \<longrightarrow> le y z \<longrightarrow> le x z) \<and> (\<forall>x y. le x y \<longrightarrow> le y x \<longrightarrow> x = y)"

lemma insert_entry_mset [simp]: "mset (insert_entry le x ys) = add_mset x (mset ys)"
  by (induction le x ys rule: insert_entry.induct) auto

lemma sort_entries_mset [simp]: "mset (sort_entries le xs) = mset xs"
  by (induction xs) (simp_all add: sort_entries_def)

lemma set_insert_entry: "set (insert_entry le x ys) = insert x (set ys)"
  by (metis insert_entry_mset set_mset_add_mset_insert set_mset_mset)

lemma insert_entry_sorted:
  assumes "orders le" and "sorted_wrt (\<lambda>x y. le (fst x) (fst y)) ys"
  shows "sorted_wrt (\<lambda>x y. le (fst x) (fst y)) (insert_entry le x ys)"
  using assms(2)
proof (induction ys)
  case (Cons y ys)
  then show ?case using assms(1) unfolding orders_def by (auto simp: set_insert_entry)
qed simp

lemma sort_entries_sorted: "orders le \<Longrightarrow> sorted_wrt (\<lambda>x y. le (fst x) (fst y)) (sort_entries le xs)"
  by (induction xs) (simp_all add: sort_entries_def insert_entry_sorted)

lemma sorted_entries_unique:
  assumes "orders le" and "sorted_wrt (\<lambda>x y. le (fst x) (fst y)) xs" and "sorted_wrt (\<lambda>x y. le (fst x) (fst y)) ys"
    and "mset xs = mset ys" and "distinct (map fst xs)"
  shows "xs = ys"
  using assms(2-5)
proof (induction xs arbitrary: ys)
  case (Cons x xs)
  then obtain y ys' where ys: "ys = y # ys'" by (cases ys) auto
  have mem: "x \<in> set ys" "y \<in> set (x # xs)" using Cons.prems(3) ys by (metis list.set_intros(1) mset_eq_setD)+
  have "x = y"
  proof (rule ccontr)
    assume ne: "x \<noteq> y"
    then have "le (fst y) (fst x)" "le (fst x) (fst y)" using mem Cons.prems(1,2) ys by auto
    then have "fst x = fst y" using assms(1) by (auto simp: orders_def)
    moreover have "y \<in> set xs" using mem ne by simp
    ultimately show False using Cons.prems(4) by auto
  qed
  then show ?case using Cons.IH [of ys'] Cons.prems ys by simp
qed simp

lemma sort_entries_cong:
  assumes "orders le" and "mset xs = mset ys" and "distinct (map fst xs)"
  shows "sort_entries le xs = sort_entries le ys"
proof (rule sorted_entries_unique [OF assms(1) sort_entries_sorted [OF assms(1)] sort_entries_sorted [OF assms(1)]])
  show "mset (sort_entries le xs) = mset (sort_entries le ys)" using assms(2) by simp
  have "mset (map fst (sort_entries le xs)) = mset (map fst xs)" by simp
  then show "distinct (map fst (sort_entries le xs))" using assms(3) mset_eq_imp_distinct_iff by blast
qed

text \<open>The entries of an object as \<open>canonicalise\<close> writes them, before they are sorted.\<close>

definition written_entries :: "json_text \<Rightarrow> (string \<times> js_value) list \<Rightarrow> (string \<times> string) list" where
  "written_entries j entries = map (\<lambda>(name, v). (name, canonicalise j v)) (filter (\<lambda>(name, v). v \<noteq> Undefined) entries)"

lemma canonicalise_Object: "canonicalise j (Object entries) =
    ''{'' @ joined (map (\<lambda>(name, text). quote j name @ '':'' @ text) (sort_entries (name_le j) (written_entries j entries))) @ ''}''"
  by (simp add: written_entries_def)

text \<open>
  The hash of a request does not depend on the order in which its keys are written: bodies
  that differ only in that order, at any depth, have the same hash, whatever the hash function.
\<close>

theorem key_order_does_not_change_the_hash:
  assumes "reordered v w" and "orders (name_le j)"
  shows "hash_payload j v = hash_payload j w"
proof -
  have "canonicalise j v = canonicalise j w \<and> (v = Undefined \<longleftrightarrow> w = Undefined)"
    using assms(1)
  proof (induction rule: reordered.induct)
    case (items xs ys)
    then have "map (canonicalise j) xs = map (canonicalise j) ys" by (induction rule: list_all2_induct) auto
    then show ?case by (metis canonicalise.simps(7) js_value.distinct(11))
  next
    case (entries xs zs ys)
    from entries.IH have same: "written_entries j xs = written_entries j zs"
      by (induction rule: list_all2_induct) (auto simp: written_entries_def)
    have "mset (written_entries j zs) = mset (written_entries j ys)"
      using entries.hyps(1) by (simp add: written_entries_def mset_filter)
    moreover have "distinct (map fst (written_entries j zs))"
    proof -
      have "distinct (map fst zs)" using entries.hyps by (metis mset_eq_imp_distinct_iff mset_map)
      moreover have "map fst (written_entries j zs) = map fst (filter (\<lambda>(name, v). v \<noteq> Undefined) zs)"
        by (simp add: written_entries_def case_prod_unfold o_def)
      ultimately show ?thesis by (simp add: distinct_map_filter)
    qed
    ultimately have "sort_entries (name_le j) (written_entries j xs) = sort_entries (name_le j) (written_entries j ys)"
      unfolding same by (rule sort_entries_cong [OF assms(2)])
    then show ?case unfolding canonicalise_Object by simp
  qed simp
  then show ?thesis by (simp add: hash_payload_def)
qed

section \<open>The properties applied\<close>

fun codepoint_le :: "string \<Rightarrow> string \<Rightarrow> bool" where
  "codepoint_le [] ys = True"
| "codepoint_le (x # xs) [] = False"
| "codepoint_le (x # xs) (y # ys) = (of_char x < (of_char y :: nat) \<or> x = y \<and> codepoint_le xs ys)"

lemma codepoint_orders: "orders codepoint_le"
proof -
  have total: "codepoint_le xs ys \<or> codepoint_le ys xs" for xs ys
    by (induction xs ys rule: codepoint_le.induct) (auto simp: neq_iff)
  have trans: "codepoint_le xs ys \<Longrightarrow> codepoint_le ys zs \<Longrightarrow> codepoint_le xs zs" for xs ys zs
  proof (induction xs arbitrary: ys zs)
    case (Cons x xs)
    then show ?case by (cases ys; cases zs) auto
  qed simp
  have antisym: "codepoint_le xs ys \<Longrightarrow> codepoint_le ys xs \<Longrightarrow> xs = ys" for xs ys
  proof (induction xs arbitrary: ys)
    case Nil
    then show ?case by (cases ys) auto
  next
    case (Cons x xs)
    then show ?case by (cases ys) auto
  qed
  show ?thesis unfolding orders_def using total trans antisym by blast
qed

definition demo_json :: json_text where
  "demo_json = \<lparr>quote = (\<lambda>s. [CHR 0x22] @ s @ [CHR 0x22]), number = number_text, instant = show_nat, name_le = codepoint_le, sha256 = (\<lambda>s. s)\<rparr>"

definition demo_command :: InitiatePaymentCommand where
  "demo_command = \<lparr>cmd_transactionId = ''order-0001'', cmd_sourceWallet = ''wlt_00000000010000000000000000'',
     cmd_destinationWallet = ''wlt_00000000030000000000000000'', cmd_amount = num 300, cmd_currency = XOF,
     cmd_description = ''Invoice'', cmd_lang = ''fr'', cmd_metadata = None\<rparr>"

definition demo_shop :: "network world" where
  "demo_shop = (demo_world sunny)\<lparr>db := \<lparr>payments = [], idempotency_keys = [], outbox = []\<rparr>\<rparr>"

definition demo_opened :: "network world" where
  "demo_opened = snd (the_initiation demo_json demo_command demo_shop)"

definition demo_new :: string where
  "demo_new = value (Reference_generate PAYMENT 1 (\<lambda>_. 0))"

lemma demo_new_char: "hd demo_new = CHR ''p''" "demo_new \<noteq> []"
  by (simp_all add: demo_new_def Reference_generate_def)

lemma demo_initiated: "the_initiation demo_json demo_command demo_shop = (Inr (Some demo_new, False), demo_opened)"
proof -
  have "referencePattern ''wlt'' ''wlt_00000000010000000000000000''" "referencePattern ''wlt'' ''wlt_00000000030000000000000000''"
    by code_simp+
  then have refs: "Reference_of WALLET ''wlt_00000000010000000000000000'' = Inr \<lparr>prefix = ''wlt'', value = ''wlt_00000000010000000000000000''\<rparr>"
    "Reference_of WALLET ''wlt_00000000030000000000000000'' = Inr \<lparr>prefix = ''wlt'', value = ''wlt_00000000030000000000000000''\<rparr>"
    by simp_all
  have money: "Money_of (num 300) XOF = Inr \<lparr>amount = 300, currency = XOF\<rparr>"
    using Money_of_num [of "\<lparr>amount = 300, currency = XOF\<rparr>"] by (simp add: wf_money_def)
  have "fst (the_initiation demo_json demo_command demo_shop) = Inr (Some demo_new, False)"
    unfolding idempotency_execute_def create_payment_def demo_command_def
    by (simp add: refs money transaction_run_def claim_def query_def andThen_def raiseInl_def new_Date_def
        fresh_payment_reference_def reads_def writes_def initiate_def save_def the_payment_def update_db_def complete_def
        ret_def ref_equals_def demo_new_def demo_shop_def demo_world_def)
  then show ?thesis by (simp add: demo_opened_def prod_eq_iff)
qed

lemma demo_shop_simps: "\<not> in_tx demo_shop" "remote demo_shop = sunny" "tx_fate (tx_script demo_shop n) = TxCommits"
    "read_script demo_shop n" "found_tables demo_shop = \<lparr>payments = [], idempotency_keys = [], outbox = []\<rparr>"
    "scripts_legit R demo_shop"
  by (simp_all add: demo_shop_def demo_world_def found_tables_def scripts_legit_def legit_tx_def)

theorem initiation_is_atomic_witness:
  "\<exists>R. initiated demo_json demo_command R (found_tables demo_shop) (db demo_opened)"
  using initiation_is_atomic [OF demo_shop_simps(1) demo_initiated] by auto

theorem initiated_payment_begins_its_life_witness:
  "payment_life demo_new demo_opened"
proof -
  have "hd k = CHR ''p''" if "k \<in> own_keys demo_new" for k
    using that demo_new_char by (auto simp: own_keys_def)
  then have "''opening-wlt-00000000010000000000000000'' \<notin> own_keys demo_new" by fastforce
  then have "\<forall>k \<in> own_keys demo_new. quiet net_moved net_pending (remote demo_shop) k"
    unfolding demo_shop_simps sunny_def using demo_fresh [OF demo_ids(1)] by blast
  then show ?thesis
    using initiated_payment_begins_its_life [OF demo_shop_simps(1) demo_initiated] sunny_inv
    by (simp add: demo_shop_simps demo_command_def messages_of_def)
qed

text \<open>The same world, after the request: asked again, and asked with another body.\<close>

lemma demo_opened_key: "\<not> in_tx demo_opened" "tx_fate (tx_script demo_opened n) = TxCommits" "\<forall>n. read_script demo_opened n"
    "\<exists>row. lookupBy key_text ''order-0001'' (idempotency_keys (found_tables demo_opened)) = Some row
       \<and> request_hash row = hash_payload demo_json (command_payload demo_command) \<and> key_status row = COMPLETED
       \<and> response_body row = Some demo_new"
proof -
  have steady: "steady demo_shop demo_opened"
    and i: "initiated demo_json demo_command demo_new (found_tables demo_shop) (db demo_opened)"
    using wp_the_initiation [OF demo_shop_simps(1), of demo_json demo_command] demo_initiated by (auto simp: wp_def)
  show "\<not> in_tx demo_opened" "tx_fate (tx_script demo_opened n) = TxCommits" "\<forall>n. read_script demo_opened n"
    using steady demo_shop_simps by (simp_all add: steady_def same_scripts_def)
  have "found_tables demo_opened = db demo_opened"
    using steady by (simp add: steady_def same_scripts_def found_tables_def demo_shop_def demo_world_def)
  then show "\<exists>row. lookupBy key_text ''order-0001'' (idempotency_keys (found_tables demo_opened)) = Some row
       \<and> request_hash row = hash_payload demo_json (command_payload demo_command) \<and> key_status row = COMPLETED
       \<and> response_body row = Some demo_new"
    using i by (auto simp: initiated_def demo_shop_simps demo_command_def)
qed

theorem repeated_request_is_replayed_witness:
  "\<exists>t. initiate_execute AccountsHttpClient demo_json demo_command demo_opened = (Inr (Some demo_new), t)
     \<and> remote t = remote demo_opened"
proof -
  obtain row where row: "lookupBy key_text (cmd_transactionId demo_command) (idempotency_keys (found_tables demo_opened)) = Some row"
    "request_hash row = hash_payload demo_json (command_payload demo_command)" "key_status row = COMPLETED"
    "response_body row = Some demo_new"
    using demo_opened_key(4) by (auto simp: demo_command_def)
  from repeated_request_is_replayed [OF demo_opened_key(1-3) row(1), of AccountsHttpClient demo_json] row(2-4)
  show ?thesis by auto
qed

theorem one_payment_per_key_witness:
  "map (\<lambda>k. (key_text k, key_payment k)) (idempotency_keys (db demo_opened)) = identities (db demo_opened)
    \<and> identities (db demo_opened) = [(''order-0001'', Some demo_new)]"
proof -
  have "tables_reachable demo_json (found_tables demo_shop)" using tables_reachable.empty by (simp add: demo_shop_simps)
  then have "tables_reachable demo_json (db demo_opened)"
    by (rule tables_reachable.initiation [OF _ demo_shop_simps(1) demo_initiated])
  moreover have "identities (db demo_opened) = [(''order-0001'', Some demo_new)]"
    using initiated_keys(1) [of demo_json demo_command "demo_new" "found_tables demo_shop" "db demo_opened"]
      wp_the_initiation [OF demo_shop_simps(1), of demo_json demo_command] demo_initiated
    by (auto simp: wp_def demo_shop_simps identities_def demo_command_def)
  ultimately show ?thesis using one_payment_per_key by blast
qed

theorem key_order_does_not_change_the_hash_witness:
  "hash_payload demo_json (Object [(''amount'', Number (num 300)), (''lang'', String ''fr'')])
     = hash_payload demo_json (Object [(''lang'', String ''fr''), (''amount'', Number (num 300))])"
proof (rule key_order_does_not_change_the_hash)
  show "orders (name_le demo_json)" using codepoint_orders by (simp add: demo_json_def)
  show "reordered (Object [(''amount'', Number (num 300)), (''lang'', String ''fr'')])
      (Object [(''lang'', String ''fr''), (''amount'', Number (num 300))])"
    by (rule reordered.entries [where zs = "[(''amount'', Number (num 300)), (''lang'', String ''fr'')]"])
      (auto intro: reordered.same)
qed

text \<open>Two handlers load the demo payment at the same revision; the second to save is refused.\<close>

definition demo_loaded :: "network world" where
  "demo_loaded = (demo_world sunny)\<lparr>held := Some demo_payment, revision := Some 1\<rparr>"

theorem stale_save_is_refused_witness:
  "\<exists>t. save demo_loaded = (Inr (), t) \<and> db (snd (save (demo_loaded\<lparr>db := db t\<rparr>))) = db t"
proof -
  have "wp save (\<lambda>_ _. True) (\<lambda>_ _. False) demo_loaded"
    by (simp add: demo_loaded_def demo_world_def save_def wp_simps wp_the_payment row_of_payment default_row_def)
  then obtain t where t: "save demo_loaded = (Inr (), t)" by (auto simp: wp_def split: prod.splits sum.splits)
  have "held demo_loaded = Some demo_payment" "revision demo_loaded = Some 1" by (simp_all add: demo_loaded_def)
  from stale_save_is_refused [OF t this, of "demo_loaded\<lparr>db := db t\<rparr>" demo_payment] t
  show ?thesis by (auto simp: demo_loaded_def)
qed

end
