(* ===== verification/Ledger.thy ===== *)
theory Ledger
  imports Accounts "HOL-Library.Product_Lexorder"
begin

text \<open>
  The transactions service: its append-only table, \<open>TransactionsService\<close> with its repository, the HTTP
  controller and the consumer of the ledger events. \<open>other k\<close> is what the rest of the world commits
  at the k-th pause of a request, so two deliveries of one event race as they do in the service.
\<close>

section \<open>The table\<close>

record Transaction =
  txn_id :: nat
  txn_reference :: string
  txn_transaction_id :: string
  txn_payment_reference :: string
  txn_type :: TransactionType
  txn_wallet_reference :: string
  txn_user_reference :: string
  txn_amount :: int
  txn_currency :: string
  txn_description :: string
  txn_status :: TransactionStatus
  txn_occurred_at :: nat
  txn_recorded_at :: nat

text \<open>
  \<open>txn_refs n\<close> is what the clock and the random source give the n-th generated reference, \<open>txn_uuids n\<close>
  the n-th generated row id, \<open>txn_now\<close> the database's \<open>now()\<close>.
\<close>

record ledger_db =
  transactions :: "Transaction list"
  txn_refs :: "nat \<Rightarrow> nat \<times> (nat \<Rightarrow> nat)"
  txn_uuids :: "nat \<Rightarrow> nat"
  txn_drawn :: nat
  txn_now :: nat

type_synonym ledger_traffic = "nat \<Rightarrow> ledger_db \<Rightarrow> ledger_db"

datatype ledger_payload = Faults "string list" | About json_object
datatype ledger_exn = Denied "ledger_payload AppException" | Failed DriverError

type_synonym 'a ledger_prog = "(ledger_db, ledger_exn, 'a) prog"

definition append_transaction :: "Transaction \<Rightarrow> Transaction ledger_prog" where
  "append_transaction t db =
     (let row = t\<lparr>txn_id := txn_uuids db (length (transactions db)), txn_recorded_at := txn_now db\<rparr> in
      if lookupBy txn_id (txn_id row) (transactions db) \<noteq> None
      then (Inl (Failed \<lparr>sqlstate = Some ''23505'', err_constraint = Some ''PK_transactions''\<rparr>), db)
      else if lookupBy txn_reference (txn_reference t) (transactions db) \<noteq> None
      then (Inl (Failed \<lparr>sqlstate = Some ''23505'', err_constraint = Some ''uq_transactions_reference''\<rparr>), db)
      else if lookupBy txn_transaction_id (txn_transaction_id t) (transactions db) \<noteq> None
      then (Inl (Failed \<lparr>sqlstate = Some ''23505'', err_constraint = Some ''uq_transactions_transaction_id''\<rparr>), db)
      else if \<not> bigint_ok (txn_amount t)
      then (Inl (Failed \<lparr>sqlstate = Some ''22003'', err_constraint = None\<rparr>), db)
      else (Inr row, db\<lparr>transactions := transactions db @ [row]\<rparr>))"

definition findTransaction :: "string \<Rightarrow> Transaction option ledger_prog" where
  "findTransaction t = reads (\<lambda>db. lookupBy txn_transaction_id t (transactions db))"

definition findTransactionByReference :: "string \<Rightarrow> Transaction option ledger_prog" where
  "findTransactionByReference r = reads (\<lambda>db. lookupBy txn_reference r (transactions db))"

record HistoryFilter =
  by_user :: "string option"
  by_wallet :: "string option"
  by_type :: "TransactionType option"

text \<open>A filter that is the empty string is falsy and does not filter.\<close>

definition asks :: "string option \<Rightarrow> string \<Rightarrow> bool" where
  "asks wanted actual \<longleftrightarrow> wanted = None \<or> wanted = Some [] \<or> wanted = Some actual"

definition selected :: "HistoryFilter \<Rightarrow> Transaction \<Rightarrow> bool" where
  "selected f t \<longleftrightarrow> asks (by_wallet f) (txn_wallet_reference t) \<and> asks (by_user f) (txn_user_reference t)
     \<and> (case by_type f of None \<Rightarrow> True | Some type \<Rightarrow> txn_type t = type)"

text \<open>
  \<open>ORDER BY occurred_at DESC, recorded_at DESC, id DESC\<close>. A database promises an order only between rows
  that differ in the keys; the order in which it comes upon the rows is its plan, which is arbitrary
  and may be another for each query.
\<close>

type_synonym query_plan = "Transaction list \<Rightarrow> Transaction list"

definition newest_key :: "Transaction \<Rightarrow> int \<times> int \<times> int" where
  "newest_key t = (- int (txn_occurred_at t), - int (txn_recorded_at t), - int (txn_id t))"

definition newest_first :: "query_plan \<Rightarrow> Transaction list \<Rightarrow> Transaction list" where
  "newest_first plan rows = sort_key newest_key (plan rows)"

definition findPage :: "query_plan \<Rightarrow> HistoryFilter \<Rightarrow> ResolvedPagination \<Rightarrow> (Transaction list \<times> nat) ledger_prog" where
  "findPage plan f pagination = reads (\<lambda>db.
     getManyAndCount (skip pagination) (perPage pagination) (newest_first plan (filter (selected f) (transactions db))))"

section \<open>\<open>TransactionsService\<close>\<close>

record RecordTransactionRequest =
  rq_transaction_id :: string
  rq_payment_reference :: string
  rq_type :: TransactionType
  rq_wallet_reference :: string
  rq_user_reference :: string
  rq_amount :: int
  rq_currency :: string
  rq_description :: string
  rq_status :: TransactionStatus
  rq_occurred_at :: nat

definition fresh_transaction_reference :: "string ledger_prog" where
  "fresh_transaction_reference db =
     (case txn_refs db (txn_drawn db) of (ms, bytes) \<Rightarrow>
        (Inr (generateReference TRANSACTION ms bytes), db\<lparr>txn_drawn := txn_drawn db + 1\<rparr>))"

definition isLedgerConflict :: "ledger_exn \<Rightarrow> bool" where
  "isLedgerConflict e = (case e of
     Failed d \<Rightarrow> isUniqueViolation d (Some ''uq_transactions_transaction_id'') | Denied _ \<Rightarrow> False)"

definition new_row :: "RecordTransactionRequest \<Rightarrow> string \<Rightarrow> Transaction" where
  "new_row request fresh =
     \<lparr>txn_id = 0, txn_reference = fresh, txn_transaction_id = rq_transaction_id request,
      txn_payment_reference = rq_payment_reference request, txn_type = rq_type request,
      txn_wallet_reference = rq_wallet_reference request, txn_user_reference = rq_user_reference request,
      txn_amount = rq_amount request, txn_currency = rq_currency request,
      txn_description = rq_description request, txn_status = rq_status request,
      txn_occurred_at = rq_occurred_at request, txn_recorded_at = 0\<rparr>"

text \<open>\<open>record\<close>: the transaction and whether it was appended now.\<close>

definition record_transaction :: "ledger_traffic \<Rightarrow> RecordTransactionRequest \<Rightarrow> (Transaction \<times> bool) ledger_prog" where
  "record_transaction other request =
     andThen (findTransaction (rq_transaction_id request)) (\<lambda>known. case known of
       Some t \<Rightarrow> ret (t, False)
     | None \<Rightarrow>
         andThen (writes (other 0)) (\<lambda>_.
         tryCatch
           (andThen fresh_transaction_reference (\<lambda>fresh.
            andThen (append_transaction (new_row request fresh)) (\<lambda>t.
            ret (t, True))))
           (\<lambda>error.
             if \<not> isLedgerConflict error then throw error
             else andThen (writes (other 1)) (\<lambda>_.
                  andThen (findTransaction (rq_transaction_id request)) (\<lambda>winner. case winner of
                    None \<Rightarrow> throw error
                  | Some t \<Rightarrow> ret (t, False))))))"

record ListTransactionsQuery =
  list_user :: "string option"
  list_wallet :: "string option"
  list_type :: "TransactionType option"
  list_pagination :: PaginationQuery

definition UnscopedHistoryException :: "ledger_payload AppException" where
  "UnscopedHistoryException = AppException_of VALIDATION_FAILED 422 (Some (Faults [''user_reference'', ''wallet_reference'']))"

record TransactionResponse =
  tr_reference :: string
  tr_transaction_id :: string
  tr_payment_reference :: string
  tr_type :: TransactionType
  tr_wallet_reference :: string
  tr_user_reference :: string
  tr_amount :: int
  tr_currency :: string
  tr_description :: string
  tr_status :: TransactionStatus
  tr_occurred_at :: js_value
  tr_recorded_at :: js_value

text \<open>The amount is read back through \<open>bigintTransformer\<close>.\<close>

definition TransactionResponse_from :: "Transaction \<Rightarrow> TransactionResponse" where
  "TransactionResponse_from t =
     \<lparr>tr_reference = txn_reference t, tr_transaction_id = txn_transaction_id t,
      tr_payment_reference = txn_payment_reference t, tr_type = txn_type t,
      tr_wallet_reference = txn_wallet_reference t, tr_user_reference = txn_user_reference t,
      tr_amount = bigintTransformer_from (Some (txn_amount t)), tr_currency = txn_currency t,
      tr_description = txn_description t, tr_status = txn_status t,
      tr_occurred_at = Iso (txn_occurred_at t), tr_recorded_at = Iso (txn_recorded_at t)\<rparr>"

definition falsy_text :: "string option \<Rightarrow> bool" where
  "falsy_text s \<longleftrightarrow> s = None \<or> s = Some []"

definition history :: "query_plan \<Rightarrow> ListTransactionsQuery \<Rightarrow> TransactionResponse PaginatedData ledger_prog" where
  "history plan q =
     (if falsy_text (list_user q) \<and> falsy_text (list_wallet q) then throw (Denied UnscopedHistoryException)
      else (let pagination = resolvePagination (list_pagination q) in
        andThen (findPage plan \<lparr>by_user = list_user q, by_wallet = list_wallet q, by_type = list_type q\<rparr> pagination) (\<lambda>(rows, total).
        ret (PaginatedData_of (map TransactionResponse_from rows) (page pagination) (perPage pagination) total))))"

definition findOneTransaction :: "string \<Rightarrow> Transaction ledger_prog" where
  "findOneTransaction r =
     andThen (findTransactionByReference r) (\<lambda>found. case found of
       None \<Rightarrow> throw (Denied (TransactionNotFoundException (Some (About [(''reference'', String r)]))))
     | Some t \<Rightarrow> ret t)"

section \<open>Validation\<close>

text \<open>
  \<open>IsISO8601\<close> is validator.js: \<open>iso8601\<close> gives the instant of a string it accepts, which \<open>new Date\<close> is taken
  to read too. The strings written by \<open>toISOString\<close> are \<open>Iso\<close> values and always accepted.
\<close>

fun instant_of :: "(string \<Rightarrow> nat option) \<Rightarrow> js_value \<Rightarrow> nat option" where
  "instant_of iso8601 (Iso t) = Some t"
| "instant_of iso8601 (String s) = iso8601 s"
| "instant_of iso8601 _ = None"

fun transaction_type_of :: "js_value \<Rightarrow> TransactionType option" where
  "transaction_type_of (String s) =
     (if s = ''DEBIT'' then Some DEBIT else if s = ''CREDIT'' then Some CREDIT
      else if s = ''REFUND'' then Some REFUND else None)"
| "transaction_type_of _ = None"

fun transaction_status_of :: "js_value \<Rightarrow> TransactionStatus option" where
  "transaction_status_of (String s) =
     (if s = ''Pending'' then Some PENDING else if s = ''Approved'' then Some APPROVED
      else if s = ''Declined'' then Some DECLINED else None)"
| "transaction_status_of _ = None"

definition RecordTransaction_rules :: "(string \<Rightarrow> nat option) \<Rightarrow> field_rule list" where
  "RecordTransaction_rules iso8601 =
     [(''transaction_id'', text_rule isTransactionId),
      (''payment_reference'', text_rule (referencePattern ''pay'')),
      (''type'', \<lambda>v. transaction_type_of v \<noteq> None),
      (''wallet_reference'', text_rule (referencePattern ''wlt'')),
      (''user_reference'', text_rule (referencePattern ''usr'')),
      (''amount'', isValidAmount),
      (''currency'', text_rule isCurrency),
      (''description'', text_rule isSafeDescription),
      (''status'', \<lambda>v. transaction_status_of v \<noteq> None),
      (''occurred_at'', \<lambda>v. instant_of iso8601 v \<noteq> None)]"

definition RecordTransactionRequest_of :: "(string \<Rightarrow> nat option) \<Rightarrow> json_object \<Rightarrow> RecordTransactionRequest" where
  "RecordTransactionRequest_of iso8601 body =
     \<lparr>rq_transaction_id = text_of (property_of ''transaction_id'' body),
      rq_payment_reference = text_of (property_of ''payment_reference'' body),
      rq_type = (case transaction_type_of (property_of ''type'' body) of Some t \<Rightarrow> t | None \<Rightarrow> DEBIT),
      rq_wallet_reference = text_of (property_of ''wallet_reference'' body),
      rq_user_reference = text_of (property_of ''user_reference'' body),
      rq_amount = integer_of (property_of ''amount'' body),
      rq_currency = text_of (property_of ''currency'' body),
      rq_description = text_of (property_of ''description'' body),
      rq_status = (case transaction_status_of (property_of ''status'' body) of Some s \<Rightarrow> s | None \<Rightarrow> PENDING),
      rq_occurred_at = (case instant_of iso8601 (property_of ''occurred_at'' body) of Some t \<Rightarrow> t | None \<Rightarrow> 0)\<rparr>"

section \<open>The HTTP face\<close>

text \<open>
  \<open>POST transactions\<close>: the status follows the outcome, and the interceptor's envelope the status.
\<close>

definition post_transaction :: "(string \<Rightarrow> nat option) \<Rightarrow> ledger_traffic \<Rightarrow> json_object
    \<Rightarrow> (nat \<times> TransactionResponse ApiResponse) ledger_prog" where
  "post_transaction iso8601 other body =
     (case faulty_fields (RecordTransaction_rules iso8601) body of
        [] \<Rightarrow>
          andThen (record_transaction other (RecordTransactionRequest_of iso8601 body)) (\<lambda>(t, created).
          (let status = (if created then 201 else 200)
           in ret (status, ResponseInterceptor status (Shared.Plain (Some (TransactionResponse_from t))))))
      | faults \<Rightarrow> throw (Denied (ValidationFailedException (Some (Faults faults)))))"

definition valid_history :: "ListTransactionsQuery \<Rightarrow> bool" where
  "valid_history q \<longleftrightarrow> valid_pagination (list_pagination q)
     \<and> (case list_user q of None \<Rightarrow> True | Some r \<Rightarrow> referencePattern ''usr'' r)
     \<and> (case list_wallet q of None \<Rightarrow> True | Some r \<Rightarrow> referencePattern ''wlt'' r)"

definition get_transaction :: "string \<Rightarrow> TransactionResponse ledger_prog" where
  "get_transaction path = (case ReferencePipe TRANSACTION path of
     Inl faults \<Rightarrow> throw (Denied (ValidationFailedException (Some (Faults faults))))
   | Inr r \<Rightarrow> andThen (findOneTransaction r) (\<lambda>t. ret (TransactionResponse_from t)))"

section \<open>The consumer\<close>

datatype verdict = Ack | Requeue

text \<open>
  \<open>onTransactionRecorded\<close>: \<open>validate\<close> with a whitelist that forbids nothing, so an unknown property is no
  fault. The method itself never throws.
\<close>

definition event_faults :: "(string \<Rightarrow> nat option) \<Rightarrow> json_object \<Rightarrow> string list" where
  "event_faults iso8601 event =
     map fst (filter (\<lambda>(name, rule). \<not> rule (property_of name event)) (RecordTransaction_rules iso8601))"

definition onTransactionRecorded :: "(string \<Rightarrow> nat option) \<Rightarrow> ledger_traffic \<Rightarrow> json_object \<Rightarrow> ledger_db \<Rightarrow> verdict \<times> ledger_db" where
  "onTransactionRecorded iso8601 other event db =
     (if event_faults iso8601 event \<noteq> [] then (Ack, db)
      else (case record_transaction other (RecordTransactionRequest_of iso8601 event) db of
          (Inr _, db') \<Rightarrow> (Ack, db')
        | (Inl _, db') \<Rightarrow> (Requeue, db')))"

end
