(* ===== verification/Ledger_Properties.thy ===== *)
theory Ledger_Properties
  imports Ledger Concrete_World
begin

text \<open>
  The ledger only grows, holds each movement once however often it is delivered, answers its history
  page by page without a gap, and receives the movements of settled payments.
\<close>

section \<open>The table only grows\<close>

definition ledger_inv :: "ledger_db \<Rightarrow> bool" where
  "ledger_inv l \<longleftrightarrow> distinct (map txn_id (transactions l)) \<and> distinct (map txn_reference (transactions l))
     \<and> distinct (map txn_transaction_id (transactions l))"

definition ledger_extends :: "ledger_db \<Rightarrow> ledger_db \<Rightarrow> bool" where
  "ledger_extends l l1 \<longleftrightarrow> (\<exists>more. transactions l1 = transactions l @ more)"

definition ledger_legit :: "ledger_traffic \<Rightarrow> bool" where
  "ledger_legit other \<longleftrightarrow> (\<forall>k l. ledger_inv l \<longrightarrow> ledger_inv (other k l) \<and> ledger_extends l (other k l))"

definition quiet_traffic :: ledger_traffic where
  "quiet_traffic k l = l"

lemma ledger_extends_refl [simp]: "ledger_extends l l"
  by (simp add: ledger_extends_def)

lemma ledger_extends_trans: "ledger_extends a b \<Longrightarrow> ledger_extends b c \<Longrightarrow> ledger_extends a c"
  by (auto simp: ledger_extends_def)

lemma quiet_legit: "ledger_legit quiet_traffic"
  by (simp add: ledger_legit_def quiet_traffic_def)

lemma ledger_frame [simp]:
  "ledger_inv (l\<lparr>txn_drawn := n\<rparr>) = ledger_inv l" "ledger_extends a (l\<lparr>txn_drawn := n\<rparr>) = ledger_extends a l"
  by (simp_all add: ledger_inv_def ledger_extends_def)

text \<open>The row a request asks for.\<close>

definition row_for :: "RecordTransactionRequest \<Rightarrow> Transaction \<Rightarrow> bool" where
  "row_for request t \<longleftrightarrow> txn_transaction_id t = rq_transaction_id request
     \<and> txn_payment_reference t = rq_payment_reference request \<and> txn_type t = rq_type request
     \<and> txn_wallet_reference t = rq_wallet_reference request \<and> txn_user_reference t = rq_user_reference request
     \<and> txn_amount t = rq_amount request \<and> txn_currency t = rq_currency request
     \<and> txn_description t = rq_description request \<and> txn_status t = rq_status request
     \<and> txn_occurred_at t = rq_occurred_at request"

lemma wp_append_transaction:
  assumes "ledger_inv l"
  shows "wp (append_transaction t)
    (\<lambda>row l1. ledger_inv l1 \<and> transactions l1 = transactions l @ [row]
       \<and> row = t\<lparr>txn_id := txn_id row, txn_recorded_at := txn_recorded_at row\<rparr>
       \<and> lookupBy txn_transaction_id (txn_transaction_id t) (transactions l) = None)
    (\<lambda>_ l1. l1 = l) l"
  using assms by (auto simp: wp_def append_transaction_def Let_def ledger_inv_def lookupBy_None)

text \<open>\<open>T\<close> is a property of the rows that the others and the row of this request keep.\<close>

definition grows :: "(Transaction list \<Rightarrow> bool) \<Rightarrow> ledger_db \<Rightarrow> ledger_db \<Rightarrow> bool" where
  "grows T l l1 \<longleftrightarrow> ledger_inv l1 \<and> ledger_extends l l1 \<and> T (transactions l1)"

definition recorded :: "(Transaction list \<Rightarrow> bool) \<Rightarrow> ledger_db \<Rightarrow> RecordTransactionRequest \<Rightarrow> Transaction \<times> bool \<Rightarrow> ledger_db \<Rightarrow> bool" where
  "recorded T l request = (\<lambda>(t, created) l1. grows T l l1 \<and> t \<in> set (transactions l1)
     \<and> txn_transaction_id t = rq_transaction_id request
     \<and> (created \<longrightarrow> row_for request t \<and> t \<notin> set (transactions l)))"

lemma grows_drawn [simp]: "grows T l (d\<lparr>txn_drawn := n\<rparr>) = grows T l d"
  by (simp add: grows_def)

lemma wp_append_request:
  assumes "grows T l l1" and "row_for request r" and "\<And>rows row. T rows \<Longrightarrow> row_for request row \<Longrightarrow> T (rows @ [row])"
  shows "wp (andThen (append_transaction r) (\<lambda>t. ret (t, True))) (recorded T l request) (\<lambda>_. grows T l) l1"
proof -
  have inv: "ledger_inv l1" "ledger_extends l l1" "T (transactions l1)" using assms(1) by (simp_all add: grows_def)
  show ?thesis unfolding wp_andThen wp_ret
  proof (rule wp_mono [OF wp_append_transaction [OF inv(1)]], goal_cases)
    case (1 t l2)
    then have row: "t = r\<lparr>txn_id := txn_id t, txn_recorded_at := txn_recorded_at t\<rparr>" "ledger_inv l2"
      "transactions l2 = transactions l1 @ [t]" "lookupBy txn_transaction_id (txn_transaction_id r) (transactions l1) = None"
      by blast+
    have "row_for request (r\<lparr>txn_id := i, txn_recorded_at := n\<rparr>)" for i n using assms(2) by (simp add: row_for_def)
    then have rowfor: "row_for request t" using row(1) by metis
    then have "txn_transaction_id t = txn_transaction_id r" using assms(2) by (simp add: row_for_def)
    then have "t \<notin> set (transactions l)" using row(4) inv(2) by (auto simp: lookupBy_None ledger_extends_def)
    then show ?case using row(2,3) rowfor inv assms(3)
      by (auto simp: recorded_def grows_def row_for_def ledger_extends_def)
  next
    case (2 e l2)
    then show ?case using assms(1) by simp
  qed
qed

lemma wp_record_transaction:
  assumes "grows T l l" and "\<And>k d. grows T l d \<Longrightarrow> grows T l (other k d)"
    and "\<And>rows row. T rows \<Longrightarrow> row_for request row \<Longrightarrow> T (rows @ [row])"
  shows "wp (record_transaction other request) (recorded T l request) (\<lambda>_. grows T l) l"
proof -
  let ?k = "rq_transaction_id request" and ?P = "recorded T l request" and ?E = "\<lambda>(_ :: ledger_exn). grows T l"
  have known: "?P (t, False) l1" if "grows T l l1" "lookupBy txn_transaction_id ?k (transactions l1) = Some t" for t l1
    using that lookupBy_Some by (fastforce simp: recorded_def)
  show ?thesis
  proof (cases "lookupBy txn_transaction_id ?k (transactions l)")
    case (Some t)
    then show ?thesis using known [OF assms(1)]
      by (simp add: record_transaction_def findTransaction_def wp_simps)
  next
    case None
    obtain ms bytes where fresh: "txn_refs (other 0 l) (txn_drawn (other 0 l)) = (ms, bytes)" by (meson surj_pair)
    let ?row = "new_row request (generateReference TRANSACTION ms bytes)"
    let ?handle = "\<lambda>error. if \<not> isLedgerConflict error then throw error
             else andThen (writes (other 1)) (\<lambda>_. andThen (findTransaction ?k) (\<lambda>winner. case winner of
                    None \<Rightarrow> throw error | Some t \<Rightarrow> ret (t, False)))"
    define handle where "handle = ?handle"
    have handler: "wp (handle error) ?P ?E d" if "grows T l d" for error d
      using assms(2) [OF that] that known [of "other 1 d"]
      by (auto simp: handle_def wp_simps findTransaction_def split: option.splits)
    have run: "record_transaction other request = andThen (findTransaction ?k) (\<lambda>known. case known of
        Some t \<Rightarrow> ret (t, False)
      | None \<Rightarrow> andThen (writes (other 0)) (\<lambda>_. tryCatch (andThen fresh_transaction_reference (\<lambda>fresh.
          andThen (append_transaction (new_row request fresh)) (\<lambda>t. ret (t, True)))) handle))"
      unfolding record_transaction_def handle_def ..
    have "wp (andThen (append_transaction ?row) (\<lambda>t. ret (t, True))) ?P (\<lambda>error d. wp (handle error) ?P ?E d)
        ((other 0 l)\<lparr>txn_drawn := txn_drawn (other 0 l) + 1\<rparr>)"
      using assms(2) [OF assms(1), of 0] handler
      by (intro wp_mono [OF wp_append_request [where T = T and l = l and request = request]]) (simp_all add: row_for_def new_row_def assms(3))
    then show ?thesis using None fresh
      by (simp add: run findTransaction_def wp_simps fresh_transaction_reference_def
          wp_def [where m = fresh_transaction_reference])
  qed
qed

lemma grows_any: "ledger_legit other \<Longrightarrow> grows (\<lambda>_. True) l d \<Longrightarrow> grows (\<lambda>_. True) l (other k d)"
  unfolding grows_def ledger_legit_def using ledger_extends_trans [of l d] by blast

lemma wp_record_any:
  "ledger_inv l \<Longrightarrow> ledger_legit other
    \<Longrightarrow> wp (record_transaction other request) (recorded (\<lambda>_. True) l request) (\<lambda>_. grows (\<lambda>_. True) l) l"
  by (rule wp_record_transaction) (auto intro: grows_any simp: grows_def [of _ l l])

text \<open>
  Property C23. Recording is idempotent and append-only under any interference: existing rows are never
  changed or removed, no transaction id, reference or id is ever stored twice, a success returns the
  stored row of the request's transaction id, and \<open>created\<close> means that this very call appended it with
  the data of the request.
\<close>

theorem ledger_records_once:
  assumes "ledger_inv l" and "ledger_legit other" and "record_transaction other request l = (outcome, l1)"
  shows "ledger_inv l1 \<and> ledger_extends l l1 \<and> (case outcome of
      Inl e \<Rightarrow> True
    | Inr (t, created) \<Rightarrow> t \<in> set (transactions l1) \<and> txn_transaction_id t = rq_transaction_id request
        \<and> (created \<longrightarrow> row_for request t \<and> t \<notin> set (transactions l)))"
  using wp_record_any [OF assms(1,2), of request] assms(3)
  by (auto simp: wp_def recorded_def grows_def split: sum.splits)

section \<open>Redelivery\<close>

lemma lookup_after:
  assumes "ledger_inv l" and "t \<in> set (transactions l)"
  shows "lookupBy txn_transaction_id (txn_transaction_id t) (transactions l) = Some t"
  using assms by (intro distinct_keys_lookup) (simp_all add: ledger_inv_def)

lemma record_known:
  assumes "ledger_inv l" and "t \<in> set (transactions l)" and "txn_transaction_id t = rq_transaction_id request"
  shows "record_transaction other request l = (Inr (t, False), l)"
  using lookup_after [OF assms(1,2)] assms(3)
  by (simp add: record_transaction_def andThen_def findTransaction_def reads_def ret_def)

lemma consumer_grows:
  assumes "ledger_inv l" and "ledger_legit other" and "onTransactionRecorded iso8601 other event l = (verdict, l1)"
  shows "ledger_inv l1 \<and> ledger_extends l l1"
  using wp_record_any [OF assms(1,2), of "RecordTransactionRequest_of iso8601 event"] assms(1,3)
  by (auto simp: onTransactionRecorded_def wp_def recorded_def grows_def split: if_splits prod.splits sum.splits)

text \<open>
  Property C25. Redelivery is harmless: once the consumer has acknowledged a valid event, its movement is
  in the ledger, and every later delivery of that event, whatever else was recorded in between,
  is acknowledged and changes nothing.
\<close>

theorem redelivery_changes_nothing:
  assumes "ledger_inv l" and "ledger_legit other" and "event_faults iso8601 event = []"
    and "onTransactionRecorded iso8601 other event l = (Ack, l1)"
    and "ledger_inv l2" and "ledger_extends l1 l2"
  shows "(\<exists>t \<in> set (transactions l1). txn_transaction_id t = text_of (property_of ''transaction_id'' event))
    \<and> onTransactionRecorded iso8601 later event l2 = (Ack, l2)"
proof -
  let ?request = "RecordTransactionRequest_of iso8601 event"
  obtain t created where "record_transaction other ?request l = (Inr (t, created), l1)"
    using assms(3,4) by (auto simp: onTransactionRecorded_def split: prod.splits sum.splits)
  then have t: "t \<in> set (transactions l1)" "txn_transaction_id t = rq_transaction_id ?request"
    using wp_returns [OF wp_record_any [OF assms(1,2), of ?request]] by (auto simp: recorded_def)
  moreover have "t \<in> set (transactions l2)" using t(1) assms(6) by (auto simp: ledger_extends_def)
  ultimately show ?thesis
    using record_known [OF assms(5) _ t(2)] assms(3)
    by (auto simp: onTransactionRecorded_def RecordTransactionRequest_of_def)
qed

section \<open>The history\<close>

text \<open>A plan reads every row once; the rows of a history are then ordered by their keys, the newest first.\<close>

definition reads_all :: "query_plan \<Rightarrow> bool" where
  "reads_all plan \<longleftrightarrow> (\<forall>rows. mset (plan rows) = mset rows)"

definition newer :: "Transaction \<Rightarrow> Transaction \<Rightarrow> bool" where
  "newer a b \<longleftrightarrow> txn_occurred_at b < txn_occurred_at a
     \<or> txn_occurred_at b = txn_occurred_at a \<and> (txn_recorded_at b < txn_recorded_at a
         \<or> txn_recorded_at b = txn_recorded_at a \<and> txn_id b < txn_id a)"

lemma newest_key_newer: "newest_key a < newest_key b \<longleftrightarrow> newer a b"
  by (auto simp: newest_key_def newer_def less_prod_def)

lemma newest_key_inj:
  assumes "distinct (map txn_id rows)"
  shows "inj_on newest_key (set rows)"
  using assms by (auto simp: inj_on_def newest_key_def distinct_map)

lemma newest_first_mset [simp]: "reads_all plan \<Longrightarrow> mset (newest_first plan rows) = mset rows"
  by (simp add: newest_first_def reads_all_def)

lemma newest_first_newer:
  assumes "reads_all plan" and "distinct (map txn_id rows)"
  shows "sorted_wrt newer (newest_first plan rows)"
proof -
  have "mset (map txn_id (newest_first plan rows)) = mset (map txn_id rows)" using assms(1) by simp
  then have "distinct (map txn_id (newest_first plan rows))" using assms(2) by (metis mset_eq_imp_distinct_iff)
  moreover have "List.sorted (map newest_key (newest_first plan rows))" by (simp add: newest_first_def)
  ultimately have "sorted_wrt (<) (map newest_key (newest_first plan rows))"
    using newest_key_inj by (auto simp: strict_sorted_iff distinct_map)
  then show ?thesis by (simp add: sorted_wrt_map newest_key_newer)
qed

text \<open>The keys decide the order completely: no plan shows through.\<close>

lemma newest_first_plan:
  assumes "reads_all plan" and "reads_all plan'" and "distinct (map txn_id rows)"
  shows "newest_first plan rows = newest_first plan' rows"
  unfolding newest_first_def
proof (rule sort_key_inj_key_eq)
  show same: "mset (plan rows) = mset (sort_key newest_key (plan' rows))" using assms(1,2) by (simp add: reads_all_def)
  have "set (plan rows) = set rows" using assms(1) unfolding reads_all_def by (metis set_mset_mset)
  then show "inj_on newest_key (set (plan rows))" using newest_key_inj [OF assms(3)] by simp
qed simp

definition history_page :: "query_plan \<Rightarrow> ListTransactionsQuery \<Rightarrow> ledger_db \<Rightarrow> TransactionResponse list" where
  "history_page plan q l = (case fst (history plan q l) of Inr found \<Rightarrow> items found | Inl _ \<Rightarrow> [])"

lemma history_page_rows:
  assumes "\<not> (falsy_text (list_user q) \<and> falsy_text (list_wallet q))"
    and "list_pagination q = \<lparr>query_page = Some p, query_per_page = Some n\<rparr>"
  shows "history_page plan q l = map TransactionResponse_from (fst (getManyAndCount ((p - 1) * n) n
    (newest_first plan (filter (selected \<lparr>by_user = list_user q, by_wallet = list_wallet q, by_type = list_type q\<rparr>) (transactions l)))))"
  using assms by (auto simp: history_page_def history_def findPage_def andThen_def reads_def throw_def
      ret_def resolvePagination_def PaginatedData_of_def Let_def getManyAndCount_def)

text \<open>
  Property C35. The pages of a history tile it: read on an unchanged ledger, for a user or a wallet or both,
  the first k pages are the first k * n of the movements that match the filter, each once and none left
  out, newest first, although every page is another query and the database may come upon the rows in
  another order each time. It rests on the last keys of the order, which tell rows of one instant apart.
\<close>

theorem history_pages_tile:
  assumes "ledger_inv l" and "\<not> (falsy_text (list_user q) \<and> falsy_text (list_wallet q))" and "1 \<le> n"
    and "\<And>p. reads_all (plan p)"
    and "\<And>p. asked p = q\<lparr>list_pagination := \<lparr>query_page = Some p, query_per_page = Some n\<rparr>\<rparr>"
  shows "\<exists>rows. concat (map (\<lambda>p. history_page (plan p) (asked p) l) [1..<Suc k]) = map TransactionResponse_from (take (k * n) rows)
    \<and> mset rows = mset (filter (selected \<lparr>by_user = list_user q, by_wallet = list_wallet q, by_type = list_type q\<rparr>) (transactions l))
    \<and> sorted_wrt newer rows"
proof -
  let ?match = "filter (selected \<lparr>by_user = list_user q, by_wallet = list_wallet q, by_type = list_type q\<rparr>) (transactions l)"
  let ?rows = "newest_first (plan 0) ?match"
  have distinct: "distinct (map txn_id ?match)"
    using assms(1) by (simp add: ledger_inv_def distinct_map_filter)
  have "history_page (plan p) (asked p) l = map TransactionResponse_from (fst (getManyAndCount ((p - 1) * n) n ?rows))" for p
    using history_page_rows [where q = "asked p" and p = p and n = n] assms(2,5)
      newest_first_plan [OF assms(4) assms(4) distinct, of p 0] by simp
  then have "concat (map (\<lambda>p. history_page (plan p) (asked p) l) [1..<Suc k])
      = map TransactionResponse_from (concat (map (\<lambda>p. fst (getManyAndCount ((p - 1) * n) n ?rows)) [1..<Suc k]))"
    by (simp add: map_concat comp_def)
  then show ?thesis
    using pages_tile [of n ?rows k] assms(3,4) newest_first_newer [OF assms(4) distinct] by (intro exI [of _ ?rows]) simp
qed

section \<open>What the payments service sends\<close>


lemma property_of_movement:
  "property_of ''transaction_id'' (msg_payload (movement_message p corr now m)) = String (lm_transactionId m)"
  "property_of ''payment_reference'' (msg_payload (movement_message p corr now m)) = String (value (lm_paymentReference m))"
  "property_of ''type'' (msg_payload (movement_message p corr now m)) = String (lm_type m)"
  "property_of ''wallet_reference'' (msg_payload (movement_message p corr now m)) = String (value (lm_wallet m))"
  "property_of ''user_reference'' (msg_payload (movement_message p corr now m)) = user_reference_of p"
  "property_of ''amount'' (msg_payload (movement_message p corr now m)) = Number (num (amount (money p)))"
  "property_of ''currency'' (msg_payload (movement_message p corr now m)) = String (currency_text (currency (money p)))"
  "property_of ''description'' (msg_payload (movement_message p corr now m)) = String (description p)"
  "property_of ''status'' (msg_payload (movement_message p corr now m)) = String ''Approved''"
  "property_of ''occurred_at'' (msg_payload (movement_message p corr now m)) = Iso (lm_occurredAt m)"
  by (simp_all add: movement_message_def property_of_def)









text \<open>
  Property C38. A movement whose user reference the caller's metadata spoiled never reaches the ledger:
  the payment settles, the consumer answers with an acknowledgement, and nothing is written. No other
  part of the system reads that metadata, so nothing refuses it earlier.
\<close>

theorem spoiled_user_reference_loses_the_movement:
  fixes moved :: LedgerMovement
  assumes "metadata p = Some m" and "property_of ''user_reference'' m = String u" and "\<not> referencePattern ''usr'' u"
  shows "onTransactionRecorded iso8601 other (msg_payload (movement_message p corr now moved)) l = (Ack, l)"
proof -
  have "user_reference_of p = String u" using assms(1,2) by (simp add: user_reference_of_def)
  then have "event_faults iso8601 (msg_payload (movement_message p corr now moved)) \<noteq> []"
    using assms(3) by (simp add: event_faults_def RecordTransaction_rules_def property_of_movement)
  then show ?thesis by (simp add: onTransactionRecorded_def)
qed

end
