(* ===== verification/Presentation.thy ===== *)
theory Presentation
  imports Handlers "HOL-Library.List_Lexorder" "HOL-Library.Char_ord"
begin

text \<open>
  The edge of the payments service: the read side (\<open>payment_read_model\<close>, its repository and the query
  handlers), the request and response shapes with their mapper, \<open>PaymentsController\<close>, and the two
  exception filters that turn every failure into the API envelope.
\<close>

section \<open>The read side\<close>

record PaymentView =
  pv_reference :: string
  pv_transactionId :: string
  pv_amount :: int
  pv_currency :: Currency
  pv_description :: string
  pv_sourceWallet :: string
  pv_destinationWallet :: string
  pv_status :: PaymentStatus
  pv_failureReason :: "FailureReason option"
  pv_debitTransactionReference :: "string option"
  pv_creditTransactionReference :: "string option"
  pv_refundTransactionReference :: "string option"
  pv_createdAt :: nat
  pv_completedAt :: "nat option"

text \<open>
  The SQL view \<open>payment_read_model\<close>: fourteen columns of \<open>payments\<close> under their names, computed at each
  query. \<open>Number(row.amount)\<close> of the decimal text of a \<open>bigint\<close> rounds as \<open>to_double\<close> does.
\<close>

record PaymentReadModel =
  rm_reference :: string
  rm_transaction_id :: string
  rm_amount :: int
  rm_currency :: Currency
  rm_description :: string
  rm_source_wallet_reference :: string
  rm_destination_wallet_reference :: string
  rm_status :: PaymentStatus
  rm_failure_reason :: "FailureReason option"
  rm_debit_transaction_reference :: "string option"
  rm_credit_transaction_reference :: "string option"
  rm_refund_transaction_reference :: "string option"
  rm_created_at :: nat
  rm_completed_at :: "nat option"

definition payment_read_model :: "PaymentRow \<Rightarrow> PaymentReadModel" where
  "payment_read_model p =
     \<lparr>rm_reference = row_reference p, rm_transaction_id = row_transaction_id p, rm_amount = row_amount p,
      rm_currency = row_currency p, rm_description = row_description p,
      rm_source_wallet_reference = source_wallet_reference p,
      rm_destination_wallet_reference = destination_wallet_reference p, rm_status = row_status p,
      rm_failure_reason = failure_reason p,
      rm_debit_transaction_reference = debit_transaction_reference p,
      rm_credit_transaction_reference = credit_transaction_reference p,
      rm_refund_transaction_reference = refund_transaction_reference p,
      rm_created_at = row_created_at p, rm_completed_at = completed_at p\<rparr>"

definition read_model :: "payments_db \<Rightarrow> PaymentReadModel list" where
  "read_model d = map payment_read_model (payments d)"

definition toView :: "PaymentReadModel \<Rightarrow> PaymentView" where
  "toView row =
     \<lparr>pv_reference = rm_reference row, pv_transactionId = rm_transaction_id row,
      pv_amount = to_double (rm_amount row), pv_currency = rm_currency row,
      pv_description = rm_description row, pv_sourceWallet = rm_source_wallet_reference row,
      pv_destinationWallet = rm_destination_wallet_reference row, pv_status = rm_status row,
      pv_failureReason = rm_failure_reason row,
      pv_debitTransactionReference = rm_debit_transaction_reference row,
      pv_creditTransactionReference = rm_credit_transaction_reference row,
      pv_refundTransactionReference = rm_refund_transaction_reference row,
      pv_createdAt = rm_created_at row, pv_completedAt = rm_completed_at row\<rparr>"

definition read_findByReference :: "string \<Rightarrow> ('r, PaymentView option) work" where
  "read_findByReference r = query (\<lambda>d. map_option toView (lookupBy rm_reference r (read_model d)))"

lemma lookup_read_model:
  "lookupBy rm_reference r (read_model d) = map_option payment_read_model (lookupBy row_reference r (payments d))"
proof -
  have "lookupBy rm_reference r (map payment_read_model rows) = map_option payment_read_model (lookupBy row_reference r rows)"
    for rows by (induction rows) (simp_all add: payment_read_model_def)
  then show ?thesis by (simp add: read_model_def)
qed

record PaymentViewFilter =
  vf_status :: "PaymentStatus option"
  vf_sourceWallet :: "string option"
  vf_page :: nat
  vf_perPage :: nat

definition view_selected :: "PaymentViewFilter \<Rightarrow> PaymentReadModel \<Rightarrow> bool" where
  "view_selected f row \<longleftrightarrow> (case vf_status f of None \<Rightarrow> True | Some st \<Rightarrow> rm_status row = st)
     \<and> (case vf_sourceWallet f of None \<Rightarrow> True | Some w \<Rightarrow> w = [] \<or> rm_source_wallet_reference row = w)"

text \<open>
  \<open>ORDER BY created_at DESC, reference DESC\<close>. The references are lower-case letters and digits after a
  common prefix, which the database compares character by character.
\<close>

definition newest_payments :: "PaymentReadModel list \<Rightarrow> PaymentReadModel list" where
  "newest_payments rows = sort_key (\<lambda>row. - int (rm_created_at row)) (rev (sort_key rm_reference rows))"

definition read_findPage :: "PaymentViewFilter \<Rightarrow> ('r, PaymentView list \<times> nat) work" where
  "read_findPage f = query (\<lambda>d.
     (case getManyAndCount ((vf_page f - 1) * vf_perPage f) (vf_perPage f)
             (newest_payments (filter (view_selected f) (read_model d))) of
        (rows, tot) \<Rightarrow> (map toView rows, tot)))"

text \<open>\<open>GetPaymentByReferenceHandler\<close> and \<open>ListPaymentsHandler\<close>\<close>

definition get_payment :: "string \<Rightarrow> ('r, PaymentView) work" where
  "get_payment r =
     andThen (read_findByReference r) (\<lambda>found. case found of
       None \<Rightarrow> throw (Domain (PaymentNotFoundError r))
     | Some v \<Rightarrow> ret v)"

definition list_payments :: "PaymentViewFilter \<Rightarrow> ('r, PaymentView list \<times> nat) work" where
  "list_payments f = read_findPage f"

section \<open>Requests and responses\<close>

record PaymentResponse =
  pr_reference :: string
  pr_transaction_id :: string
  pr_amount :: int
  pr_currency :: Currency
  pr_description :: string
  pr_source_wallet_reference :: string
  pr_destination_wallet_reference :: string
  pr_status :: PaymentStatus
  pr_failure_reason :: "FailureReason option"
  pr_debit_transaction_reference :: "string option"
  pr_credit_transaction_reference :: "string option"
  pr_created_at :: js_value
  pr_completed_at :: js_value

definition toResponse :: "PaymentView \<Rightarrow> PaymentResponse" where
  "toResponse v =
     \<lparr>pr_reference = pv_reference v, pr_transaction_id = pv_transactionId v, pr_amount = pv_amount v,
      pr_currency = pv_currency v, pr_description = pv_description v,
      pr_source_wallet_reference = pv_sourceWallet v,
      pr_destination_wallet_reference = pv_destinationWallet v, pr_status = pv_status v,
      pr_failure_reason = pv_failureReason v,
      pr_debit_transaction_reference = pv_debitTransactionReference v,
      pr_credit_transaction_reference = pv_creditTransactionReference v,
      pr_created_at = Iso (pv_createdAt v),
      pr_completed_at = (case pv_completedAt v of None \<Rightarrow> Null | Some t \<Rightarrow> Iso t)\<rparr>"

fun isLang :: "string \<Rightarrow> bool" where
  "isLang s = (s = ''fr'' \<or> s = ''en'')"

fun isObject :: "js_value \<Rightarrow> bool" where
  "isObject (Object _) = True"
| "isObject _ = False"

definition InitiatePayment_rules :: "field_rule list" where
  "InitiatePayment_rules =
     [(''transaction_id'', text_rule isTransactionId),
      (''source_wallet_reference'', text_rule (referencePattern ''wlt'')),
      (''destination_wallet_reference'', text_rule (referencePattern ''wlt'')),
      (''amount'', isValidAmount),
      (''currency'', text_rule isCurrency),
      (''description'', text_rule isSafeDescription),
      (''lang'', text_rule isLang),
      (''metadata'', optional_rule isObject)]"

fun number_of :: "js_value \<Rightarrow> js_number" where
  "number_of (Number n) = n"
| "number_of _ = NaN"

fun metadata_of :: "js_value \<Rightarrow> metadata option" where
  "metadata_of (Object m) = Some m"
| "metadata_of _ = None"

definition toCommand :: "json_object \<Rightarrow> InitiatePaymentCommand" where
  "toCommand body =
     \<lparr>cmd_transactionId = text_of (property_of ''transaction_id'' body),
      cmd_sourceWallet = text_of (property_of ''source_wallet_reference'' body),
      cmd_destinationWallet = text_of (property_of ''destination_wallet_reference'' body),
      cmd_amount = number_of (property_of ''amount'' body), cmd_currency = XOF,
      cmd_description = text_of (property_of ''description'' body),
      cmd_lang = text_of (property_of ''lang'' body),
      cmd_metadata = metadata_of (property_of ''metadata'' body)\<rparr>"

section \<open>The exception filters\<close>

datatype payment_payload =
    Shown PaymentResponse
  | Listed "PaymentResponse PaginatedData"
  | FaultyFields "string list"
  | ErrorDetails json_object

type_synonym http_reply = "nat \<times> payment_payload ApiResponse"

record Mapping =
  mapped_status :: nat
  mapped_code :: string
  mapped_message :: ResponseMessage

definition mapping :: "nat \<Rightarrow> ResponseMessage \<Rightarrow> Mapping" where
  "mapping st m = \<lparr>mapped_status = st, mapped_code = ResponseCode m, mapped_message = m\<rparr>"

definition MAPPINGS :: "string \<Rightarrow> Mapping option" where
  "MAPPINGS = map_of
     [(''INSUFFICIENT_BALANCE'', mapping 422 INSUFFICIENT_BALANCE),
      (''WALLET_NOT_FOUND'', mapping 404 WALLET_NOT_FOUND),
      (''WALLET_FROZEN'', mapping 422 WALLET_FROZEN),
      (''CURRENCY_MISMATCH'', mapping 422 CURRENCY_MISMATCH),
      (''SAME_WALLET'', mapping 422 VALIDATION_FAILED),
      (''PAYMENT_NOT_FOUND'', mapping 404 TRANSACTION_NOT_FOUND),
      (''IDEMPOTENCY_CONFLICT'', mapping 409 IDEMPOTENCY_CONFLICT),
      (''REQUEST_IN_PROGRESS'', mapping 409 DUPLICATE_TRANSACTION),
      (''ACCOUNTS_UNAVAILABLE'', mapping 503 UPSTREAM_UNAVAILABLE),
      (''PAYMENT_CONFLICT'', mapping 409 DUPLICATE_TRANSACTION),
      (''INVALID_TRANSITION'', mapping 409 VALIDATION_FAILED)]"

definition FALLBACK :: Mapping where
  "FALLBACK = mapping 500 INTERNAL_ERROR"

definition DomainErrorFilter :: "DomainError \<Rightarrow> http_reply" where
  "DomainErrorFilter e =
     (let m = (case MAPPINGS (code e) of Some m \<Rightarrow> m | None \<Rightarrow> FALLBACK)
      in (mapped_status m, \<lparr>env_code = mapped_code m, env_message = mapped_message m, env_data = Some (ErrorDetails (details e))\<rparr>))"

text \<open>
  What leaves the service for the outcome of a handler: \<open>DomainErrorFilter\<close> catches domain errors,
  \<open>AllExceptionsFilter\<close> the rest, and a dead process answers nothing.
\<close>

fun reply :: "nat \<Rightarrow> exn + payment_payload \<Rightarrow> http_reply option" where
  "reply st (Inr x) = Some (st, ResponseInterceptor st (Shared.Plain (Some x)))"
| "reply st (Inl e) = (case e of
     ProcessDied \<Rightarrow> None
   | Domain d \<Rightarrow> Some (DomainErrorFilter d)
   | _ \<Rightarrow> Some (AllExceptionsFilter (Unknown (exn_message e))))"

definition invalid :: "string list \<Rightarrow> http_reply option" where
  "invalid faults = Some (AllExceptionsFilter (App (ValidationFailedException (Some (FaultyFields faults)))))"

section \<open>\<open>PaymentsController\<close>\<close>

definition byReference :: "string \<Rightarrow> ('r, payment_payload) work" where
  "byReference r = andThen (get_payment r) (\<lambda>v. ret (Shown (toResponse v)))"

definition controller_initiate :: "'r AccountsPort \<Rightarrow> json_text \<Rightarrow> InitiatePaymentCommand \<Rightarrow> ('r, payment_payload) work" where
  "controller_initiate port j c =
     andThen (initiate_execute port j c) (\<lambda>outcome. case outcome of
       None \<Rightarrow> throw (Errors.Plain ''TypeError'')
     | Some r \<Rightarrow> byReference r)"

definition post_payment :: "'r AccountsPort \<Rightarrow> json_text \<Rightarrow> json_object \<Rightarrow> 'r world \<Rightarrow> http_reply option \<times> 'r world" where
  "post_payment port j body s =
     (case faulty_fields InitiatePayment_rules body of
        [] \<Rightarrow> (case controller_initiate port j (toCommand body) s of (x, t) \<Rightarrow> (reply 201 x, t))
      | faults \<Rightarrow> (invalid faults, s))"

definition get_one_payment :: "string \<Rightarrow> 'r world \<Rightarrow> http_reply option \<times> 'r world" where
  "get_one_payment path s =
     (case ReferencePipe PAYMENT path of
        Inl faults \<Rightarrow> (invalid faults, s)
      | Inr r \<Rightarrow> (case byReference r s of (x, t) \<Rightarrow> (reply 200 x, t)))"

record ListPaymentsRequestQuery =
  lp_status :: "PaymentStatus option"
  lp_source_wallet_reference :: "string option"
  lp_pagination :: PaginationQuery

definition valid_list_query :: "ListPaymentsRequestQuery \<Rightarrow> bool" where
  "valid_list_query q \<longleftrightarrow> valid_pagination (lp_pagination q)
     \<and> (case lp_source_wallet_reference q of None \<Rightarrow> True | Some w \<Rightarrow> referencePattern ''wlt'' w)"

definition get_payments :: "ListPaymentsRequestQuery \<Rightarrow> ('r, payment_payload) work" where
  "get_payments q =
     (let pg = resolvePagination (lp_pagination q) in
      andThen (list_payments \<lparr>vf_status = lp_status q, vf_sourceWallet = lp_source_wallet_reference q,
                 vf_page = page pg, vf_perPage = perPage pg\<rparr>) (\<lambda>(views, tot).
      ret (Listed (PaginatedData_of (map toResponse views) (page pg) (perPage pg) tot))))"

end
