(* ===== verification/Queries.thy ===== *)
theory Queries
  imports Ledger_Properties Presentation
begin

text \<open>
  The two listings from their query strings: \<open>GET /transactions\<close> and \<open>GET /payments\<close>, with the rules of
  \<open>PaginationQueryDto\<close>, \<open>ListTransactionsQuery\<close> and \<open>ListPaymentsRequestQuery\<close>. \<open>parse\<close> is JavaScript's
  \<open>Number\<close> on a text.
\<close>

section \<open>Query strings\<close>

text \<open>
  What the framework makes of a query string: a parameter given once is a text, given several times an
  array of texts. \<open>@Type(() => Number)\<close> converts the paging parameters before they are checked.
\<close>

datatype parameter = Once string | Repeated "string list"

type_synonym query_string = "(string \<times> parameter) list"

definition is_paging :: "string \<Rightarrow> bool" where
  "is_paging name \<longleftrightarrow> name = ''page'' \<or> name = ''per_page''"

definition converted :: "(string \<Rightarrow> js_number) \<Rightarrow> string \<Rightarrow> string \<Rightarrow> js_value" where
  "converted parse name x = (if is_paging name then Number (parse x) else String x)"

fun parameter_value :: "(string \<Rightarrow> js_number) \<Rightarrow> string \<Rightarrow> parameter \<Rightarrow> js_value" where
  "parameter_value parse name (Once x) = converted parse name x"
| "parameter_value parse name (Repeated xs) = Array (map (converted parse name) xs)"

definition query_object :: "(string \<Rightarrow> js_number) \<Rightarrow> query_string \<Rightarrow> json_object" where
  "query_object parse q = map (\<lambda>(name, p). (name, parameter_value parse name p)) q"

lemma query_property:
  "property_of name (query_object parse q) =
    (case map_of q name of None \<Rightarrow> Undefined | Some p \<Rightarrow> parameter_value parse name p)"
proof -
  have "map_of (query_object parse q) name = map_option (parameter_value parse name) (map_of q name)"
    unfolding query_object_def by (induction q) auto
  then show ?thesis by (cases "map_of q name") (simp_all add: property_of_def)
qed

section \<open>\<open>PaginationQueryDto\<close>\<close>

fun int_within :: "nat \<Rightarrow> nat \<Rightarrow> js_value \<Rightarrow> bool" where
  "int_within lo hi (Number n) = (isInteger n \<and> int lo \<le> integerOf n \<and> integerOf n \<le> int hi)"
| "int_within lo hi _ = False"

definition PaginationQueryDto_rules :: "field_rule list" where
  "PaginationQueryDto_rules =
     [(''page'', optional_rule (int_within 1 MAX_PAGE)), (''per_page'', optional_rule (int_within 1 MAX_PER_PAGE))]"

fun optional_natural :: "js_value \<Rightarrow> nat option" where
  "optional_natural (Number n) = Some (nat (integerOf n))"
| "optional_natural _ = None"

definition PaginationQueryDto_of :: "json_object \<Rightarrow> PaginationQuery" where
  "PaginationQueryDto_of body =
     \<lparr>query_page = optional_natural (property_of ''page'' body),
      query_per_page = optional_natural (property_of ''per_page'' body)\<rparr>"

lemma int_within_natural:
  assumes "optional_rule (int_within lo hi) v"
  shows "case optional_natural v of None \<Rightarrow> True | Some n \<Rightarrow> lo \<le> n \<and> n \<le> hi"
  using assms by (cases v) (auto simp: optional_rule_def)

lemma accepted_pagination:
  assumes "faulty_fields rules body = []" and "set PaginationQueryDto_rules \<subseteq> set rules"
  shows "valid_pagination (PaginationQueryDto_of body)"
proof -
  have "optional_rule (int_within 1 MAX_PAGE) (property_of ''page'' body)"
    "optional_rule (int_within 1 MAX_PER_PAGE) (property_of ''per_page'' body)"
    using assms(2) by (simp_all add: PaginationQueryDto_rules_def faulty_fields_none [OF assms(1)])
  from this [THEN int_within_natural] show ?thesis
    by (simp add: valid_pagination_def PaginationQueryDto_of_def)
qed

section \<open>\<open>GET /transactions\<close>\<close>

definition ListTransactions_rules :: "field_rule list" where
  "ListTransactions_rules =
     [(''user_reference'', optional_rule (text_rule (referencePattern ''usr''))),
      (''wallet_reference'', optional_rule (text_rule (referencePattern ''wlt''))),
      (''type'', optional_rule (\<lambda>v. transaction_type_of v \<noteq> None))] @ PaginationQueryDto_rules"

definition ListTransactionsQuery_of :: "json_object \<Rightarrow> ListTransactionsQuery" where
  "ListTransactionsQuery_of body =
     \<lparr>list_user = optional_text_of (property_of ''user_reference'' body),
      list_wallet = optional_text_of (property_of ''wallet_reference'' body),
      list_type = transaction_type_of (property_of ''type'' body),
      list_pagination = PaginationQueryDto_of body\<rparr>"

definition get_transactions :: "query_plan \<Rightarrow> (string \<Rightarrow> js_number) \<Rightarrow> query_string
    \<Rightarrow> (nat \<times> TransactionResponse PaginatedData ApiResponse) ledger_prog" where
  "get_transactions plan parse q =
     (let body = query_object parse q in
      case faulty_fields ListTransactions_rules body of
        [] \<Rightarrow> andThen (history plan (ListTransactionsQuery_of body)) (\<lambda>found.
              ret (200, ResponseInterceptor 200 (Shared.Plain (Some found))))
      | faults \<Rightarrow> throw (Denied (ValidationFailedException (Some (Faults faults)))))"

section \<open>\<open>GET /payments\<close>\<close>

fun payment_status_of :: "js_value \<Rightarrow> PaymentStatus option" where
  "payment_status_of (String x) =
     find (\<lambda>st. status_text st = x) [Pending, Processing, Approved, Declined, CompensationPending, Compensated]"
| "payment_status_of _ = None"

definition ListPayments_rules :: "field_rule list" where
  "ListPayments_rules =
     [(''status'', optional_rule (\<lambda>v. payment_status_of v \<noteq> None)),
      (''source_wallet_reference'', optional_rule (text_rule (referencePattern ''wlt'')))] @ PaginationQueryDto_rules"

definition ListPaymentsRequestQuery_of :: "json_object \<Rightarrow> ListPaymentsRequestQuery" where
  "ListPaymentsRequestQuery_of body =
     \<lparr>lp_status = payment_status_of (property_of ''status'' body),
      lp_source_wallet_reference = optional_text_of (property_of ''source_wallet_reference'' body),
      lp_pagination = PaginationQueryDto_of body\<rparr>"

definition list_request :: "(string \<Rightarrow> js_number) \<Rightarrow> query_string \<Rightarrow> 'r world \<Rightarrow> http_reply option \<times> 'r world" where
  "list_request parse q s =
     (let body = query_object parse q in
      case faulty_fields ListPayments_rules body of
        [] \<Rightarrow> (case get_payments (ListPaymentsRequestQuery_of body) s of (x, t) \<Rightarrow> (reply 200 x, t))
      | faults \<Rightarrow> (invalid faults, s))"

section \<open>What a listing shows\<close>

text \<open>A parameter of the query string, when it is there, is the text of the row.\<close>

definition asked :: "query_string \<Rightarrow> string \<Rightarrow> string \<Rightarrow> bool" where
  "asked q name actual \<longleftrightarrow> map_of q name \<in> {None, Some (Once actual)}"

lemma text_parameter:
  assumes "optional_rule (text_rule ok) (property_of name (query_object parse q))" and "\<not> is_paging name" and "\<not> ok []"
  shows "asks (optional_text_of (property_of name (query_object parse q))) actual \<longleftrightarrow> asked q name actual"
    and "falsy_text (optional_text_of (property_of name (query_object parse q))) \<longleftrightarrow> map_of q name = None"
proof -
  consider "map_of q name = None" | x where "map_of q name = Some (Once x)" "x \<noteq> []"
    using assms unfolding query_property
    by (cases "map_of q name"; cases "the (map_of q name)") (auto simp: optional_rule_def converted_def)
  then show "asks (optional_text_of (property_of name (query_object parse q))) actual \<longleftrightarrow> asked q name actual"
    "falsy_text (optional_text_of (property_of name (query_object parse q))) \<longleftrightarrow> map_of q name = None"
    using assms(2) unfolding query_property
    by (cases; auto simp: asked_def asks_def falsy_text_def converted_def)+
qed

lemma enum_parameter:
  assumes "optional_rule (\<lambda>v. of_value v \<noteq> None) (property_of name (query_object parse q))" and "\<not> is_paging name"
    and "\<And>x c. of_value (String x) = Some c \<longleftrightarrow> x = text c" and "\<And>v c. of_value v = Some c \<Longrightarrow> \<exists>x. v = String x"
  shows "(case of_value (property_of name (query_object parse q)) of None \<Rightarrow> True | Some c \<Rightarrow> actual = c) \<longleftrightarrow> asked q name (text actual)"
proof (cases "map_of q name")
  case None
  then have "of_value (property_of name (query_object parse q)) = None"
    using assms(4) unfolding query_property by (cases "of_value Undefined") auto
  with None show ?thesis by (simp add: asked_def)
next
  case (Some p)
  then obtain c where c: "of_value (parameter_value parse name p) = Some c"
    using assms(1) unfolding query_property by (cases p) (auto simp: optional_rule_def converted_def assms(2))
  then obtain x where "p = Once x" using assms(2,4) by (cases p) (auto dest!: assms(4))
  with c assms(2) have "of_value (String x) = Some c" by (simp add: converted_def)
  moreover have "x = text actual \<longleftrightarrow> actual = c" using calculation assms(3) by (metis option.inject)
  ultimately show ?thesis unfolding query_property using Some assms(2) \<open>p = Once x\<close> by (simp add: asked_def converted_def)
qed

lemma page_of_all: "mset (take n (drop k rows)) \<subseteq># mset rows"
  by (metis append_take_drop_id mset_append mset_subset_eq_add_left mset_subset_eq_add_right subset_mset.order_trans)

lemma no_empty_reference: "\<not> referencePattern p []"
  by (simp add: referencePattern_iff)

lemma transaction_type_text: "transaction_type_of (String x) = Some c \<longleftrightarrow> x = type_text c"
  by (cases c) auto

lemma payment_status_text: "payment_status_of (String x) = Some c \<longleftrightarrow> x = status_text c"
  by (cases c) auto

text \<open>The number a paging parameter asks for.\<close>

definition asked_number :: "(string \<Rightarrow> js_number) \<Rightarrow> query_string \<Rightarrow> string \<Rightarrow> nat \<Rightarrow> nat" where
  "asked_number parse q name preset = (case map_of q name of Some (Once x) \<Rightarrow> nat (integerOf (parse x)) | _ \<Rightarrow> preset)"

lemma asked_pagination:
  "page (resolvePagination (PaginationQueryDto_of (query_object parse q))) = asked_number parse q ''page'' 1"
  "perPage (resolvePagination (PaginationQueryDto_of (query_object parse q))) = asked_number parse q ''per_page'' 20"
  unfolding resolvePagination_def PaginationQueryDto_of_def query_property asked_number_def Let_def
  by (auto simp: converted_def is_paging_def DEFAULT_PER_PAGE_def split: option.split parameter.split)

definition query_selects :: "query_string \<Rightarrow> Transaction \<Rightarrow> bool" where
  "query_selects q t \<longleftrightarrow> asked q ''user_reference'' (txn_user_reference t)
     \<and> asked q ''wallet_reference'' (txn_wallet_reference t) \<and> asked q ''type'' (type_text (txn_type t))"

definition view_query_selects :: "query_string \<Rightarrow> PaymentRow \<Rightarrow> bool" where
  "view_query_selects q row \<longleftrightarrow> asked q ''status'' (status_text (row_status row))
     \<and> asked q ''source_wallet_reference'' (source_wallet_reference row)"

lemma accepted_history:
  assumes "faulty_fields ListTransactions_rules (query_object parse q) = []"
  shows "selected \<lparr>by_user = list_user (ListTransactionsQuery_of (query_object parse q)),
      by_wallet = list_wallet (ListTransactionsQuery_of (query_object parse q)),
      by_type = list_type (ListTransactionsQuery_of (query_object parse q))\<rparr> = query_selects q"
    and "falsy_text (list_user (ListTransactionsQuery_of (query_object parse q))) \<longleftrightarrow> map_of q ''user_reference'' = None"
    and "falsy_text (list_wallet (ListTransactionsQuery_of (query_object parse q))) \<longleftrightarrow> map_of q ''wallet_reference'' = None"
    and "valid_pagination (list_pagination (ListTransactionsQuery_of (query_object parse q)))"
proof -
  note field = faulty_fields_none [OF assms]
  have user: "optional_rule (text_rule (referencePattern ''usr'')) (property_of ''user_reference'' (query_object parse q))"
    by (rule field) (simp add: ListTransactions_rules_def)
  have wallet: "optional_rule (text_rule (referencePattern ''wlt'')) (property_of ''wallet_reference'' (query_object parse q))"
    by (rule field) (simp add: ListTransactions_rules_def)
  have type: "optional_rule (\<lambda>v. transaction_type_of v \<noteq> None) (property_of ''type'' (query_object parse q))"
    by (rule field) (simp add: ListTransactions_rules_def)
  have strings: "\<exists>x. v = String x" if "transaction_type_of v = Some c" for v c using that by (cases v) simp_all
  note user = text_parameter [OF user _ no_empty_reference, simplified is_paging_def, simplified]
  note wallet = text_parameter [OF wallet _ no_empty_reference, simplified is_paging_def, simplified]
  note type = enum_parameter [OF type _ transaction_type_text strings, simplified is_paging_def, simplified]
  show "selected \<lparr>by_user = list_user (ListTransactionsQuery_of (query_object parse q)),
      by_wallet = list_wallet (ListTransactionsQuery_of (query_object parse q)),
      by_type = list_type (ListTransactionsQuery_of (query_object parse q))\<rparr> = query_selects q"
    using user(1) wallet(1) type by (auto simp: fun_eq_iff selected_def query_selects_def ListTransactionsQuery_of_def)
  show "falsy_text (list_user (ListTransactionsQuery_of (query_object parse q))) \<longleftrightarrow> map_of q ''user_reference'' = None"
    "falsy_text (list_wallet (ListTransactionsQuery_of (query_object parse q))) \<longleftrightarrow> map_of q ''wallet_reference'' = None"
    using user(2) wallet(2) by (simp_all add: ListTransactionsQuery_of_def)
  show "valid_pagination (list_pagination (ListTransactionsQuery_of (query_object parse q)))"
    unfolding ListTransactionsQuery_of_def by (simp, rule accepted_pagination [OF assms]) (auto simp: ListTransactions_rules_def)
qed

lemma accepted_list:
  assumes "faulty_fields ListPayments_rules (query_object parse q) = []"
  shows "view_selected \<lparr>vf_status = lp_status (ListPaymentsRequestQuery_of (query_object parse q)),
      vf_sourceWallet = lp_source_wallet_reference (ListPaymentsRequestQuery_of (query_object parse q)),
      vf_page = p, vf_perPage = n\<rparr> (payment_read_model row) = view_query_selects q row"
    and "valid_pagination (lp_pagination (ListPaymentsRequestQuery_of (query_object parse q)))"
proof -
  note field = faulty_fields_none [OF assms]
  have source: "optional_rule (text_rule (referencePattern ''wlt'')) (property_of ''source_wallet_reference'' (query_object parse q))"
    by (rule field) (simp add: ListPayments_rules_def)
  have status: "optional_rule (\<lambda>v. payment_status_of v \<noteq> None) (property_of ''status'' (query_object parse q))"
    by (rule field) (simp add: ListPayments_rules_def)
  have strings: "\<exists>x. v = String x" if "payment_status_of v = Some c" for v c using that by (cases v) simp_all
  note source = text_parameter(1) [OF source _ no_empty_reference, simplified is_paging_def, simplified]
  note status = enum_parameter [OF status _ payment_status_text strings, simplified is_paging_def, simplified]
  have "(case w of None \<Rightarrow> True | Some w' \<Rightarrow> w' = [] \<or> actual = w') \<longleftrightarrow> asks w actual" for w actual
    by (auto simp: asks_def split: option.splits)
  then show "view_selected \<lparr>vf_status = lp_status (ListPaymentsRequestQuery_of (query_object parse q)),
      vf_sourceWallet = lp_source_wallet_reference (ListPaymentsRequestQuery_of (query_object parse q)),
      vf_page = p, vf_perPage = n\<rparr> (payment_read_model row) = view_query_selects q row"
    using source status by (simp add: view_selected_def view_query_selects_def ListPaymentsRequestQuery_of_def payment_read_model_def)
  show "valid_pagination (lp_pagination (ListPaymentsRequestQuery_of (query_object parse q)))"
    unfolding ListPaymentsRequestQuery_of_def by (simp, rule accepted_pagination [OF assms]) (auto simp: ListPayments_rules_def)
qed

text \<open>
  Property C34. A listing of the ledger is scoped, bounded and complete, from the text of the query string to
  the rows: \<open>GET /transactions\<close> answers either 200 with exactly the page asked for, of at most a hundred
  rows, of the movements whose columns are the parameters of the query, newest first, with their total
  and whether more follow; or a refusal that names the faulty parameters or the missing scope. Without
  a user and a wallet it never answers rows. It changes nothing.
\<close>

theorem history_is_scoped_and_bounded:
  assumes "ledger_inv l" and "reads_all plan"
  shows "case get_transactions plan parse q l of
     (Inr (st, envelope), l') \<Rightarrow> l' = l \<and> st = 200
       \<and> \<not> (map_of q ''user_reference'' = None \<and> map_of q ''wallet_reference'' = None)
       \<and> (\<exists>rows number size. mset rows = mset (filter (query_selects q) (transactions l)) \<and> sorted_wrt newer rows
            \<and> number = asked_number parse q ''page'' 1 \<and> size = asked_number parse q ''per_page'' 20
            \<and> 1 \<le> number \<and> 1 \<le> size \<and> size \<le> 100
            \<and> env_data envelope = Some \<lparr>items = map TransactionResponse_from (take size (drop ((number - 1) * size) rows)),
                page_number = number, per_page = size, total = length rows, has_next = (number * size < length rows)\<rparr>)
   | (Inl e, l') \<Rightarrow> l' = l
       \<and> (e = Denied UnscopedHistoryException \<and> map_of q ''user_reference'' = None \<and> map_of q ''wallet_reference'' = None
          \<or> (\<exists>f fs. faulty_fields ListTransactions_rules (query_object parse q) = f # fs
               \<and> e = Denied (ValidationFailedException (Some (Faults (f # fs))))))"
proof (cases "faulty_fields ListTransactions_rules (query_object parse q)")
  case Nil
  let ?asked = "ListTransactionsQuery_of (query_object parse q)"
  let ?pg = "resolvePagination (list_pagination ?asked)"
  let ?all = "newest_first plan (filter (query_selects q) (transactions l))"
  note accepted = accepted_history [OF Nil]
  have numbers: "page ?pg = asked_number parse q ''page'' 1" "perPage ?pg = asked_number parse q ''per_page'' 20"
    "skip ?pg = (page ?pg - 1) * perPage ?pg"
    using asked_pagination [of parse q] by (simp_all add: ListTransactionsQuery_of_def resolvePagination_def Let_def)
  have answer: "get_transactions plan parse q l =
      (if map_of q ''user_reference'' = None \<and> map_of q ''wallet_reference'' = None then (Inl (Denied UnscopedHistoryException), l)
       else (Inr (200, ResponseInterceptor 200 (Shared.Plain (Some
              (PaginatedData_of (map TransactionResponse_from (take (perPage ?pg) (drop (skip ?pg) ?all)))
                 (page ?pg) (perPage ?pg) (length ?all))))), l))"
    using Nil accepted by (simp add: get_transactions_def history_def andThen_def throw_def findPage_def reads_def ret_def Let_def
        getManyAndCount_def)
  have "sorted_wrt newer ?all"
    using assms by (intro newest_first_newer) (simp_all add: ledger_inv_def distinct_map_filter)
  moreover have "mset ?all = mset (filter (query_selects q) (transactions l))" using assms(2) by simp
  ultimately show ?thesis
    unfolding answer numbers(3) using resolvePagination_bounds(1-3) [OF accepted(4)] unfolding numbers(1,2)
    by (auto simp: PaginatedData_of_def ResponseInterceptor_def ApiResponse_ok_def)
qed (simp add: get_transactions_def throw_def Let_def)

text \<open>
  The listing of payments: whatever the database does it is answered, either 400 with the faulty parameters, or
  500, or 200 with at most a hundred payments that have the status and the source wallet of the
  query; it changes no table and makes no call.
\<close>

theorem payment_listing_is_bounded:
  "\<exists>st envelope t. list_request parse q s = (Some (st, envelope), t) \<and> db t = db s \<and> remote t = remote s
     \<and> (st = 400 \<and> env_data envelope = Some (FaultyFields (faulty_fields ListPayments_rules (query_object parse q)))
        \<or> st = 500 \<and> env_data envelope = None
        \<or> st = 200 \<and> (\<exists>found. env_data envelope = Some (Listed found) \<and> length (items found) \<le> 100
             \<and> mset (items found) \<subseteq># image_mset (toResponse \<circ> toView \<circ> payment_read_model)
                 (mset (filter (view_query_selects q) (payments (db s))))))"
proof (cases "faulty_fields ListPayments_rules (query_object parse q)")
  case Nil
  let ?asked = "ListPaymentsRequestQuery_of (query_object parse q)"
  let ?pg = "resolvePagination (lp_pagination ?asked)"
  let ?f = "\<lparr>vf_status = lp_status ?asked, vf_sourceWallet = lp_source_wallet_reference ?asked, vf_page = page ?pg, vf_perPage = perPage ?pg\<rparr>"
  let ?all = "newest_payments (filter (view_selected ?f) (read_model (db s)))"
  let ?page = "take (perPage ?pg) (drop ((page ?pg - 1) * perPage ?pg) ?all)"
  let ?found = "PaginatedData_of (map toResponse (map toView ?page)) (page ?pg) (perPage ?pg) (length ?all)"
  note accepted = accepted_list [OF Nil]
  have answer: "list_request parse q s = (reply 200 (if read_script s (db_reads s) then Inr (Listed ?found) else Inl (Plain ''connection failure'')),
      s\<lparr>db_reads := db_reads s + 1\<rparr>)"
    using Nil by (simp add: list_request_def get_payments_def list_payments_def read_findPage_def query_def andThen_def ret_def Let_def
        getManyAndCount_def)
  have "mset (filter (view_selected ?f) (read_model (db s)))
      = image_mset payment_read_model (mset (filter (view_query_selects q) (payments (db s))))"
    using accepted(1) by (simp add: read_model_def filter_map comp_def)
  then have "mset ?page \<subseteq># image_mset payment_read_model (mset (filter (view_query_selects q) (payments (db s))))"
    using page_of_all [of "perPage ?pg" "(page ?pg - 1) * perPage ?pg" ?all] by (simp add: newest_payments_def)
  then have "mset (items ?found) \<subseteq># image_mset (toResponse \<circ> toView \<circ> payment_read_model)
      (mset (filter (view_query_selects q) (payments (db s))))"
    by (auto simp: PaginatedData_of_def multiset.map_comp [symmetric] comp_assoc dest!: image_mset_subseteq_mono [of _ _ "toResponse \<circ> toView"])
  moreover have "length (items ?found) \<le> 100"
    using resolvePagination_bounds(3) [OF accepted(2)] by (simp add: PaginatedData_of_def)
  ultimately show ?thesis
    unfolding answer by (simp add: ResponseInterceptor_def ApiResponse_ok_def)
qed (simp add: list_request_def invalid_def Let_def ValidationFailedException_def AppException_of_def)

end
