(* ===== verification/Relay.thy ===== *)
theory Relay
  imports Persistence Accounts_Client
begin

text \<open>
  \<open>infrastructure/messaging/outbox.relay.ts\<close> and \<open>infrastructure/operations/payment-operations.ts\<close>: the
  publication of the outbox with at-least-once delivery, its retry schedule, and the operator's
  metrics and retry. The broker's answers, the other relays and the clock are inputs.
\<close>

section \<open>The world of a relay\<close>

text \<open>
  \<open>emit\<close> succeeds when the broker acknowledged; it fails with the message delivered (the answer was
  lost or late) or not; the process may die on either side of the delivery.
\<close>

datatype emit_fate = Acknowledged | Unconfirmed exn | Undelivered exn | DiesDelivered | DiesUndelivered

text \<open>
  \<open>busy n\<close> holds of the rows other relays have locked during the n-th transaction (\<open>SKIP LOCKED\<close>);
  \<open>broker\<close> is what the broker received, oldest first, and \<open>peers_sent n\<close> what the other relays delivered to
  it before that transaction.
\<close>

record relay =
  tables :: payments_db
  broker :: "(string \<times> json_object) list"
  emit_script :: "nat \<Rightarrow> emit_fate"
  emits :: nat
  peers_sent :: "nat \<Rightarrow> (string \<times> json_object) list"
  pass_script :: "nat \<Rightarrow> tx_event"
  busy :: "nat \<Rightarrow> OutboxRow \<Rightarrow> bool"
  passes :: nat
  relay_clock :: "nat \<Rightarrow> nat"
  relay_reads :: nat

type_synonym 'a relay_prog = "(relay, exn, 'a) prog"

definition OUTBOX_BATCH_SIZE :: nat where "OUTBOX_BATCH_SIZE = 50"
definition OUTBOX_MAX_ATTEMPTS :: nat where "OUTBOX_MAX_ATTEMPTS = 10"

definition relay_now :: "nat relay_prog" where
  "relay_now s = (Inr (relay_clock s (relay_reads s)), s\<lparr>relay_reads := relay_reads s + 1\<rparr>)"

definition emit :: "string \<Rightarrow> json_object \<Rightarrow> unit relay_prog" where
  "emit pattern body s =
     (let here = s\<lparr>emits := emits s + 1\<rparr>; there = here\<lparr>broker := broker s @ [(pattern, body)]\<rparr>
      in case emit_script s (emits s) of
        Acknowledged \<Rightarrow> (Inr (), there)
      | Unconfirmed e \<Rightarrow> (Inl e, there)
      | Undelivered e \<Rightarrow> (Inl e, here)
      | DiesDelivered \<Rightarrow> (Inl ProcessDied, there)
      | DiesUndelivered \<Rightarrow> (Inl ProcessDied, here))"

definition relay_transaction :: "'a relay_prog \<Rightarrow> 'a relay_prog" where
  "relay_transaction work s =
     (let ev = pass_script s (passes s);
          start = s\<lparr>tables := tx_others ev (tables s), broker := broker s @ peers_sent s (passes s)\<rparr>
      in case work start of
           (Inl e, t) \<Rightarrow> (Inl e, t\<lparr>tables := tables start, passes := passes s + 1\<rparr>)
         | (Inr x, t) \<Rightarrow> (case tx_fate ev of
               TxCommits \<Rightarrow> (Inr x, t\<lparr>passes := passes s + 1\<rparr>)
             | TxAborts \<Rightarrow> (Inl (Plain ''commit failed''), t\<lparr>tables := tables start, passes := passes s + 1\<rparr>)
             | TxCommitsUnheard \<Rightarrow> (Inl (Plain ''commit outcome unknown''), t\<lparr>passes := passes s + 1\<rparr>)
             | TxDiesBefore \<Rightarrow> (Inl ProcessDied, t\<lparr>tables := tables start, passes := passes s + 1\<rparr>)
             | TxDiesAfter \<Rightarrow> (Inl ProcessDied, t\<lparr>passes := passes s + 1\<rparr>)))"

section \<open>Publishing\<close>

definition due :: "nat \<Rightarrow> OutboxRow \<Rightarrow> bool" where
  "due now row \<longleftrightarrow> published_at row = None \<and> attempts row < OUTBOX_MAX_ATTEMPTS \<and> next_attempt_at row \<le> now"

text \<open>\<open>SELECT ... ORDER BY created_at LIMIT 1 FOR UPDATE SKIP LOCKED\<close>\<close>

definition next_message :: "nat \<Rightarrow> (OutboxRow \<Rightarrow> bool) \<Rightarrow> payments_db \<Rightarrow> OutboxRow option" where
  "next_message now locked d = (case filter (\<lambda>row. due now row \<and> \<not> locked row) (sort_key outbox_created_at (outbox d)) of
     [] \<Rightarrow> None | row # _ \<Rightarrow> Some row)"

definition update_row :: "nat \<Rightarrow> (OutboxRow \<Rightarrow> OutboxRow) \<Rightarrow> unit relay_prog" where
  "update_row i f = writes (\<lambda>s. s\<lparr>tables := (tables s)\<lparr>outbox := updateBy outbox_id i f (outbox (tables s))\<rparr>\<rparr>)"

text \<open>\<open>Math.min(3600, 2 ** attempts) * 1000\<close> milliseconds\<close>

definition retry_delay :: "nat \<Rightarrow> nat" where
  "retry_delay n = min 3600 (2 ^ n) * 1000"

definition publish_next :: "bool relay_prog" where
  "publish_next = relay_transaction (
     andThen relay_now (\<lambda>now.
     andThen (reads (\<lambda>s. next_message now (busy s (passes s)) (tables s))) (\<lambda>found. case found of
       None \<Rightarrow> ret False
     | Some m \<Rightarrow>
         andThen (catching
           (andThen (emit (outbox_event_type m) (outbox_payload m)) (\<lambda>_. ret None))
           (\<lambda>error. ret (Some error))) (\<lambda>failed. case failed of
             Some error \<Rightarrow>
               andThen relay_now (\<lambda>later.
               andThen (update_row (outbox_id m) (\<lambda>row. row\<lparr>attempts := attempts m + 1,
                  last_error := Some (describe error),
                  next_attempt_at := later + retry_delay (attempts m + 1)\<rparr>)) (\<lambda>_.
               ret True))
           | None \<Rightarrow>
               andThen relay_now (\<lambda>later.
               andThen (update_row (outbox_id m) (\<lambda>row. row\<lparr>published_at := Some later,
                  attempts := attempts m + 1, last_error := None\<rparr>)) (\<lambda>_.
               ret True))))))"

fun publish_loop :: "nat \<Rightarrow> unit relay_prog" where
  "publish_loop 0 = ret ()"
| "publish_loop (Suc n) = andThen publish_next (\<lambda>found. if found then publish_loop n else ret ())"

definition publishBatch :: "unit relay_prog" where
  "publishBatch = publish_loop OUTBOX_BATCH_SIZE"

text \<open>A tick of the schedule; \<open>draining\<close> is the flag a pass that overruns its tick holds.\<close>

definition drain :: "bool \<Rightarrow> unit relay_prog" where
  "drain draining = (if draining then ret () else catching publishBatch (\<lambda>error. ret ()))"

section \<open>Operations\<close>

record operational_metrics =
  outbox_pending :: nat
  outbox_exhausted :: nat
  oldest_unpublished_ms :: nat
  payments_stuck :: nat
  compensations_pending :: nat
  reconciliation_attention :: nat

definition count_if :: "('a \<Rightarrow> bool) \<Rightarrow> 'a list \<Rightarrow> nat" where
  "count_if P xs = length (filter P xs)"

definition open_payment :: "PaymentRow \<Rightarrow> bool" where
  "open_payment row \<longleftrightarrow> row_status row \<in> {Pending, Processing, CompensationPending}"

definition metrics :: "nat \<Rightarrow> payments_db \<Rightarrow> operational_metrics" where
  "metrics now d =
     (let unpublished = filter (\<lambda>row. published_at row = None) (outbox d) in
      \<lparr>outbox_pending = length unpublished,
       outbox_exhausted = count_if (\<lambda>row. attempts row \<ge> OUTBOX_MAX_ATTEMPTS) unpublished,
       oldest_unpublished_ms = (case map outbox_created_at unpublished of [] \<Rightarrow> 0 | t # ts \<Rightarrow> now - fold min ts t),
       payments_stuck = count_if (\<lambda>row. open_payment row \<and> row_updated_at row + 5 * 60 * 1000 < now) (payments d),
       compensations_pending = count_if (\<lambda>row. row_status row = CompensationPending) (payments d),
       reconciliation_attention = count_if (\<lambda>row. reconciliation_attempts row \<ge> 10 \<and> open_payment row) (payments d)\<rparr>)"

text \<open>\<open>report\<close> raises the alarm: \<open>PAYMENT OPERATIONS NEED ATTENTION\<close>.\<close>

definition needs_attention :: "operational_metrics \<Rightarrow> bool" where
  "needs_attention m \<longleftrightarrow> outbox_exhausted m \<noteq> 0 \<or> reconciliation_attention m \<noteq> 0"

text \<open>\<open>/^[0-9a-f]{8}-[0-9a-f]{4}-...-[0-9a-f]{12}$/i\<close>; \<open>uuid\<close> is how the database writes an id.\<close>

definition hex_char :: "char \<Rightarrow> bool" where
  "hex_char c \<longleftrightarrow> between (CHR ''0'') (CHR ''9'') c \<or> between (CHR ''a'') (CHR ''f'') c \<or> between (CHR ''A'') (CHR ''F'') c"

definition isUuid :: "string \<Rightarrow> bool" where
  "isUuid s \<longleftrightarrow> length s = 36
     \<and> list_all (\<lambda>(i, c). if i \<in> {8, 13, 18, 23} then c = CHR ''-'' else hex_char c) (enumerate 0 s)"

definition retryOutbox :: "(nat \<Rightarrow> string) \<Rightarrow> string \<Rightarrow> nat \<Rightarrow> payments_db \<Rightarrow> (exn + bool) \<times> payments_db" where
  "retryOutbox uuid ident now d =
     (if \<not> isUuid ident then (Inl (Plain ''Expected an outbox UUID''), d)
      else (let hit = (\<lambda>row. uuid (outbox_id row) = map lower_char ident \<and> published_at row = None
                         \<and> attempts row \<ge> OUTBOX_MAX_ATTEMPTS)
            in (Inr (count_if hit (outbox d) = 1),
                d\<lparr>outbox := map (\<lambda>row. if hit row
                    then row\<lparr>attempts := 0, last_error := None, next_attempt_at := now\<rparr> else row) (outbox d)\<rparr>)))"

section \<open>Running the relay\<close>

lemma wp_relay_now [wp_simps]:
  "wp relay_now Q E s = Q (relay_clock s (relay_reads s)) (s\<lparr>relay_reads := relay_reads s + 1\<rparr>)"
  by (simp add: wp_def relay_now_def)

lemma wp_update_row [wp_simps]: "wp (update_row i f) Q E s =
    Q () (s\<lparr>tables := (tables s)\<lparr>outbox := updateBy outbox_id i f (outbox (tables s))\<rparr>\<rparr>)"
  by (simp add: update_row_def wp_writes)

text \<open>What the relay keeps, however an attempt ends: the identity and the content of every row.\<close>

definition same_message :: "OutboxRow \<Rightarrow> OutboxRow \<Rightarrow> bool" where
  "same_message r r' \<longleftrightarrow> outbox_id r' = outbox_id r \<and> aggregate_reference r' = aggregate_reference r
     \<and> outbox_event_type r' = outbox_event_type r \<and> outbox_payload r' = outbox_payload r
     \<and> outbox_created_at r' = outbox_created_at r \<and> (published_at r \<noteq> None \<longrightarrow> r' = r)"

definition outbox_inv :: "(string \<times> json_object) list \<Rightarrow> payments_db \<Rightarrow> bool" where
  "outbox_inv received d \<longleftrightarrow> distinct (map outbox_id (outbox d))
     \<and> (\<forall>row \<in> set (outbox d). attempts row \<le> OUTBOX_MAX_ATTEMPTS
          \<and> (published_at row \<noteq> None \<longrightarrow> (outbox_event_type row, outbox_payload row) \<in> set received))"

text \<open>One attempt at a row: what is written, and the message the broker may have received.\<close>

definition attempt_of :: "OutboxRow \<Rightarrow> (OutboxRow \<Rightarrow> OutboxRow) \<Rightarrow> bool \<Rightarrow> bool" where
  "attempt_of m f delivered \<longleftrightarrow>
     (\<exists>later. delivered \<and> f = (\<lambda>row. row\<lparr>published_at := Some later, attempts := attempts m + 1, last_error := None\<rparr>))
     \<or> (\<exists>later e. f = (\<lambda>row. row\<lparr>attempts := attempts m + 1, last_error := Some (describe e),
            next_attempt_at := later + retry_delay (attempts m + 1)\<rparr>))"

lemma next_message_Some: "next_message now locked d = Some m \<Longrightarrow> m \<in> set (outbox d) \<and> due now m"
proof -
  assume some: "next_message now locked d = Some m"
  let ?xs = "filter (\<lambda>row. due now row \<and> \<not> locked row) (sort_key outbox_created_at (outbox d))"
  have "m \<in> set ?xs" using some by (cases ?xs) (auto simp: next_message_def)
  then show ?thesis by simp
qed

lemma next_message_None: "next_message now locked d = None \<Longrightarrow> row \<in> set (outbox d) \<Longrightarrow> due now row \<Longrightarrow> locked row"
proof (rule ccontr)
  assume none: "next_message now locked d = None" and row: "row \<in> set (outbox d)" "due now row" "\<not> locked row"
  let ?xs = "filter (\<lambda>row. due now row \<and> \<not> locked row) (sort_key outbox_created_at (outbox d))"
  have "row \<in> set ?xs" using row by simp
  with none show False by (cases ?xs) (simp_all add: next_message_def)
qed

lemma update_by_id:
  assumes "distinct (map outbox_id rows)" and "m \<in> set rows" and "\<And>r. outbox_id (f r) = outbox_id r"
  shows "updateBy outbox_id (outbox_id m) f rows = map (\<lambda>r. if r = m then f m else r) rows"
    and "map outbox_id (updateBy outbox_id (outbox_id m) f rows) = map outbox_id rows"
proof -
  have "outbox_id r = outbox_id m \<longleftrightarrow> r = m" if "r \<in> set rows" for r
    using assms(1,2) that by (auto simp: distinct_map inj_on_def)
  then show "updateBy outbox_id (outbox_id m) f rows = map (\<lambda>r. if r = m then f m else r) rows"
    by (auto simp: updateBy_def)
  show "map outbox_id (updateBy outbox_id (outbox_id m) f rows) = map outbox_id rows"
    by (rule map_updateBy) (rule assms(3))
qed

text \<open>The transaction of one pass, on the tables \<open>d\<close> it found.\<close>

definition emitted :: "relay \<Rightarrow> relay \<Rightarrow> bool" where
  "emitted s t \<longleftrightarrow> emit_script t = emit_script s \<and> pass_script t = pass_script s \<and> relay_clock t = relay_clock s
     \<and> busy t = busy s \<and> peers_sent t = peers_sent s \<and> (\<exists>more. broker t = broker s @ more)"

definition passed :: "payments_db \<Rightarrow> relay \<Rightarrow> relay \<Rightarrow> bool" where
  "passed d s t \<longleftrightarrow> emitted s t
     \<and> (tables t = d \<or> (\<exists>m now f delivered. m \<in> set (outbox d) \<and> due now m \<and> attempt_of m f delivered
           \<and> (delivered \<longrightarrow> (outbox_event_type m, outbox_payload m) \<in> set (broker t))
           \<and> tables t = d\<lparr>outbox := updateBy outbox_id (outbox_id m) f (outbox d)\<rparr>))"

lemma emitted_frame [simp]:
  "emitted s (t\<lparr>passes := n\<rparr>) = emitted s t" "emitted (s\<lparr>tables := e\<rparr>) t = emitted s t"
  "emitted s (t\<lparr>tables := e\<rparr>) = emitted s t" "emitted s (t\<lparr>relay_reads := n\<rparr>) = emitted s t"
  by (simp_all add: emitted_def)

lemma passed_failed:
  assumes "emitted s t" and "m \<in> set (outbox d)" and "due now m"
    and "tables t = d\<lparr>outbox := updateBy outbox_id (outbox_id m) (\<lambda>row. row\<lparr>attempts := attempts m + 1,
      last_error := Some (describe e), next_attempt_at := later + retry_delay (attempts m + 1)\<rparr>) (outbox d)\<rparr>"
  shows "passed d s t"
  unfolding passed_def using assms
  by (intro conjI disjI2 exI [of _ m] exI [of _ now] exI [of _ False] exI) (auto simp: attempt_of_def)

lemma passed_sent:
  assumes "emitted s t" and "m \<in> set (outbox d)" and "due now m"
    and "(outbox_event_type m, outbox_payload m) \<in> set (broker t)"
    and "tables t = d\<lparr>outbox := updateBy outbox_id (outbox_id m) (\<lambda>row. row\<lparr>published_at := Some later,
      attempts := attempts m + 1, last_error := None\<rparr>) (outbox d)\<rparr>"
  shows "passed d s t"
  unfolding passed_def using assms
  by (intro conjI disjI2 exI [of _ m] exI [of _ now] exI [of _ True] exI) (auto simp: attempt_of_def)

lemma passed_frame [simp]:
  "passed d s (t\<lparr>passes := n\<rparr>) = passed d s t" "passed d (s\<lparr>tables := e\<rparr>) t = passed d s t"
  by (simp_all add: passed_def)

lemma passed_unchanged: "emitted s t \<Longrightarrow> tables t = d \<Longrightarrow> passed d s t"
  by (simp add: passed_def)

lemma passed_rollback: "passed d s t \<Longrightarrow> passed d s (t\<lparr>tables := d\<rparr>)"
  by (simp add: passed_def)

text \<open>The world at the start of a pass, with what the other relays delivered.\<close>

definition pass_start :: "relay \<Rightarrow> relay" where
  "pass_start s = s\<lparr>tables := tx_others (pass_script s (passes s)) (tables s), broker := broker s @ peers_sent s (passes s)\<rparr>"

lemma wp_relay_transaction:
  assumes "u = pass_start s" and "wp work (\<lambda>_. passed (tables u) u) (\<lambda>_. passed (tables u) u) u"
  shows "wp (relay_transaction work) (\<lambda>_. passed (tables u) u) (\<lambda>_. passed (tables u) u) s"
  using assms(2) passed_rollback unfolding wp_def relay_transaction_def Let_def assms(1) pass_start_def
  by (auto split: prod.splits sum.splits tx_fate.splits)

lemma wp_publish_next:
  assumes "u = pass_start s"
  shows "wp publish_next (\<lambda>_. passed (tables u) u) (\<lambda>_. passed (tables u) u) s"
  unfolding publish_next_def
proof (rule wp_relay_transaction [OF assms])
  let ?now = "relay_clock u (relay_reads u)"
  let ?P = "passed (tables u) u"
  show "wp (andThen relay_now (\<lambda>now. andThen (reads (\<lambda>s. next_message now (busy s (passes s)) (tables s))) (\<lambda>found. case found of
       None \<Rightarrow> ret False
     | Some m \<Rightarrow>
         andThen (catching (andThen (emit (outbox_event_type m) (outbox_payload m)) (\<lambda>_. ret None)) (\<lambda>error. ret (Some error)))
           (\<lambda>failed. case failed of
             Some error \<Rightarrow> andThen relay_now (\<lambda>later. andThen (update_row (outbox_id m) (\<lambda>row. row\<lparr>attempts := attempts m + 1,
                  last_error := Some (describe error), next_attempt_at := later + retry_delay (attempts m + 1)\<rparr>)) (\<lambda>_. ret True))
           | None \<Rightarrow> andThen relay_now (\<lambda>later. andThen (update_row (outbox_id m) (\<lambda>row. row\<lparr>published_at := Some later,
                   attempts := attempts m + 1, last_error := None\<rparr>)) (\<lambda>_. ret True)))))) (\<lambda>_. ?P) (\<lambda>_. ?P) u"
  proof (cases "next_message ?now (busy u (passes u)) (tables u)")
    case None
    then show ?thesis by (simp add: wp_simps passed_def emitted_def)
  next
    case (Some m)
    then have m: "m \<in> set (outbox (tables u))" "due ?now m" using next_message_Some by blast+
    show ?thesis
      using Some by (simp add: wp_simps wp_def [where m = "emit a b" for a b] emit_def Let_def split: emit_fate.splits)
        (auto simp: emitted_def intro: passed_unchanged passed_sent [OF _ m] passed_failed [OF _ m])
  qed
qed

end
