(* ===== verification/Relay_Properties.thy ===== *)
theory Relay_Properties
  imports Relay
begin

text \<open>
  The relay loses, alters and repeats nothing it should not: what is marked published was delivered,
  rows keep their identity and content, attempts are bounded, and a pass with a working broker makes
  progress.
\<close>

section \<open>Safety\<close>

definition grown :: "payments_db \<Rightarrow> payments_db \<Rightarrow> bool" where
  "grown d d' \<longleftrightarrow> list_all2 same_message (outbox d) (take (length (outbox d)) (outbox d'))"

text \<open>
  What the others may commit between two transactions of the relay while delivering \<open>sends\<close>: writers of the
  outbox add rows, and other relays may publish, having delivered.
\<close>

definition relay_legit :: "(string \<times> json_object) list \<Rightarrow> (payments_db \<Rightarrow> payments_db) \<Rightarrow> bool" where
  "relay_legit sends f \<longleftrightarrow>
     (\<forall>received d. outbox_inv received d \<longrightarrow> outbox_inv (received @ sends) (f d) \<and> grown d (f d))"

lemma same_message_refl [simp]: "same_message r r"
  by (simp add: same_message_def)

lemma grown_refl [simp]: "grown d d"
  by (simp add: grown_def list_all2_refl)

lemma same_message_trans: "same_message a b \<Longrightarrow> same_message b c \<Longrightarrow> same_message a c"
  by (auto simp: same_message_def)

lemma grown_trans:
  assumes "grown a b" and "grown b c"
  shows "grown a c"
proof -
  let ?n = "length (outbox a)"
  have n: "?n \<le> length (outbox b)" using assms(1) by (auto simp: grown_def dest: list_all2_lengthD)
  have "list_all2 same_message (take ?n (outbox b)) (take ?n (take (length (outbox b)) (outbox c)))"
    using assms(2) unfolding grown_def by (rule list_all2_takeI)
  then have "list_all2 same_message (take ?n (outbox b)) (take ?n (outbox c))" using n by (simp add: min_absorb1)
  from list_all2_trans [where ?P1.0 = same_message and ?P2.0 = same_message and ?P3.0 = same_message, OF same_message_trans
      assms(1) [unfolded grown_def] this]
  show ?thesis by (simp add: grown_def)
qed

lemma attempt_of_row:
  assumes "attempt_of m f delivered" and "due now m"
  shows "outbox_id (f r) = outbox_id r" "same_message m (f m)" "attempts (f m) \<le> OUTBOX_MAX_ATTEMPTS"
    "published_at (f m) \<noteq> None \<Longrightarrow> delivered"
  using assms by (auto simp: attempt_of_def same_message_def due_def)

lemma passed_keeps:
  assumes "outbox_inv (broker s) d" and "passed d s t"
  shows "outbox_inv (broker t) (tables t) \<and> grown d (tables t)"
proof -
  obtain more where more: "broker t = broker s @ more" using assms(2) by (auto simp: passed_def emitted_def)
  have inv: "outbox_inv (broker t) d" using assms(1) more by (auto simp: outbox_inv_def)
  from assms(2) consider "tables t = d" | m now f delivered where "m \<in> set (outbox d)" "due now m" "attempt_of m f delivered"
      "delivered \<longrightarrow> (outbox_event_type m, outbox_payload m) \<in> set (broker t)"
      "tables t = d\<lparr>outbox := updateBy outbox_id (outbox_id m) f (outbox d)\<rparr>"
    unfolding passed_def by blast
  then show ?thesis
  proof cases
    case 1
    then show ?thesis using inv by simp
  next
    case 2
    note row = attempt_of_row [OF 2(3,2)]
    have distinct: "distinct (map outbox_id (outbox d))" using inv by (simp add: outbox_inv_def)
    note rows = update_by_id [OF distinct 2(1) row(1)]
    have new: "outbox (tables t) = map (\<lambda>r. if r = m then f m else r) (outbox d)" using 2(5) rows(1) by simp
    have "grown d (tables t)"
      unfolding grown_def new by (simp add: list_all2_map2 list_all2_refl list.rel_refl row(2))
    moreover have "outbox_inv (broker t) (tables t)"
      unfolding outbox_inv_def
    proof (intro conjI ballI)
      show "distinct (map outbox_id (outbox (tables t)))" using distinct rows(2) 2(5) by simp
      fix r assume "r \<in> set (outbox (tables t))"
      then obtain r0 where r0: "r0 \<in> set (outbox d)" "r = (if r0 = m then f m else r0)" unfolding new by auto
      show "attempts r \<le> OUTBOX_MAX_ATTEMPTS" using r0 row(3) inv by (auto simp: outbox_inv_def)
      show "published_at r \<noteq> None \<longrightarrow> (outbox_event_type r, outbox_payload r) \<in> set (broker t)"
        using r0 row(2,4) 2(4) inv by (auto simp: outbox_inv_def same_message_def)
    qed
    ultimately show ?thesis by simp
  qed
qed

definition relay_ok :: "relay \<Rightarrow> relay \<Rightarrow> bool" where
  "relay_ok s t \<longleftrightarrow> pass_script t = pass_script s \<and> peers_sent t = peers_sent s \<and> outbox_inv (broker t) (tables t) \<and> grown (tables s) (tables t)"

lemma pass_start_fields:
  "pass_script (pass_start t) = pass_script t" "peers_sent (pass_start t) = peers_sent t"
  by (simp_all add: pass_start_def)

text \<open>Another relay that takes the row \<open>m\<close>, delivers it and marks it is such traffic.\<close>

lemma peer_relay_is_legit:
  "relay_legit [(outbox_event_type m, outbox_payload m)]
     (\<lambda>d. d\<lparr>outbox := map (\<lambda>r. if outbox_id r = outbox_id m \<and> outbox_event_type r = outbox_event_type m
            \<and> outbox_payload r = outbox_payload m \<and> due now r
          then r\<lparr>published_at := Some now, attempts := attempts r + 1, last_error := None\<rparr> else r) (outbox d)\<rparr>)"
proof -
  let ?f = "\<lambda>r. if outbox_id r = outbox_id m \<and> outbox_event_type r = outbox_event_type m
            \<and> outbox_payload r = outbox_payload m \<and> due now r
          then r\<lparr>published_at := Some now, attempts := attempts r + 1, last_error := None\<rparr> else r"
  have "map outbox_id (map ?f rows) = map outbox_id rows" for rows by simp
  moreover have "same_message r (?f r)" for r by (simp add: same_message_def due_def)
  ultimately show ?thesis
    unfolding relay_legit_def outbox_inv_def grown_def
    by (auto simp: list_all2_map2 list.rel_refl due_def simp del: map_map)
qed

lemma publish_next_ok:
  assumes "relay_ok s t" and "\<forall>n. relay_legit (peers_sent s n) (tx_others (pass_script s n))"
  shows "wp publish_next (\<lambda>_. relay_ok s) (\<lambda>_. relay_ok s) t"
proof (rule wp_mono [OF wp_publish_next [OF refl]], goal_cases)
  have "relay_legit (peers_sent t (passes t)) (tx_others (pass_script t (passes t)))" using assms by (simp add: relay_ok_def)
  then have base: "outbox_inv (broker (pass_start t)) (tables (pass_start t))" "grown (tables t) (tables (pass_start t))"
    using assms(1) unfolding relay_legit_def relay_ok_def pass_start_def by auto
  have next_ok: "relay_ok s u" if "passed (tables (pass_start t)) (pass_start t) u" for u
    using passed_keeps [OF base(1) that] that assms(1) grown_trans [OF _ base(2)] unfolding relay_ok_def passed_def emitted_def
    by (metis (no_types, lifting) grown_trans pass_start_fields)
  case 1
  then show ?case by (rule next_ok)
  case 2
  then show ?case by (rule next_ok)
qed

lemma publish_loop_ok:
  assumes "\<forall>n. relay_legit (peers_sent s n) (tx_others (pass_script s n))" and "relay_ok s t"
  shows "wp (publish_loop n) (\<lambda>_. relay_ok s) (\<lambda>_. relay_ok s) t"
  using assms(2)
proof (induction n arbitrary: t)
  case (Suc n)
  show ?case unfolding publish_loop.simps wp_andThen
    by (rule wp_mono [OF publish_next_ok [OF Suc.prems assms(1)]]) (simp_all add: Suc.IH wp_ret)
qed (simp add: wp_ret)

text \<open>
  Property C20. At least once, and nothing else: whatever the broker, the database and the clock do,
  whichever rows other relays deliver and mark meanwhile, and wherever the process dies, a tick of the
  relay keeps every message with its identity, destination and content, changes nothing in a row
  already published, leaves no row with more than ten attempts, and any row marked published has been
  delivered to the broker.
\<close>

theorem relay_delivers_before_it_marks:
  assumes "outbox_inv (broker s) (tables s)" and "\<forall>n. relay_legit (peers_sent s n) (tx_others (pass_script s n))"
  shows "outbox_inv (broker (snd (drain draining s))) (tables (snd (drain draining s)))
    \<and> grown (tables s) (tables (snd (drain draining s)))"
proof -
  have "relay_ok s s" using assms(1) by (simp add: relay_ok_def)
  then have "wp (drain draining) (\<lambda>_. relay_ok s) (\<lambda>_. relay_ok s) s"
    unfolding drain_def publishBatch_def wp_if wp_catching wp_ret
    using publish_loop_ok [OF assms(2), where n = OUTBOX_BATCH_SIZE and t = s] by (auto elim!: wp_mono)
  then show ?thesis by (simp add: wp_state relay_ok_def)
qed

section \<open>Progress\<close>

definition working :: "relay \<Rightarrow> bool" where
  "working s \<longleftrightarrow> (\<forall>n. emit_script s n = Acknowledged) \<and> (\<forall>n. pass_script s n = \<lparr>tx_others = (\<lambda>d. d), tx_fate = TxCommits\<rparr>)
     \<and> (\<forall>n row. \<not> busy s n row) \<and> (\<forall>n. peers_sent s n = [])"

definition message_of :: "OutboxRow \<Rightarrow> string \<times> json_object" where
  "message_of row = (outbox_event_type row, outbox_payload row)"

text \<open>
  From \<open>s\<close> to \<open>t\<close> the rows \<open>sent\<close> were published: they were pending, the broker got the message of each of them
  once and in this order and nothing else, they are marked, and every other row is as it was.
\<close>

definition sent_from :: "OutboxRow list \<Rightarrow> relay \<Rightarrow> relay \<Rightarrow> bool" where
  "sent_from sent s t \<longleftrightarrow> distinct (map outbox_id sent)
     \<and> list_all (\<lambda>m. m \<in> set (outbox (tables s)) \<and> published_at m = None \<and> attempts m < OUTBOX_MAX_ATTEMPTS) sent
     \<and> broker t = broker s @ map message_of sent
     \<and> list_all2 (\<lambda>r r'. if r \<in> set sent then same_message r r' \<and> published_at r' \<noteq> None else r' = r)
         (outbox (tables s)) (outbox (tables t))"

definition progressed :: "nat \<Rightarrow> OutboxRow list \<Rightarrow> relay \<Rightarrow> relay \<Rightarrow> bool" where
  "progressed start sent s t \<longleftrightarrow> working t \<and> distinct (map outbox_id (outbox (tables s)))
     \<and> distinct (map outbox_id (outbox (tables t))) \<and> (\<forall>k \<ge> relay_reads t. start \<le> relay_clock t k) \<and> sent_from sent s t"

lemma list_all2_source:
  assumes "list_all2 P xs ys" and "y \<in> set ys"
  obtains x where "x \<in> set xs" "P x y"
  using assms by (metis in_set_conv_nth list_all2_conv_all_nth)

lemma sent_one_more:
  assumes "sent_from sent s t" and "distinct (map outbox_id (outbox (tables s)))"
    and "m \<in> set (outbox (tables t))" and "published_at m = None" and "attempts m < OUTBOX_MAX_ATTEMPTS"
    and "same_message m m'" and "published_at m' \<noteq> None"
    and "broker u = broker t @ [message_of m]"
    and "outbox (tables u) = map (\<lambda>r. if r = m then m' else r) (outbox (tables t))"
  shows "sent_from (sent @ [m]) s u"
proof -
  let ?P = "\<lambda>r r'. if r \<in> set sent then same_message r r' \<and> published_at r' \<noteq> None else r' = r"
  let ?P' = "\<lambda>r r'. if r \<in> set (sent @ [m]) then same_message r r' \<and> published_at r' \<noteq> None else r' = r"
  have rows: "list_all2 ?P (outbox (tables s)) (outbox (tables t))" using assms(1) by (simp add: sent_from_def)
  obtain r where "r \<in> set (outbox (tables s))" "?P r m" using list_all2_source [OF rows assms(3)] by blast
  then have m: "m \<in> set (outbox (tables s))" "m \<notin> set sent" using assms(4) by (auto split: if_splits)
  have "outbox_id m \<noteq> outbox_id r" if "r \<in> set sent" for r
    using that m assms(1,2) by (auto simp: sent_from_def list_all_iff distinct_map inj_on_def)
  moreover have "list_all2 ?P' (outbox (tables s)) (outbox (tables u))"
    unfolding assms(9) list_all2_map2
    by (rule list_all2_mono [OF rows]) (use m(2) assms(4,6,7) in \<open>auto split: if_splits\<close>)
  ultimately show ?thesis using assms(1,4,5,8) m by (auto simp: sent_from_def)
qed

lemma publish_next_works:
  assumes "progressed start sent s t"
  shows "wp publish_next (\<lambda>found u. if found then \<exists>m. progressed start (sent @ [m]) s u
      else progressed start sent s u \<and> (\<forall>row \<in> set (outbox (tables u)). \<not> due start row)) (\<lambda>_ _. False) t"
proof -
  let ?now = "relay_clock t (relay_reads t)"
  have w: "working t" "distinct (map outbox_id (outbox (tables t)))" "\<And>k. relay_reads t \<le> k \<Longrightarrow> start \<le> relay_clock t k"
    "distinct (map outbox_id (outbox (tables s)))" "sent_from sent s t"
    using assms by (auto simp: progressed_def)
  show ?thesis
  proof (cases "next_message ?now (busy t (passes t)) (tables t)")
    case None
    have "\<not> due start row" if "row \<in> set (outbox (tables t))" for row
      using next_message_None [OF None that] w(1) w(3) [of "relay_reads t"] by (auto simp: working_def due_def)
    then show ?thesis
      using None assms w(1)
      by (simp add: wp_def publish_next_def relay_transaction_def working_def andThen_def relay_now_def reads_def ret_def
          progressed_def sent_from_def)
  next
    case (Some m)
    then have m: "m \<in> set (outbox (tables t))" "due ?now m" using next_message_Some by blast+
    let ?later = "relay_clock t (Suc (relay_reads t))"
    let ?f = "\<lambda>row. row\<lparr>published_at := Some ?later, attempts := attempts m + 1, last_error := None\<rparr>"
    have rows: "updateBy outbox_id (outbox_id m) ?f (outbox (tables t)) = map (\<lambda>r. if r = m then ?f m else r) (outbox (tables t))"
      "map outbox_id (updateBy outbox_id (outbox_id m) ?f (outbox (tables t))) = map outbox_id (outbox (tables t))"
      by (rule update_by_id [OF w(2) m(1)]; simp)+
    let ?u = "t\<lparr>tables := (tables t)\<lparr>outbox := updateBy outbox_id (outbox_id m) ?f (outbox (tables t))\<rparr>,
        broker := broker t @ [message_of m], emits := emits t + 1, relay_reads := relay_reads t + 2, passes := passes t + 1\<rparr>"
    have "publish_next t = (Inr True, ?u)"
      using Some w(1)
      by (simp add: publish_next_def relay_transaction_def working_def andThen_def relay_now_def reads_def ret_def
          catching_def tryCatch_def emit_def update_row_def writes_def message_of_def Let_def)
    moreover have "sent_from (sent @ [m]) s ?u"
      by (rule sent_one_more [OF w(5,4) m(1), where m' = "?f m"]) (use m(2) rows(1) in \<open>simp_all add: due_def same_message_def\<close>)
    then have "progressed start (sent @ [m]) s ?u"
      using w rows(2) by (simp add: progressed_def working_def)
    ultimately show ?thesis by (auto simp: wp_def)
  qed
qed

lemma publish_loop_works:
  assumes "progressed start sent s t"
  shows "wp (publish_loop k) (\<lambda>_ u. \<exists>more. progressed start (sent @ more) s u \<and> length more \<le> k
      \<and> (length more = k \<or> (\<forall>row \<in> set (outbox (tables u)). \<not> due start row))) (\<lambda>_ _. False) t"
  using assms
proof (induction k arbitrary: sent t)
  case (Suc k)
  show ?case unfolding publish_loop.simps wp_andThen
  proof (rule wp_mono [OF publish_next_works [OF Suc.prems]], goal_cases)
    case (1 found u)
    show ?case
    proof (cases found)
      case True
      then obtain m where "progressed start (sent @ [m]) s u" using 1 by auto
      from Suc.IH [OF this] have "wp (publish_loop k) (\<lambda>_ v. \<exists>more. progressed start (sent @ more) s v \<and> length more \<le> Suc k
          \<and> (length more = Suc k \<or> (\<forall>row \<in> set (outbox (tables v)). \<not> due start row))) (\<lambda>_ _. False) u"
        by (rule wp_mono) (elim exE, rule_tac x = "m # more" in exI, auto)
      then show ?thesis using True by simp
    next
      case False
      then show ?thesis using 1 by (auto simp: wp_ret intro!: exI [of _ "[]"])
    qed
  qed simp
qed (auto simp: wp_ret)

text \<open>
  Property C21. With a broker that acknowledges and a database that commits, a tick of the relay
  returns and makes progress: it publishes fifty messages, or fewer and then none of the messages that
  were due when it started is left. The broker receives the message of each of the rows it took, once
  each and nothing else; those rows are marked published, and every other row is as it was.
\<close>

theorem relay_makes_progress:
  assumes "working s" and "distinct (map outbox_id (outbox (tables s)))"
    and "\<forall>k \<ge> relay_reads s. start \<le> relay_clock s k"
  shows "\<exists>sent t. drain False s = (Inr (), t) \<and> sent_from sent s t \<and> length sent \<le> 50
     \<and> (length sent = 50 \<or> filter (due start) (outbox (tables t)) = [])"
proof -
  have "progressed start [] s s" using assms by (simp add: progressed_def sent_from_def list_all2_refl)
  from publish_loop_works [OF this, of OUTBOX_BATCH_SIZE]
  obtain t sent where t: "publishBatch s = (Inr (), t)" "progressed start sent s t" "length sent \<le> 50"
      "length sent = 50 \<or> (\<forall>row \<in> set (outbox (tables t)). \<not> due start row)"
    by (cases "publish_loop OUTBOX_BATCH_SIZE s") (auto simp: wp_def publishBatch_def OUTBOX_BATCH_SIZE_def split: sum.splits)
  have "drain False s = (Inr (), t)" using t(1) by (simp add: drain_def catching_def tryCatch_def)
  with t show ?thesis by (intro exI [of _ sent] exI [of _ t]) (auto simp: progressed_def filter_empty_conv)
qed

section \<open>The operator\<close>

lemma count_remove:
  assumes "distinct xs" and "m \<in> set xs" and "P m" and "\<not> P m'"
  shows "length (filter P (map (\<lambda>x. if x = m then m' else x) xs)) = length (filter P xs) - 1"
proof -
  obtain ys zs where xs: "xs = ys @ m # zs" using assms(2) by (meson split_list)
  then have "m \<notin> set ys" "m \<notin> set zs" using assms(1) by auto
  then have "map (\<lambda>x. if x = m then m' else x) xs = ys @ m' # zs" unfolding xs by (auto intro: map_idI)
  then show ?thesis using xs assms(3,4) by simp
qed

lemma filter_this: "distinct xs \<Longrightarrow> x \<in> set xs \<Longrightarrow> filter (\<lambda>y. y = x) xs = [x]"
  by (induction xs) (auto simp: filter_empty_conv)

definition exhausted :: "OutboxRow \<Rightarrow> bool" where
  "exhausted row \<longleftrightarrow> published_at row = None \<and> OUTBOX_MAX_ATTEMPTS \<le> attempts row"

lemma metrics_exhausted: "outbox_exhausted (metrics now d) = length (filter exhausted (outbox d))"
  by (simp add: metrics_def Let_def count_if_def exhausted_def [abs_def])

text \<open>
  Property C33. A message that used up its attempts waits for the operator: no relay pass at any time
  takes it, the metrics count it and raise the alarm, and a retry by its id makes it due at once and
  takes it out of the count, leaving its identity and content and every other row alone.
\<close>

theorem exhausted_message_waits_for_the_operator:
  assumes "row \<in> set (outbox d)" and "exhausted row" and "distinct (map outbox_id (outbox d))"
    and "inj_on uuid (outbox_id ` set (outbox d))" and "isUuid ident" and "map lower_char ident = uuid (outbox_id row)"
  shows "(\<forall>t. \<not> due t row) \<and> needs_attention (metrics now d)
    \<and> (\<exists>d' row'. retryOutbox uuid ident now d = (Inr True, d') \<and> due now row' \<and> same_message row row'
         \<and> outbox (d' :: payments_db) = map (\<lambda>r. if r = row then row' else r) (outbox d)
         \<and> outbox_exhausted (metrics now d') = outbox_exhausted (metrics now d) - 1)"
proof -
  let ?row = "row\<lparr>attempts := 0, last_error := None, next_attempt_at := now\<rparr>"
  let ?hit = "\<lambda>r. uuid (outbox_id r) = map lower_char ident \<and> published_at r = None \<and> attempts r \<ge> OUTBOX_MAX_ATTEMPTS"
  let ?d = "d\<lparr>outbox := map (\<lambda>r. if r = row then ?row else r) (outbox d)\<rparr>"
  have hit: "?hit r \<longleftrightarrow> r = row" if "r \<in> set (outbox d)" for r
  proof -
    have "uuid (outbox_id r) = map lower_char ident \<longleftrightarrow> outbox_id r = outbox_id row"
      unfolding assms(6) using inj_on_eq_iff [OF assms(4)] assms(1) that by simp
    also have "\<dots> \<longleftrightarrow> r = row" using inj_on_eq_iff [of outbox_id "set (outbox d)"] assms(1,3) that by (simp add: distinct_map)
    finally show ?thesis using assms(2) by (auto simp: exhausted_def)
  qed
  have rows: "map (\<lambda>r. if ?hit r then r\<lparr>attempts := 0, last_error := None, next_attempt_at := now\<rparr> else r) (outbox d)
      = outbox ?d" using hit by simp
  have distinct: "distinct (outbox d)" using assms(3) by (simp add: distinct_map)
  have "filter ?hit (outbox d) = [row]"
  proof -
    have "filter ?hit (outbox d) = filter (\<lambda>r. r = row) (outbox d)" using hit by (intro filter_cong) simp_all
    also have "\<dots> = [row]" using distinct assms(1) by (rule filter_this)
    finally show ?thesis .
  qed
  then have "retryOutbox uuid ident now d = (Inr True, ?d)"
    using assms(5) rows by (simp add: retryOutbox_def count_if_def Let_def)
  moreover have "due now ?row" "same_message row ?row"
    using assms(2) by (simp_all add: due_def exhausted_def OUTBOX_MAX_ATTEMPTS_def same_message_def)
  moreover have "outbox_exhausted (metrics now ?d) = outbox_exhausted (metrics now d) - 1"
    unfolding metrics_exhausted using count_remove [OF distinct assms(1), of exhausted ?row] assms(2)
    by (simp add: exhausted_def OUTBOX_MAX_ATTEMPTS_def)
  moreover have "needs_attention (metrics now d)"
    using assms(1,2) by (auto simp: needs_attention_def metrics_exhausted filter_empty_conv)
  moreover have "\<not> due t row" for t using assms(2) by (simp add: due_def exhausted_def)
  ultimately show ?thesis by (intro conjI allI exI [of _ ?d] exI [of _ ?row]) simp_all
qed

end
