(* ===== verification/Ledger_Scenarios.thy ===== *)
theory Ledger_Scenarios
  imports Payment_Scenarios Queries Relay_Properties
begin

text \<open>
  Concrete ledgers and relays: the witnesses of \<open>Ledger_Properties\<close> and \<open>Relay_Properties\<close>.
\<close>

section \<open>The ledger\<close>

definition demo_ledger :: ledger_db where
  "demo_ledger = \<lparr>transactions = [], txn_refs = (\<lambda>n. (n, \<lambda>_. 0)), txn_uuids = (\<lambda>n. n), txn_drawn = 0, txn_now = 7\<rparr>"

definition demo_event :: json_object where
  "demo_event =
     [(''transaction_id'', String ''order-0001''), (''payment_reference'', String demo_name), (''type'', String ''DEBIT''),
      (''wallet_reference'', String ''wlt_00000000010000000000000000''), (''user_reference'', String UNKNOWN_USER),
      (''amount'', Number (num 300)), (''currency'', String ''XOF''), (''description'', String ''Invoice''),
      (''status'', String ''Approved''), (''occurred_at'', Iso 3)]"

definition demo_recorded :: ledger_db where
  "demo_recorded = snd (onTransactionRecorded (\<lambda>_. None) quiet_traffic demo_event demo_ledger)"

lemma demo_ledger_inv: "ledger_inv demo_ledger"
  by (simp add: ledger_inv_def demo_ledger_def)

lemma demo_event_valid: "event_faults (\<lambda>_. None) demo_event = []"
  by code_simp

lemma demo_recording: "onTransactionRecorded (\<lambda>_. None) quiet_traffic demo_event demo_ledger = (Ack, demo_recorded)"
  using demo_event_valid
  by (simp add: demo_recorded_def onTransactionRecorded_def record_transaction_def andThen_def findTransaction_def reads_def
      ret_def writes_def tryCatch_def append_transaction_def fresh_transaction_reference_def demo_ledger_def quiet_traffic_def
      RecordTransactionRequest_of_def demo_event_def property_of_def new_row_def Let_def bigint_ok_def split: prod.splits)

theorem ledger_records_once_witness:
  "case record_transaction quiet_traffic (RecordTransactionRequest_of (\<lambda>_. None) demo_event) demo_ledger of
     (_, l) \<Rightarrow> ledger_inv l \<and> ledger_extends demo_ledger l"
  using ledger_records_once [OF demo_ledger_inv quiet_legit] by (auto split: prod.splits)

theorem redelivery_changes_nothing_witness:
  "onTransactionRecorded (\<lambda>_. None) quiet_traffic demo_event demo_recorded = (Ack, demo_recorded)"
proof -
  have "ledger_inv demo_recorded"
    using consumer_grows [OF demo_ledger_inv quiet_legit demo_recording] by blast
  then show ?thesis
    using redelivery_changes_nothing [OF demo_ledger_inv quiet_legit demo_event_valid demo_recording _ ledger_extends_refl] by blast
qed

definition demo_history :: ListTransactionsQuery where
  "demo_history = \<lparr>list_user = Some UNKNOWN_USER, list_wallet = None, list_type = None,
     list_pagination = \<lparr>query_page = None, query_per_page = None\<rparr>\<rparr>"

lemma demo_recorded_inv: "ledger_inv demo_recorded"
  using consumer_grows [OF demo_ledger_inv quiet_legit demo_recording] by blast

text \<open>A database that comes upon the rows forwards for one page and backwards for the next.\<close>

definition fickle :: "nat \<Rightarrow> query_plan" where
  "fickle p rows = (if even p then rev rows else rows)"

lemma fickle_reads_all: "reads_all (fickle p)"
  by (simp add: reads_all_def fickle_def)

theorem history_pages_tile_witness:
  "\<exists>rows. concat (map (\<lambda>p. history_page (fickle p)
       (demo_history\<lparr>list_pagination := \<lparr>query_page = Some p, query_per_page = Some 2\<rparr>\<rparr>) demo_recorded) [1..<Suc 3])
     = map TransactionResponse_from (take 6 rows)"
  using history_pages_tile [where plan = fickle and k = 3 and n = 2 and q = demo_history, OF demo_recorded_inv _ _ fickle_reads_all refl]
  by (auto simp: demo_history_def UNKNOWN_USER_def falsy_text_def)

theorem history_is_scoped_and_bounded_witness:
  "case get_transactions rev (\<lambda>_. num 7) [(''user_reference'', Once UNKNOWN_USER), (''per_page'', Once ''7'')] demo_recorded of
     (Inr (st, envelope), l') \<Rightarrow> l' = demo_recorded \<and> st = 200 \<and> (\<exists>found. env_data envelope = Some found \<and> per_page found = 7)
   | (Inl e, l') \<Rightarrow> False"
proof -
  let ?q = "[(''user_reference'', Once UNKNOWN_USER), (''per_page'', Once ''7'')]"
  have "faulty_fields ListTransactions_rules (query_object (\<lambda>_. num 7) ?q) = []" by code_simp
  moreover have "reads_all rev" by (simp add: reads_all_def)
  ultimately show ?thesis
    using history_is_scoped_and_bounded [where plan = rev and parse = "\<lambda>_. num 7" and q = ?q, OF demo_recorded_inv]
    by (fastforce simp: asked_number_def split: prod.splits sum.splits)
qed


theorem spoiled_user_reference_loses_the_movement_witness:
  "\<forall>m. onTransactionRecorded (\<lambda>_. None) quiet_traffic
     (msg_payload (movement_message (demo_payment\<lparr>metadata := Some [(''user_reference'', String ''customer 7'')]\<rparr>) ''c'' 0 m))
     demo_ledger = (Ack, demo_ledger)"
proof
  fix m
  have "property_of ''user_reference'' [(''user_reference'', String ''customer 7'')] = String ''customer 7''"
    and "\<not> referencePattern ''usr'' ''customer 7''"
    by code_simp+
  then show "onTransactionRecorded (\<lambda>_. None) quiet_traffic
     (msg_payload (movement_message (demo_payment\<lparr>metadata := Some [(''user_reference'', String ''customer 7'')]\<rparr>) ''c'' 0 m))
     demo_ledger = (Ack, demo_ledger)"
    by (intro spoiled_user_reference_loses_the_movement) simp_all
qed

section \<open>The relay\<close>

definition demo_relay :: relay where
  "demo_relay =
     \<lparr>tables = \<lparr>payments = [], idempotency_keys = [],
        outbox = [outbox_row 0 0 \<lparr>msg_aggregateReference = demo_name, msg_eventType = ''payment.declined'', msg_payload = []\<rparr>]\<rparr>,
      broker = [], emit_script = (\<lambda>_. Acknowledged), emits = 0, peers_sent = (\<lambda>_. []),
      pass_script = (\<lambda>_. \<lparr>tx_others = (\<lambda>d. d), tx_fate = TxCommits\<rparr>), busy = (\<lambda>_ _. False), passes = 0,
      relay_clock = (\<lambda>n. n), relay_reads = 0\<rparr>"

theorem relay_delivers_before_it_marks_witness:
  "outbox_inv (broker (snd (drain False demo_relay))) (tables (snd (drain False demo_relay)))"
  using relay_delivers_before_it_marks [of demo_relay False]
  by (simp add: demo_relay_def outbox_inv_def outbox_row_def relay_legit_def)

theorem relay_makes_progress_witness:
  "\<exists>sent t. drain False demo_relay = (Inr (), t) \<and> sent_from sent demo_relay t
     \<and> (length sent = 50 \<or> filter (due 0) (outbox (tables t)) = [])"
  using relay_makes_progress [of demo_relay 0] by (auto simp: demo_relay_def working_def outbox_row_def)

definition demo_stuck :: OutboxRow where
  "demo_stuck = (outbox_row 0 0 \<lparr>msg_aggregateReference = demo_name, msg_eventType = ''payment.declined'', msg_payload = []\<rparr>)
     \<lparr>attempts := 10, last_error := Some ''Error: broker down''\<rparr>"

theorem exhausted_message_waits_for_the_operator_witness:
  "needs_attention (metrics 5 \<lparr>payments = [], idempotency_keys = [], outbox = [demo_stuck]\<rparr>)
   \<and> fst (retryOutbox (\<lambda>_. ''0b5c2f1e-9d3a-4c77-8f10-2a6b4e8d9c01'') ''0B5C2F1E-9D3A-4C77-8F10-2A6B4E8D9C01'' 5
       \<lparr>payments = [], idempotency_keys = [], outbox = [demo_stuck]\<rparr>) = Inr True"
proof -
  let ?d = "\<lparr>payments = [], idempotency_keys = [], outbox = [demo_stuck]\<rparr>"
  have "exhausted demo_stuck" by (simp add: demo_stuck_def exhausted_def outbox_row_def OUTBOX_MAX_ATTEMPTS_def)
  moreover have "isUuid ''0B5C2F1E-9D3A-4C77-8F10-2A6B4E8D9C01''" by code_simp
  moreover have "map lower_char ''0B5C2F1E-9D3A-4C77-8F10-2A6B4E8D9C01'' = ''0b5c2f1e-9d3a-4c77-8f10-2a6b4e8d9c01''" by code_simp
  ultimately show ?thesis
    using exhausted_message_waits_for_the_operator [of demo_stuck ?d "\<lambda>_. ''0b5c2f1e-9d3a-4c77-8f10-2a6b4e8d9c01''"
        "''0B5C2F1E-9D3A-4C77-8F10-2A6B4E8D9C01''" 5] by auto
qed

end
