(* ===== verification/Client_Properties.thy ===== *)
theory Client_Properties
  imports Accounts_Contract
begin

text \<open>
  The client under load and failure: how many exchanges and how much waiting one call costs, what an open
  circuit does, when it opens and how it closes again.
\<close>

section \<open>Calls\<close>

datatype call =
    Move string TransactionType Reference Money string MovementDetails
  | Find Reference string

text \<open>One call of the adapter: the error it threw, if any, and the network it left.\<close>

fun run_call :: "call \<Rightarrow> network \<Rightarrow> exn option \<times> network" where
  "run_call (Move operation type w m k d) net =
     (case movement operation type w m k d net of (Inl e, t) \<Rightarrow> (Some e, t) | (Inr _, t) \<Rightarrow> (None, t))"
| "run_call (Find w k) net =
     (case client_findMovement w k net of (Inl e, t) \<Rightarrow> (Some e, t) | (Inr _, t) \<Rightarrow> (None, t))"

fun run_sequence :: "call list \<Rightarrow> network \<Rightarrow> exn option list \<times> network" where
  "run_sequence [] net = ([], net)"
| "run_sequence (c # cs) net =
     (case run_call c net of (outcome, t) \<Rightarrow> (case run_sequence cs t of (outcomes, u) \<Rightarrow> (outcome # outcomes, u)))"

section \<open>The cost of a call\<close>

definition costs :: "nat \<Rightarrow> nat \<Rightarrow> network \<Rightarrow> network \<Rightarrow> bool" where
  "costs n k s t \<longleftrightarrow> config t = config s \<and> jitter t = jitter s \<and> weather t = weather s \<and> exchanges t \<le> exchanges s + n
     \<and> (\<exists>more. slept t = slept s @ more \<and> length more \<le> k
         \<and> ((\<forall>n. jitter s n < 2 ^ 53) \<longrightarrow> (\<forall>d \<in> set more. d \<le> timeoutMs (config s))))"

lemma costs_refl [simp]: "costs n k s s"
  by (simp add: costs_def)

lemma costs_trans:
  assumes "costs a b s t" and "costs c d t u" and "a + c \<le> n" and "b + d \<le> k"
  shows "costs n k s u"
proof -
  let ?short = "\<lambda>more. (\<forall>n. jitter s n < 2 ^ 53) \<longrightarrow> (\<forall>d \<in> set more. d \<le> timeoutMs (config s))"
  obtain xs where xs: "slept t = slept s @ xs" "length xs \<le> b" "?short xs"
    using assms(1) by (auto simp: costs_def)
  obtain ys where ys: "slept u = slept t @ ys" "length ys \<le> d" "?short ys"
    using assms(1,2) by (auto simp: costs_def)
  have "\<exists>more. slept u = slept s @ more \<and> length more \<le> k \<and> ?short more"
    using xs ys assms(4) by (intro exI [of _ "xs @ ys"]) auto
  then show ?thesis using assms(1-3) by (simp add: costs_def)
qed

lemma costs_mono: "costs a b s t \<Longrightarrow> a \<le> n \<Longrightarrow> b \<le> k \<Longrightarrow> costs n k s t"
  unfolding costs_def by (elim conjE exE, intro conjI exI) auto

lemma costs_frame [simp]:
  "costs n k s (t\<lparr>breaker := b\<rparr>) = costs n k s t" "costs n k s (t\<lparr>ticks := c\<rparr>) = costs n k s t"
  "costs n k s (t\<lparr>server := d\<rparr>) = costs n k s t" "costs n k s (t\<lparr>in_flight := fs\<rparr>) = costs n k s t"
  "costs n k (s\<lparr>breaker := b\<rparr>) t = costs n k s t" "costs n k (s\<lparr>ticks := c\<rparr>) t = costs n k s t"
  by (simp_all add: costs_def)

lemma land_costs: "costs 0 0 s (land xs s)"
proof (induction xs s rule: land.induct)
  case (2 i other rest net)
  let ?next = "if i < length (in_flight net)
    then net\<lparr>server := snd (handle_post (config net) other (in_flight net ! i) (server net)),
             in_flight := remove_nth i (in_flight net)\<rparr> else net"
  have "costs 0 0 net ?next" by simp
  from costs_trans [OF this 2] show ?case by simp
qed simp

lemma begin_exchange_costs: "costs 1 0 s (begin_exchange s)"
proof -
  have "costs 0 0 s (land (arrivals (weather s (exchanges s))) s)" by (rule land_costs)
  then show ?thesis by (auto simp: costs_def begin_exchange_def Let_def)
qed

lemma http_costs: "wp (http_post f) (\<lambda>_. costs 1 0 s) (\<lambda>_. costs 1 0 s) s"
  "wp (http_get w k) (\<lambda>_. costs 1 0 s) (\<lambda>_. costs 1 0 s) s"
  using begin_exchange_costs [of s]
  by (auto simp: wp_def http_post_def http_get_def Let_def split: fate.splits prod.splits)

abbreviation cost_wp :: "nat \<Rightarrow> nat \<Rightarrow> network \<Rightarrow> (network, exn, 'a) prog \<Rightarrow> network \<Rightarrow> bool" where
  "cost_wp n k s m t \<equiv> wp m (\<lambda>_. costs n k s) (\<lambda>_. costs n k s) t"

lemma attempt_costs: "cost_wp 1 0 s (attempt_post f) s" "cost_wp 1 0 s (attempt_get w k) s"
  unfolding attempt_post_def attempt_get_def wp_andThen
  by (rule wp_mono [OF http_costs(1)] wp_mono [OF http_costs(2)]; auto simp: wp_simps split: option.splits sum.splits)+

lemma sleep_costs:
  assumes "costs a b s t"
  shows "cost_wp a (Suc b) s (sleep_backoff attempt) t"
proof -
  let ?delay = "backoffDelay attempt \<lparr>baseMs = 100, maxMs = timeoutMs (config t)\<rparr> (jitter t (length (slept t)))"
  have "?delay \<le> timeoutMs (config t)" if "\<forall>n. jitter t n < 2 ^ 53"
    using that backoffDelay_bound [of "jitter t (length (slept t))" attempt "\<lparr>baseMs = 100, maxMs = timeoutMs (config t)\<rparr>"]
    by simp
  then have "costs 0 1 t (t\<lparr>slept := slept t @ [?delay]\<rparr>)" by (simp add: costs_def)
  from costs_trans [OF assms this] show ?thesis by (simp add: sleep_backoff_def wp_writes)
qed

lemma send_loop_costs:
  assumes "costs a b s t"
  shows "cost_wp (a + left) (b + (left - 1)) s (send_loop operation f attempt left lastError) t"
  using assms
proof (induction left arbitrary: a b t attempt lastError)
  case (Suc left)
  have retry: "cost_wp (a + Suc left) (b + left) s (andThen (sleep_backoff attempt) (\<lambda>_. send_loop operation f (attempt + 1) left (Some e))) u"
    if u: "costs (a + 1) b s u" and "left \<noteq> 0" for e u
    unfolding wp_andThen
    by (rule wp_mono [OF sleep_costs [OF u]], rule wp_mono [OF Suc.IH])
      (use \<open>left \<noteq> 0\<close> in \<open>auto elim: costs_mono\<close>)
  show ?case unfolding send_loop.simps wp_catching
  proof (rule wp_mono [OF attempt_costs(1)], goal_cases)
    case (1 x u)
    then show ?case using Suc.prems by (auto elim: costs_trans)
  next
    case (2 e u)
    then have "costs (a + 1) b s u" using Suc.prems by (auto elim: costs_trans)
    then show ?case using retry [of u e] by (auto simp: wp_if wp_throw elim: costs_mono)
  qed
qed (simp add: wp_throw)

lemma read_loop_costs:
  assumes "costs a b s t"
  shows "cost_wp (a + left) (b + (left - 1)) s (read_loop w k attempt left lastError) t"
  using assms
proof (induction left arbitrary: a b t attempt lastError)
  case (Suc left)
  have retry: "cost_wp (a + Suc left) (b + left) s (andThen (sleep_backoff attempt) (\<lambda>_. read_loop w k (attempt + 1) left (Some e))) u"
    if u: "costs (a + 1) b s u" and "left \<noteq> 0" for e u
    unfolding wp_andThen
    by (rule wp_mono [OF sleep_costs [OF u]], rule wp_mono [OF Suc.IH])
      (use \<open>left \<noteq> 0\<close> in \<open>auto elim: costs_mono\<close>)
  show ?case unfolding read_loop.simps wp_catching
  proof (rule wp_mono [OF attempt_costs(2)], goal_cases)
    case (1 x u)
    then show ?case using Suc.prems by (auto elim: costs_trans)
  next
    case (2 e u)
    then have "costs (a + 1) b s u" using Suc.prems by (auto elim: costs_trans)
    then show ?case using retry [of u e] by (auto simp: wp_if wp_throw elim: costs_mono)
  qed
qed (simp add: wp_throw)

lemma execute_costs:
  assumes "\<And>t. costs 0 0 s t \<Longrightarrow> cost_wp n k s work t"
  shows "cost_wp n k s (execute work) s"
proof -
  have "cost_wp n k s (catching (andThen work (\<lambda>result. andThen (on_breaker onSuccess) (\<lambda>_. ret result)))
       (\<lambda>error. andThen breaker_now (\<lambda>now. andThen (on_breaker (\<lambda>opts. onFailure opts now)) (\<lambda>_. throw error)))) t"
    if "costs 0 0 s t" for t
    unfolding wp_catching wp_andThen
    by (rule wp_mono [OF assms [OF that]]) (auto simp: wp_ret wp_throw wp_on_breaker wp_breaker_now)
  then show ?thesis
    by (simp add: execute_def wp_andThen wp_reads wp_if wp_ret wp_throw wp_writes wp_breaker_now del: wp_catching split: option.split)
qed

lemma loop_costs:
  assumes "costs 0 0 s t"
  shows "cost_wp (maxAttempts (config s)) (maxAttempts (config s) - 1) s (send operation f) t"
    "cost_wp (maxAttempts (config s)) (maxAttempts (config s) - 1) s (read w k) t"
  using send_loop_costs [OF assms, where left = "maxAttempts (config s)" and operation = operation and f = f and attempt = 1 and lastError = None]
    read_loop_costs [OF assms, where left = "maxAttempts (config s)" and w = w and k = k and attempt = 1 and lastError = None] assms
  by (simp_all add: send_def read_def wp_andThen wp_reads costs_def [of 0 0])

lemma sending_costs:
  "cost_wp (maxAttempts (config s)) (maxAttempts (config s) - 1) s (execute (send operation f)) s"
  "cost_wp (maxAttempts (config s)) (maxAttempts (config s) - 1) s (execute (read w k)) s"
  by (rule execute_costs, erule loop_costs)+

lemma run_call_costs:
  "costs (maxAttempts (config s)) (maxAttempts (config s) - 1) s (snd (run_call c s))"
proof (cases c)
  case (Move operation type w m k d)
  have "cost_wp (maxAttempts (config s)) (maxAttempts (config s) - 1) s (movement operation type w m k d) s"
    unfolding movement_def wp_catching wp_andThen
    by (rule wp_mono [OF sending_costs(1)])
      (auto simp: wp_raiseInl wp_if wp_throw wp_andThen wp_on_breaker split: sum.split)
  then show ?thesis by (auto simp: Move wp_def split: prod.splits sum.splits)
next
  case (Find w k)
  have "cost_wp (maxAttempts (config s)) (maxAttempts (config s) - 1) s (client_findMovement w k) s"
    unfolding client_findMovement_def wp_catching wp_andThen
    by (rule wp_mono [OF sending_costs(2)])
      (auto simp: wp_raiseInl wp_if wp_throw wp_andThen wp_ret split: sum.split option.split)
  then show ?thesis by (auto simp: Find wp_def split: prod.splits sum.splits)
qed

text \<open>
  Property C26. A call to the accounts service is bounded, whatever the network does: it makes at most
  \<open>maxAttempts\<close> exchanges and pauses at most \<open>maxAttempts - 1\<close> times between them, and every pause is
  at most the timeout of one request, which bounds their sum.
\<close>

theorem client_call_is_bounded:
  assumes "\<forall>n. jitter s n < 2 ^ 53" and "run_call c s = (outcome, t)"
  shows "\<exists>pauses. exchanges t \<le> exchanges s + maxAttempts (config s) \<and> slept t = slept s @ pauses
    \<and> length pauses \<le> maxAttempts (config s) - 1 \<and> (\<forall>d \<in> set pauses. d \<le> timeoutMs (config s))
    \<and> sum_list pauses \<le> (maxAttempts (config s) - 1) * timeoutMs (config s)"
proof -
  obtain pauses where p: "exchanges t \<le> exchanges s + maxAttempts (config s)" "slept t = slept s @ pauses"
    "length pauses \<le> maxAttempts (config s) - 1" "\<forall>d \<in> set pauses. d \<le> timeoutMs (config s)"
    using run_call_costs [of s c] assms by (auto simp: costs_def)
  have "sum_list pauses \<le> length pauses * timeoutMs (config s)"
    using p(4) by (induction pauses) (auto simp: add_mono)
  also have "\<dots> \<le> (maxAttempts (config s) - 1) * timeoutMs (config s)" using p(3) by (rule mult_le_mono1)
  finally show ?thesis using p by blast
qed

section \<open>The circuit\<close>

fun call_name :: "call \<Rightarrow> string" where
  "call_name (Move operation _ _ _ _ _) = operation"
| "call_name (Find _ _) = ''find-movement''"

definition cooling :: "network \<Rightarrow> bool" where
  "cooling s \<longleftrightarrow> circuit (breaker s) = Open
     \<and> below (int (breaker_clock s (ticks s)) - int (openedAt (breaker s))) (openMs (breaker_options (config s)))"

lemma execute_cooling:
  assumes "cooling s"
  shows "execute work s = (Inl CircuitOpenError, s\<lparr>ticks := ticks s + 1\<rparr>)"
  using assms by (simp add: cooling_def execute_def andThen_def reads_def breaker_now_def admit_def throw_def)

lemma cooling_call:
  assumes "cooling s"
  shows "run_call c s = (Some (Domain (AccountsUnavailableError (call_name c) (Some ''circuit open''))), s\<lparr>ticks := ticks s + 1\<rparr>)"
  by (cases c) (simp_all add: movement_def client_findMovement_def catching_def tryCatch_def andThen_def throw_def
      execute_cooling [OF assms])

text \<open>
  While the circuit is open and cooling down nothing is sent: a call fails at once with
  \<open>AccountsUnavailableError\<close> and touches nothing but the reading of the clock.
\<close>

theorem open_circuit_sends_nothing:
  assumes "cooling s"
  shows "run_call c s = (Some (Domain (AccountsUnavailableError (call_name c) (Some ''circuit open''))), s\<lparr>ticks := ticks s + 1\<rparr>)"
  using assms by (rule cooling_call)

text \<open>No exchange is answered, no worker shares the breaker, and the process does not die.\<close>

fun unanswered :: "fate \<Rightarrow> bool" where
  "unanswered (Answered _) = False"
| "unanswered (ReplyLost _ e) = (e \<noteq> Crash)"
| "unanswered (RequestLost e) = (e \<noteq> Crash)"
| "unanswered (StillInFlight e) = (e \<noteq> Crash)"

definition unreachable :: "network \<Rightarrow> bool" where
  "unreachable s \<longleftrightarrow> (\<forall>n. unanswered (exchange_fate (weather s n)) \<and> shared (weather s n) = (\<lambda>b. b))"

definition same_breaker :: "network \<Rightarrow> network \<Rightarrow> bool" where
  "same_breaker s t \<longleftrightarrow> breaker t = breaker s \<and> weather t = weather s \<and> config t = config s"

definition lost :: "network \<Rightarrow> exn \<Rightarrow> network \<Rightarrow> bool" where
  "lost s e t \<longleftrightarrow> same_breaker s t \<and> \<not> isDomainError e \<and> e \<noteq> ProcessDied \<and> e \<noteq> CircuitOpenError"

lemma same_breaker_land: "same_breaker s (land xs s)"
  by (induction xs s rule: land.induct) (auto simp: same_breaker_def)

lemma failure_exn_lost: "e \<noteq> Crash \<Longrightarrow> failure_exn e \<noteq> ProcessDied \<and> failure_exn e \<noteq> CircuitOpenError"
  by (cases e) simp_all

lemma http_lost:
  assumes "unreachable s"
  shows "wp (http_post f) (\<lambda>_ _. False) (lost s) s" "wp (http_get w k) (\<lambda>_ _. False) (lost s) s"
proof -
  have "same_breaker s (begin_exchange s)"
    using same_breaker_land [of s "arrivals (weather s (exchanges s))"] assms
    by (simp add: begin_exchange_def Let_def same_breaker_def unreachable_def)
  moreover have "unanswered (exchange_fate (weather s (exchanges s)))" using assms by (simp add: unreachable_def)
  ultimately show "wp (http_post f) (\<lambda>_ _. False) (lost s) s" "wp (http_get w k) (\<lambda>_ _. False) (lost s) s"
    by (auto simp: wp_def http_post_def http_get_def Let_def lost_def same_breaker_def failure_exn_not_domain failure_exn_lost
        split: fate.splits)
qed

lemma lost_trans: "same_breaker s t \<Longrightarrow> lost t e u \<Longrightarrow> lost s e u"
  by (simp add: lost_def same_breaker_def)

lemma loops_lost:
  assumes "unreachable s" and "same_breaker s t" and "0 < left"
  shows "wp (send_loop operation f attempt left lastError) (\<lambda>_ _. False) (lost s) t"
    "wp (read_loop w k attempt left lastError) (\<lambda>_ _. False) (lost s) t"
proof -
  have still: "unreachable u" if "same_breaker s u" for u using assms(1) that by (simp add: unreachable_def same_breaker_def)
  have sleeps: "wp (sleep_backoff attempt) (\<lambda>_. same_breaker s) E u" if "same_breaker s u" for attempt E u
    using that by (simp add: sleep_backoff_def wp_writes same_breaker_def)
  from assms(2,3) show "wp (send_loop operation f attempt left lastError) (\<lambda>_ _. False) (lost s) t"
  proof (induction left arbitrary: attempt lastError t)
    case (Suc left)
    show ?case unfolding send_loop.simps wp_catching attempt_post_def wp_andThen [where m = "http_post f"]
    proof (rule wp_mono [OF http_lost(1) [OF still [OF Suc.prems(1)]]], goal_cases)
      case (2 e u)
      then have e: "lost s e u" using Suc.prems(1) lost_trans by blast
      then have "wp (andThen (sleep_backoff attempt) (\<lambda>_. send_loop operation f (attempt + 1) left (Some e))) (\<lambda>_ _. False) (lost s) u"
        if "left \<noteq> 0" unfolding wp_andThen using that
        by (intro wp_mono [OF sleeps]) (auto simp: lost_def intro: Suc.IH)
      then show ?case using e by (auto simp: wp_if wp_throw lost_def)
    qed simp
  qed simp
  from assms(2,3) show "wp (read_loop w k attempt left lastError) (\<lambda>_ _. False) (lost s) t"
  proof (induction left arbitrary: attempt lastError t)
    case (Suc left)
    show ?case unfolding read_loop.simps wp_catching attempt_get_def wp_andThen [where m = "http_get w k"]
    proof (rule wp_mono [OF http_lost(2) [OF still [OF Suc.prems(1)]]], goal_cases)
      case (2 e u)
      then have e: "lost s e u" using Suc.prems(1) lost_trans by blast
      then have "wp (andThen (sleep_backoff attempt) (\<lambda>_. read_loop w k (attempt + 1) left (Some e))) (\<lambda>_ _. False) (lost s) u"
        if "left \<noteq> 0" unfolding wp_andThen using that
        by (intro wp_mono [OF sleeps]) (auto simp: lost_def intro: Suc.IH)
      then show ?case using e by (auto simp: wp_if wp_throw lost_def)
    qed simp
  qed simp
qed

definition counted :: "network \<Rightarrow> exn \<Rightarrow> network \<Rightarrow> bool" where
  "counted s e t \<longleftrightarrow> weather t = weather s \<and> config t = config s \<and> \<not> isDomainError e \<and> e \<noteq> ProcessDied \<and> e \<noteq> CircuitOpenError
     \<and> (\<exists>now. breaker t = onFailure (breaker_options (config s)) now (breaker s))"

lemma execute_counts:
  assumes "circuit (breaker s) = Closed" and "wp work (\<lambda>_ _. False) (lost s) s"
  shows "wp (execute work) (\<lambda>_ _. False) (counted s) s"
proof -
  have "wp (catching (andThen work (\<lambda>result. andThen (on_breaker onSuccess) (\<lambda>_. ret result)))
       (\<lambda>error. andThen breaker_now (\<lambda>now. andThen (on_breaker (\<lambda>opts. onFailure opts now)) (\<lambda>_. throw error))))
       (\<lambda>_ _. False) (counted s) s"
    unfolding wp_catching wp_andThen
    by (rule wp_mono [OF assms(2)])
      (auto simp: wp_throw wp_on_breaker wp_breaker_now lost_def same_breaker_def counted_def)
  then show ?thesis using assms(1)
    by (simp add: execute_def wp_andThen wp_reads wp_if wp_ret del: wp_catching)
qed

lemma call_counts:
  assumes "unreachable s" and "circuit (breaker s) = Closed" and "0 < maxAttempts (config s)"
  shows "\<exists>cause t e. run_call c s = (Some (Domain (AccountsUnavailableError (call_name c) cause)), t) \<and> counted s e t"
proof (cases c)
  case (Move operation type w m k d)
  let ?f = "\<lparr>fl_type = type, fl_wallet = value w, fl_body = movement_body m k d\<rparr>"
  have "wp (send operation ?f) (\<lambda>_ _. False) (lost s) s"
    using loops_lost(1) [OF assms(1) _ assms(3)] by (simp add: send_def wp_andThen wp_reads same_breaker_def)
  from execute_counts [OF assms(2) this]
  obtain e t where "execute (send operation ?f) s = (Inl e, t)" "counted s e t"
    by (auto simp: wp_def split: prod.splits sum.splits)
  then show ?thesis
    by (intro exI [of _ "Some (describe e)"] exI [of _ t] exI [of _ e])
      (simp add: Move movement_def catching_def tryCatch_def andThen_def throw_def counted_def)
next
  case (Find w k)
  have "wp (read (value w) k) (\<lambda>_ _. False) (lost s) s"
    using loops_lost(2) [OF assms(1) _ assms(3)] by (simp add: read_def wp_andThen wp_reads same_breaker_def)
  from execute_counts [OF assms(2) this]
  obtain e t where "execute (read (value w) k) s = (Inl e, t)" "counted s e t"
    by (auto simp: wp_def split: prod.splits sum.splits)
  then show ?thesis
    by (intro exI [of _ "Some (describe e)"] exI [of _ t] exI [of _ e])
      (simp add: Find client_findMovement_def catching_def tryCatch_def andThen_def throw_def counted_def)
qed

fun is_unavailable_outcome :: "exn option \<Rightarrow> bool" where
  "is_unavailable_outcome (Some e) = is_unavailable e"
| "is_unavailable_outcome None = False"

lemma calls_count:
  assumes "unreachable s" and "circuit (breaker s) = Closed" and "0 < maxAttempts (config s)"
    and "failureThreshold (breaker_options (config s)) = num (int limit)"
    and "failures (breaker s) + length cs \<le> limit" and "failures (breaker s) < limit"
    and "run_sequence cs s = (outcomes, t)"
  shows "list_all is_unavailable_outcome outcomes \<and> failures (breaker t) = failures (breaker s) + length cs
    \<and> circuit (breaker t) = (if failures (breaker s) + length cs < limit then Closed else Open)"
  using assms
proof (induction cs arbitrary: s outcomes)
  case (Cons c cs)
  obtain cause u e where run: "run_call c s = (Some (Domain (AccountsUnavailableError (call_name c) cause)), u)" "counted s e u"
    using call_counts [OF Cons.prems(1-3)] by blast
  obtain more where more: "run_sequence cs u = (more, t)" "outcomes = Some (Domain (AccountsUnavailableError (call_name c) cause)) # more"
    using Cons.prems(7) run(1) by (auto split: prod.splits)
  have u: "failures (breaker u) = Suc (failures (breaker s))" "config u = config s" "unreachable u"
    "circuit (breaker u) = (if Suc (failures (breaker s)) < limit then Closed else Open)"
    using run(2) Cons.prems(1,2,4) by (auto simp: counted_def onFailure_def Let_def unreachable_def)
  show ?case
  proof (cases "Suc (failures (breaker s)) < limit")
    case True
    then show ?thesis using Cons.IH [OF u(3) _ _ _ _ _ more(1)] u more(2) Cons.prems(3-5) by simp
  next
    case False
    then have "cs = []" using Cons.prems(5) by (cases cs) simp_all
    then show ?thesis using u more False by simp
  qed
qed simp

text \<open>
  Property C30. An unreachable service opens the circuit exactly at the threshold: from a closed circuit
  every call that gets no answer fails with \<open>AccountsUnavailableError\<close> and counts once, the circuit
  stays closed below \<open>failureThreshold\<close> calls and is open after that many.
\<close>

theorem unreachable_service_opens_the_circuit:
  assumes "unreachable s" and "circuit (breaker s) = Closed" and "failures (breaker s) = 0"
    and "0 < maxAttempts (config s)" and "failureThreshold (breaker_options (config s)) = num (int limit)" and "0 < limit"
    and "length cs \<le> limit" and "run_sequence cs s = (outcomes, t)"
  shows "list_all is_unavailable_outcome outcomes \<and> length outcomes = length cs
    \<and> (circuit (breaker t) = Open \<longleftrightarrow> length cs = limit)"
proof -
  have "length outcomes = length cs" using assms(8)
    by (induction cs arbitrary: s outcomes) (auto split: prod.splits)
  with calls_count [OF assms(1,2,4,5) _ _ assms(8)] assms(3,6,7) show ?thesis by (auto split: if_splits)
qed

text \<open>
  A threshold that is no number never opens the circuit: the failures of an unreachable service pile
  up behind a closed breaker. The environment of the service does not declare the variable, so
  nothing refuses such a value at start-up.
\<close>

lemma circuit_without_threshold_never_opens:
  assumes "unreachable s" and "circuit (breaker s) = Closed" and "0 < maxAttempts (config s)"
    and "failureThreshold (breaker_options (config s)) = NaN" and "run_sequence cs s = (outcomes, t)"
  shows "circuit (breaker t) = Closed"
  using assms
proof (induction cs arbitrary: s outcomes)
  case (Cons c cs)
  obtain cause u e where run: "run_call c s = (Some (Domain (AccountsUnavailableError (call_name c) cause)), u)" "counted s e u"
    using call_counts [OF Cons.prems(1-3)] by blast
  obtain more where "run_sequence cs u = (more, t)"
    using Cons.prems(5) run(1) by (auto split: prod.splits)
  moreover have "unreachable u" "circuit (breaker u) = Closed" "config u = config s"
    using run(2) Cons.prems(1,2,4) by (auto simp: counted_def onFailure_def Let_def unreachable_def)
  ultimately show ?case using Cons.IH Cons.prems(3,4) by simp
qed simp

definition answered :: "exn option \<Rightarrow> bool" where
  "answered outcome \<longleftrightarrow> outcome = None \<or> (\<exists>e. outcome = Some (Domain e) \<and> \<not> is_unavailable (Domain e))"

lemma onSuccess_closes:
  "successThreshold opts = num 1 \<Longrightarrow> circuit (onSuccess opts b) = Closed \<and> failures (onSuccess opts b) = 0"
  by (simp add: onSuccess_def Let_def)

definition closed :: "network \<Rightarrow> bool" where
  "closed t \<longleftrightarrow> circuit (breaker t) = Closed \<and> failures (breaker t) = 0"

lemma execute_closes:
  assumes "successThreshold (breaker_options (config s)) = num 1" and "\<And>t. costs 0 0 s t \<Longrightarrow> cost_wp n k s work t"
  shows "wp (execute work) (\<lambda>_. closed) (\<lambda>_ t. config t = config s) s"
proof -
  have "wp (catching (andThen work (\<lambda>result. andThen (on_breaker onSuccess) (\<lambda>_. ret result)))
       (\<lambda>error. andThen breaker_now (\<lambda>now. andThen (on_breaker (\<lambda>opts. onFailure opts now)) (\<lambda>_. throw error))))
       (\<lambda>_. closed) (\<lambda>_ t. config t = config s) t"
    if "costs 0 0 s t" for t
    unfolding wp_catching wp_andThen
    by (rule wp_mono [OF assms(2) [OF that]])
      (use assms(1) in \<open>auto simp: wp_ret wp_throw wp_on_breaker wp_breaker_now costs_def closed_def onSuccess_closes\<close>)
  then show ?thesis
    by (simp add: execute_def wp_andThen wp_reads wp_if wp_ret wp_throw wp_writes wp_breaker_now del: wp_catching split: option.split)
qed

text \<open>
  The circuit recovers: once the cooling time is over a call is admitted again, and a call
  that is answered, with a result or with a refusal, leaves the circuit closed with no failure
  counted, whatever state it was in and whatever the other workers did.
\<close>

theorem answered_call_closes_the_circuit:
  assumes "successThreshold (breaker_options (config s)) = num 1" and "run_call c s = (outcome, t)" and "answered outcome"
  shows "\<not> cooling s \<and> circuit (breaker t) = Closed \<and> failures (breaker t) = 0"
proof -
  let ?n = "maxAttempts (config s)"
  have sends: "cost_wp ?n (?n - 1) s (send operation f) u" and looks: "cost_wp ?n (?n - 1) s (read w k) u"
    if "costs 0 0 s u" for operation f w k u
    using loop_costs [OF that] by simp_all
  have "circuit (breaker t) = Closed \<and> failures (breaker t) = 0"
  proof (cases c)
    case (Move operation type w m k d)
    have "wp (movement operation type w m k d) (\<lambda>_. closed) (\<lambda>e u. is_unavailable e \<or> e = ProcessDied \<or> closed u) s"
      unfolding movement_def wp_catching wp_andThen
      by (rule wp_mono [OF execute_closes [OF assms(1) sends]])
        (use assms(1) toMovementResult_Inl in \<open>auto simp: wp_raiseInl wp_if wp_throw wp_andThen wp_on_breaker closed_def
          recordHealthy_def onSuccess_closes split: sum.split\<close>)
    then show ?thesis using assms(2,3)
      by (auto simp: Move wp_def answered_def closed_def split: prod.splits sum.splits)
  next
    case (Find w k)
    have "wp (client_findMovement w k) (\<lambda>_. closed) (\<lambda>e _. is_unavailable e \<or> e = ProcessDied) s"
      unfolding client_findMovement_def wp_catching wp_andThen
      by (rule wp_mono [OF execute_closes [OF assms(1) looks]])
        (auto simp: wp_raiseInl wp_if wp_throw wp_andThen wp_ret split: sum.split option.split)
    then show ?thesis using assms(2,3)
      by (auto simp: Find wp_def answered_def closed_def split: prod.splits sum.splits)
  qed
  moreover have "\<not> cooling s"
  proof
    assume "cooling s"
    then have "outcome = Some (Domain (AccountsUnavailableError (call_name c) (Some ''circuit open'')))"
      using assms(2) cooling_call [of s c] by simp
    then show False using assms(3) by (simp add: answered_def)
  qed
  ultimately show ?thesis by simp
qed

end
