(* ===== verification/Client_Scenarios.thy ===== *)
theory Client_Scenarios
  imports Client_Properties Concrete_World
begin

text \<open>
  A concrete client with three attempts and a threshold of two: the witnesses of \<open>Client_Properties\<close>.
\<close>

definition demo_wire :: "(nat \<Rightarrow> fate) \<Rightarrow> CircuitBreaker \<Rightarrow> network" where
  "demo_wire answer b =
     \<lparr>config = \<lparr>credentials = demo_credentials, apiKeyHeader = ''demo-key'', apiSecretHeader = ''demo-secret'',
        timeoutMs = 3000, maxAttempts = 3,
        breaker_options = \<lparr>failureThreshold = num 2, openMs = num 10000, successThreshold = num 1\<rparr>\<rparr>,
      server = demo_books, in_flight = [],
      weather = (\<lambda>n. \<lparr>arrivals = [], others = (\<lambda>d. d), shared = (\<lambda>b. b), exchange_fate = answer n\<rparr>),
      exchanges = 0, breaker = b, breaker_clock = (\<lambda>n. n), ticks = 0, jitter = (\<lambda>_. 0), slept = []\<rparr>"

definition no_answer :: "nat \<Rightarrow> fate" where
  "no_answer n = RequestLost (Broken \<lparr>shape_status = None, shape_code = Some ''ECONNREFUSED'', timedOut = False\<rparr> ''refused'')"

definition demo_call :: call where
  "demo_call = Find \<lparr>prefix = ''wlt'', value = ''wlt_00000000010000000000000000''\<rparr> ''order-0001''"

theorem client_call_is_bounded_witness:
  "exchanges (snd (run_call demo_call (demo_wire no_answer new_breaker))) \<le> 3
    \<and> sum_list (slept (snd (run_call demo_call (demo_wire no_answer new_breaker)))) \<le> 6000"
  using client_call_is_bounded [of "demo_wire no_answer new_breaker" demo_call "fst (run_call demo_call (demo_wire no_answer new_breaker))"]
  by (auto simp: demo_wire_def)

theorem open_circuit_sends_nothing_witness:
  "exchanges (snd (run_call demo_call (demo_wire no_answer (new_breaker\<lparr>circuit := Open\<rparr>)))) = 0"
proof -
  have "cooling (demo_wire no_answer (new_breaker\<lparr>circuit := Open\<rparr>))"
    by (simp add: cooling_def demo_wire_def new_breaker_def)
  from open_circuit_sends_nothing [OF this] show ?thesis by (simp add: demo_wire_def)
qed

theorem unreachable_service_opens_the_circuit_witness:
  "circuit (breaker (snd (run_sequence [demo_call, demo_call] (demo_wire no_answer new_breaker)))) = Open"
proof -
  obtain outcomes t where run: "run_sequence [demo_call, demo_call] (demo_wire no_answer new_breaker) = (outcomes, t)" by (meson surj_pair)
  have "unreachable (demo_wire no_answer new_breaker)" by (simp add: unreachable_def demo_wire_def no_answer_def)
  from unreachable_service_opens_the_circuit [where limit = 2, OF this _ _ _ _ _ _ run] run show ?thesis
    by (simp add: demo_wire_def new_breaker_def)
qed

theorem answered_call_closes_the_circuit_witness:
  "circuit (breaker (snd (run_call demo_call (demo_wire (\<lambda>_. Answered calm) (new_breaker\<lparr>circuit := HalfOpen\<rparr>))))) = Closed"
proof -
  let ?s = "demo_wire (\<lambda>_. Answered calm) (new_breaker\<lparr>circuit := HalfOpen\<rparr>)"
  have "fst (run_call demo_call ?s) = None" by code_simp
  then have "answered (fst (run_call demo_call ?s))" by (simp add: answered_def)
  from answered_call_closes_the_circuit [of ?s demo_call, OF _ prod.collapse [symmetric] this] show ?thesis
    by (simp add: demo_wire_def)
qed

end
