(* ===== verification/Platform.thy ===== *)
theory Platform
  imports Accounts_Client "HOL-Library.Word"
begin

text \<open>
  What every service of the platform runs on before its own code: the rate limiter's buckets, the checks of
  the environment at start-up, the HTTP hardening and the correlation id of a request. The storage
  and the counting of \<open>@nestjs/throttler\<close>, and JavaScript's reading of a number from text, are
  arguments.
\<close>

section \<open>Rate limiting\<close>

record ThrottlerSettings =
  ttlMs :: js_number
  throttle_limit :: js_number
  strictLimit :: js_number
  internalLimit :: js_number

text \<open>\<open>variable name\<close> is \<open>Number\<close> of the environment variable, \<open>None\<close> when it is not set.\<close>

definition throttlerSettingsFrom :: "(string \<Rightarrow> js_number option) \<Rightarrow> ThrottlerSettings" where
  "throttlerSettingsFrom variable =
     (let or_else = (\<lambda>name n. case variable name of None \<Rightarrow> num n | Some v \<Rightarrow> v) in
      \<lparr>ttlMs = or_else ''RATE_LIMIT_TTL_MS'' 60000, throttle_limit = or_else ''RATE_LIMIT_LIMIT'' 120,
       strictLimit = or_else ''RATE_LIMIT_STRICT_LIMIT'' 20, internalLimit = or_else ''RATE_LIMIT_INTERNAL_LIMIT'' 1200\<rparr>)"

datatype throttle = Ordinary | StrictThrottle | InternalThrottle

text \<open>
  The window and the budget of a route: \<open>settings\<close> are those the module was built with, \<open>variable\<close> the
  environment when the request is served.
\<close>

fun budget :: "ThrottlerSettings \<Rightarrow> (string \<Rightarrow> js_number option) \<Rightarrow> throttle \<Rightarrow> js_number \<times> js_number" where
  "budget settings variable Ordinary = (ttlMs settings, throttle_limit settings)"
| "budget settings variable StrictThrottle =
     (ttlMs (throttlerSettingsFrom variable), strictLimit (throttlerSettingsFrom variable))"
| "budget settings variable InternalThrottle =
     (ttlMs (throttlerSettingsFrom variable), internalLimit (throttlerSettingsFrom variable))"

text \<open>\<open>x | 0\<close> and \<open>x >>> 0\<close> of an integer, and \<open>toString(36)\<close>.\<close>

definition toInt32 :: "int \<Rightarrow> int" where
  "toInt32 x = (x + 2 ^ 31) mod 2 ^ 32 - 2 ^ 31"

definition toUint32 :: "int \<Rightarrow> nat" where
  "toUint32 x = nat (x mod 2 ^ 32)"

definition digit36 :: "nat \<Rightarrow> char" where
  "digit36 d = char_of (if d < 10 then 48 + d else 87 + d)"

fun base36 :: "nat \<Rightarrow> string" where
  "base36 n = (if n < 36 then [digit36 n] else base36 (n div 36) @ [digit36 (n mod 36)])"

declare base36.simps [simp del]

fun fingerprint_loop :: "int \<Rightarrow> string \<Rightarrow> int" where
  "fingerprint_loop hash [] = hash"
| "fingerprint_loop hash (c # cs) = fingerprint_loop (toInt32 (hash * 31 + of_char c)) cs"

definition fingerprint :: "string \<Rightarrow> string" where
  "fingerprint v = base36 (toUint32 (fingerprint_loop 0 v))"

record throttled_request =
  api_key_header :: header
  ip :: "string option"
  remoteAddress :: "string option"

definition getTracker :: "throttled_request \<Rightarrow> string" where
  "getTracker r =
     (case api_key_header r of
        One k \<Rightarrow> if k \<noteq> [] then ''internal:'' @ fingerprint k
                 else (case ip r of Some a \<Rightarrow> a | None \<Rightarrow> (case remoteAddress r of Some a \<Rightarrow> a | None \<Rightarrow> ''unknown''))
      | _ \<Rightarrow> (case ip r of Some a \<Rightarrow> a | None \<Rightarrow> (case remoteAddress r of Some a \<Rightarrow> a | None \<Rightarrow> ''unknown'')))"

text \<open>
  The guard of an application that serves HTTP and consumes RabbitMQ; \<open>counted\<close> is \<open>super.canActivate\<close>,
  which counts the request in a bucket and answers whether it is within the budget.
\<close>

definition throttler_canActivate :: "string \<Rightarrow> (string \<Rightarrow> bool) \<Rightarrow> throttled_request \<Rightarrow> bool" where
  "throttler_canActivate context counted r = (if context \<noteq> ''http'' then True else counted (getTracker r))"

definition throwThrottlingException :: "nat \<Rightarrow> string \<times> 'p AppException" where
  "throwThrottlingException ttl = (show_nat ((ttl + 999) div 1000), RateLimitExceededException)"

section \<open>The environment\<close>

definition PLACEHOLDERS :: "string list" where
  "PLACEHOLDERS = [''change-me'', ''changeme'', ''dev-internal'', ''test-internal'', ''example'', ''paynad_pwd'']"

definition includes_text :: "string \<Rightarrow> string \<Rightarrow> bool" where
  "includes_text s m \<longleftrightarrow> list_ex (\<lambda>i. take (length m) (drop i s) = m) [0..<length s + 1]"

type_synonym env = "string \<Rightarrow> js_value"

text \<open>\<open>assertNoPlaceholderSecrets\<close>: the offenders, in the order of the error message; none lets the process boot.\<close>

definition placeholder_secrets :: "env \<Rightarrow> string list" where
  "placeholder_secrets env =
     (if text_of (env ''NODE_ENV'') \<noteq> ''production'' then []
      else filter (\<lambda>name. let v = toLowerCase (text_of (env name)) in
             length v > 0 \<and> list_ex (includes_text v) PLACEHOLDERS)
           [''INTERNAL_API_KEY'', ''INTERNAL_API_SECRET'', ''DB_PASSWORD''])"

datatype env_type = TextVariable | NumberVariable

record env_field =
  env_name :: string
  env_type :: env_type
  env_default :: "js_value option"
  env_rule :: "js_value \<Rightarrow> bool"

fun whole_between :: "int \<Rightarrow> int option \<Rightarrow> js_value \<Rightarrow> bool" where
  "whole_between low high (Number n) \<longleftrightarrow> isInteger n \<and> low \<le> integerOf n
     \<and> (case high of None \<Rightarrow> True | Some h \<Rightarrow> integerOf n \<le> h)"
| "whole_between low high _ \<longleftrightarrow> False"

fun text_at_least :: "nat \<Rightarrow> js_value \<Rightarrow> bool" where
  "text_at_least n (String s) \<longleftrightarrow> n \<le> length s"
| "text_at_least n _ \<longleftrightarrow> False"

definition text_variable :: "string \<Rightarrow> string option \<Rightarrow> nat \<Rightarrow> env_field" where
  "text_variable name preset n =
     \<lparr>env_name = name, env_type = TextVariable, env_default = map_option String preset, env_rule = text_at_least n\<rparr>"

definition number_variable :: "string \<Rightarrow> int \<Rightarrow> int \<Rightarrow> int option \<Rightarrow> env_field" where
  "number_variable name preset low high =
     \<lparr>env_name = name, env_type = NumberVariable, env_default = Some (Number (num preset)), env_rule = whole_between low high\<rparr>"

definition accounts_EnvConfig :: "env_field list" where
  "accounts_EnvConfig =
     [text_variable ''NODE_ENV'' (Some ''development'') 1, number_variable ''PORT'' 3001 1 (Some 65535),
      text_variable ''DB_HOST'' None 1, number_variable ''DB_PORT'' 5432 1 (Some 65535),
      text_variable ''DB_USER'' None 1, text_variable ''DB_PASSWORD'' None 1, text_variable ''DB_NAME'' None 1,
      text_variable ''RABBITMQ_URL'' None 1, text_variable ''INTERNAL_API_KEY'' None 16,
      text_variable ''INTERNAL_API_SECRET'' None 32, number_variable ''RATE_LIMIT_TTL_MS'' 60000 1000 None,
      number_variable ''RATE_LIMIT_LIMIT'' 120 1 None, number_variable ''RATE_LIMIT_STRICT_LIMIT'' 20 1 None,
      number_variable ''RATE_LIMIT_INTERNAL_LIMIT'' 1200 1 None]"

definition transactions_EnvConfig :: "env_field list" where
  "transactions_EnvConfig =
     [text_variable ''NODE_ENV'' (Some ''development'') 1, number_variable ''PORT'' 3002 1 (Some 65535),
      text_variable ''DB_HOST'' None 1, number_variable ''DB_PORT'' 5432 1 (Some 65535),
      text_variable ''DB_USER'' None 1, text_variable ''DB_PASSWORD'' None 1, text_variable ''DB_NAME'' None 1,
      text_variable ''RABBITMQ_URL'' None 1, number_variable ''RATE_LIMIT_TTL_MS'' 60000 1000 None,
      number_variable ''RATE_LIMIT_LIMIT'' 120 1 None, number_variable ''RATE_LIMIT_STRICT_LIMIT'' 20 1 None,
      number_variable ''RATE_LIMIT_INTERNAL_LIMIT'' 1200 1 None]"

definition payments_EnvConfig :: "env_field list" where
  "payments_EnvConfig =
     [text_variable ''NODE_ENV'' (Some ''development'') 1, number_variable ''PORT'' 3003 1 (Some 65535),
      text_variable ''DB_HOST'' None 1, number_variable ''DB_PORT'' 5432 1 (Some 65535),
      text_variable ''DB_USER'' None 1, text_variable ''DB_PASSWORD'' None 1, text_variable ''DB_NAME'' None 1,
      text_variable ''RABBITMQ_URL'' None 1, text_variable ''ACCOUNTS_SERVICE_URL'' None 1,
      text_variable ''INTERNAL_API_KEY'' None 16, text_variable ''INTERNAL_API_SECRET'' None 32,
      number_variable ''HTTP_TIMEOUT_MS'' 3000 100 None, number_variable ''HTTP_MAX_RETRIES'' 2 0 (Some 10),
      number_variable ''RATE_LIMIT_TTL_MS'' 60000 1000 None, number_variable ''RATE_LIMIT_LIMIT'' 120 1 None,
      number_variable ''RATE_LIMIT_STRICT_LIMIT'' 20 1 None, number_variable ''RATE_LIMIT_INTERNAL_LIMIT'' 1200 1 None]"

text \<open>
  \<open>plainToInstance(EnvConfig, raw, ..)\<close>: a declared variable is converted to the type of its field or takes
  its default, any other variable is copied as it is. \<open>parse\<close> is \<open>Number\<close> on text.
\<close>

definition config_of :: "(string \<Rightarrow> js_number) \<Rightarrow> env_field list \<Rightarrow> (string \<Rightarrow> string option) \<Rightarrow> env" where
  "config_of parse schema raw name =
     (case find (\<lambda>f. env_name f = name) schema of
        None \<Rightarrow> (case raw name of None \<Rightarrow> Undefined | Some t \<Rightarrow> String t)
      | Some f \<Rightarrow> (case raw name of
           None \<Rightarrow> (case env_default f of None \<Rightarrow> Undefined | Some v \<Rightarrow> v)
         | Some t \<Rightarrow> (case env_type f of TextVariable \<Rightarrow> String t | NumberVariable \<Rightarrow> Number (parse t))))"

datatype boot_error = InvalidEnvironment string "string list" | DevelopmentCredentials "string list"

definition validate_schema :: "string \<Rightarrow> env_field list \<Rightarrow> (string \<Rightarrow> js_number) \<Rightarrow> (string \<Rightarrow> string option) \<Rightarrow> boot_error + env" where
  "validate_schema service schema parse raw =
     (let config = config_of parse schema raw;
          errors = filter (\<lambda>f. \<not> env_rule f (config (env_name f))) schema in
      if errors \<noteq> [] then Inl (InvalidEnvironment service (map env_name errors))
      else if placeholder_secrets config \<noteq> [] then Inl (DevelopmentCredentials (placeholder_secrets config))
      else Inr config)"

definition accounts_validateEnv :: "(string \<Rightarrow> js_number) \<Rightarrow> (string \<Rightarrow> string option) \<Rightarrow> boot_error + env" where
  "accounts_validateEnv = validate_schema ''accounts'' accounts_EnvConfig"

definition transactions_validateEnv :: "(string \<Rightarrow> js_number) \<Rightarrow> (string \<Rightarrow> string option) \<Rightarrow> boot_error + env" where
  "transactions_validateEnv = validate_schema ''transactions'' transactions_EnvConfig"

definition payments_validateEnv :: "(string \<Rightarrow> js_number) \<Rightarrow> (string \<Rightarrow> string option) \<Rightarrow> boot_error + env" where
  "payments_validateEnv = validate_schema ''payments'' payments_EnvConfig"

text \<open>
  The settings \<open>AccountsHttpClient\<close> takes from a validated environment. No schema declares the two \<open>CIRCUIT_\<close>
  variables, so their text goes through \<open>Number\<close> unchecked. \<open>credentials\<close> is what the accounts service
  expects, deployed with the same two secrets.
\<close>

definition circuit_setting :: "(string \<Rightarrow> js_number) \<Rightarrow> js_value \<Rightarrow> int \<Rightarrow> js_number" where
  "circuit_setting parse v preset = (case v of String t \<Rightarrow> parse t | _ \<Rightarrow> num preset)"

definition client_config_of :: "(string \<Rightarrow> js_number) \<Rightarrow> env \<Rightarrow> client_config" where
  "client_config_of parse env =
     \<lparr>credentials = \<lparr>expectedKey = utf8 (text_of (env ''INTERNAL_API_KEY'')),
                     expectedSecret = utf8 (text_of (env ''INTERNAL_API_SECRET''))\<rparr>,
      apiKeyHeader = text_of (env ''INTERNAL_API_KEY''), apiSecretHeader = text_of (env ''INTERNAL_API_SECRET''),
      timeoutMs = nat (integer_of (env ''HTTP_TIMEOUT_MS'')),
      maxAttempts = nat (integer_of (env ''HTTP_MAX_RETRIES'')) + 1,
      breaker_options =
        \<lparr>failureThreshold = circuit_setting parse (env ''CIRCUIT_FAILURE_THRESHOLD'') 5,
         openMs = circuit_setting parse (env ''CIRCUIT_OPEN_MS'') 10000, successThreshold = num 1\<rparr>\<rparr>"

section \<open>HTTP hardening and correlation\<close>

definition js_space :: "char \<Rightarrow> bool" where
  "js_space c \<longleftrightarrow> (let n = of_char c :: nat in n \<in> {9, 10, 11, 12, 13, 32, 160})"

definition trim :: "string \<Rightarrow> string" where
  "trim s = rev (dropWhile js_space (rev (dropWhile js_space s)))"

fun split_on :: "char \<Rightarrow> string \<Rightarrow> string list" where
  "split_on c [] = [[]]"
| "split_on c (x # xs) = (if x = c then [] # split_on c xs
     else (case split_on c xs of [] \<Rightarrow> [[x]] | w # ws \<Rightarrow> (x # w) # ws))"

definition cors_origins :: "string option \<Rightarrow> string list" where
  "cors_origins configured =
     filter (\<lambda>o'. length o' > 0) (map trim (split_on (CHR '','') (case configured of None \<Rightarrow> [] | Some t \<Rightarrow> t)))"

datatype proxy_trust = Hops js_number | Proxies string

record HardeningOptions =
  docsEnabled :: bool
  bodyLimit :: "string option"
  corsOrigins :: "string option"
  trustProxy :: "string option"

record CorsPolicy =
  cors_origin :: "string list"
  cors_methods :: "string list"
  cors_headers :: "string list"
  cors_credentials :: bool
  cors_maxAge :: nat

record Hardened =
  poweredBy :: bool
  trust :: "proxy_trust option"
  contentSecurityPolicy :: bool
  limit :: string
  cors :: "CorsPolicy option"

fun is_finite :: "js_number \<Rightarrow> bool" where
  "is_finite (Dyadic _ _) = True"
| "is_finite _ = False"

definition applyHttpHardening :: "(string \<Rightarrow> js_number) \<Rightarrow> HardeningOptions \<Rightarrow> Hardened" where
  "applyHttpHardening parse options =
     \<lparr>poweredBy = False,
      trust = (case trustProxy options of
         None \<Rightarrow> None
       | Some t \<Rightarrow> if t = [] then None else Some (if is_finite (parse t) then Hops (parse t) else Proxies t)),
      contentSecurityPolicy = (\<not> docsEnabled options),
      limit = (case bodyLimit options of None \<Rightarrow> ''64kb'' | Some l \<Rightarrow> l),
      cors = (let origins = cors_origins (corsOrigins options) in
        if length origins > 0
        then Some \<lparr>cors_origin = origins, cors_methods = [''GET'', ''POST''],
                   cors_headers = [''content-type'', ''x-correlation-id''], cors_credentials = False, cors_maxAge = 600\<rparr>
        else None)\<rparr>"

text \<open>
  \<open>CorrelationMiddleware.use\<close>: the header the rest of the request sees, the header of the response and the
  ambient id, all three the same; \<open>CorrelationContext.current\<close> is the ambient id or a fresh one.
\<close>

record correlated =
  request_header :: header
  response_header :: string
  ambient :: string

definition correlation_middleware :: "header \<Rightarrow> string \<Rightarrow> correlated" where
  "correlation_middleware incoming uuid =
     (let correlationId = correlationIdOf incoming uuid in
      \<lparr>request_header = One correlationId, response_header = correlationId, ambient = correlationId\<rparr>)"

definition correlation_current :: "string option \<Rightarrow> string \<Rightarrow> string" where
  "correlation_current store uuid = (case store of Some c \<Rightarrow> c | None \<Rightarrow> uuid)"

end
