(* ===== verification/Run_Cost.thy ===== *)
theory Run_Cost
  imports Client_Properties Presentation
begin

text \<open>
  How much work a run can cause: the number of calls to the accounts service one handler, one request
  and one tick of the reconciliation job can make, whatever the database, the lock, the network and
  the clock do. The bound is derived compositionally, one rule per combinator.
\<close>

section \<open>At most n calls\<close>

text \<open>
  \<open>at_most n m\<close>: from every world \<open>m\<close> ends, after exchanges and pauses of no more than \<open>n\<close> calls of the
  client.
\<close>

definition at_most :: "nat \<Rightarrow> (network, 'a) work \<Rightarrow> bool" where
  "at_most n m \<longleftrightarrow> (\<forall>s. let attempts = maxAttempts (config (remote s))
     in costs (n * attempts) (n * (attempts - 1)) (remote s) (remote (snd (m s))))"

lemma at_mostD: "at_most n m \<Longrightarrow> m s = (x, t) \<Longrightarrow>
    costs (n * maxAttempts (config (remote s))) (n * (maxAttempts (config (remote s)) - 1)) (remote s) (remote t)"
  unfolding at_most_def Let_def by (metis snd_conv)

lemma at_mostI: "(\<And>s x t. m s = (x, t) \<Longrightarrow>
    costs (n * maxAttempts (config (remote s))) (n * (maxAttempts (config (remote s)) - 1)) (remote s) (remote t))
  \<Longrightarrow> at_most n m"
  unfolding at_most_def Let_def by (metis prod.collapse)

lemma at_most_mono: "at_most a m \<Longrightarrow> a \<le> n \<Longrightarrow> at_most n m"
  unfolding at_most_def Let_def by (blast intro: costs_mono mult_le_mono1)

lemma costs_sum:
  assumes "costs (a * maxAttempts (config s)) (a * (maxAttempts (config s) - 1)) s t"
    and "costs (b * maxAttempts (config t)) (b * (maxAttempts (config t) - 1)) t u" and "a + b = n"
  shows "costs (n * maxAttempts (config s)) (n * (maxAttempts (config s) - 1)) s u"
proof -
  have "config t = config s" using assms(1) by (simp add: costs_def)
  with assms(2) have "costs (b * maxAttempts (config s)) (b * (maxAttempts (config s) - 1)) t u" by simp
  from costs_trans [OF assms(1) this] show ?thesis using assms(3) by (simp only: add_mult_distrib [symmetric])
qed

lemma at_most_andThen:
  assumes "at_most a m" and "\<And>x. at_most b (k x)" and "a + b = n"
  shows "at_most n (andThen m k)"
proof (rule at_mostI)
  fix s x t assume run: "andThen m k s = (x, t)"
  obtain y u where m: "m s = (y, u)" by (meson surj_pair)
  note first = at_mostD [OF assms(1) m]
  show "costs (n * maxAttempts (config (remote s))) (n * (maxAttempts (config (remote s)) - 1)) (remote s) (remote t)"
  proof (cases y)
    case (Inl e)
    then have "t = u" using run m by (simp add: andThen_def)
    then show ?thesis using costs_mono [OF first] assms(3) by simp
  next
    case (Inr v)
    then have "k v u = (x, t)" using run m by (simp add: andThen_def)
    from costs_sum [OF first at_mostD [OF assms(2) this] assms(3)] show ?thesis .
  qed
qed

lemma at_most_catching:
  assumes "at_most a m" and "\<And>e. at_most b (h e)" and "a + b = n"
  shows "at_most n (catching m h)"
proof (rule at_mostI)
  fix s x t assume run: "catching m h s = (x, t)"
  obtain y u where m: "m s = (y, u)" by (meson surj_pair)
  note first = at_mostD [OF assms(1) m]
  show "costs (n * maxAttempts (config (remote s))) (n * (maxAttempts (config (remote s)) - 1)) (remote s) (remote t)"
  proof (cases "\<exists>e. y = Inl e \<and> e \<noteq> ProcessDied")
    case True
    then obtain e where "h e u = (x, t)" using run m by (auto simp: catching_def tryCatch_def)
    from costs_sum [OF first at_mostD [OF assms(2) this] assms(3)] show ?thesis .
  next
    case False
    then have "t = u" using run m by (cases y) (auto simp: catching_def tryCatch_def throw_def)
    then show ?thesis using costs_mono [OF first] assms(3) by simp
  qed
qed

lemma at_most_if: "at_most n a \<Longrightarrow> at_most n b \<Longrightarrow> at_most n (if c then a else b)"
  by simp

lemma at_most_None: "at_most n a \<Longrightarrow> (\<And>x. at_most n (f x)) \<Longrightarrow> at_most n (case v of None \<Rightarrow> a | Some x \<Rightarrow> f x)"
  by (simp split: option.split)

section \<open>What costs nothing\<close>

named_theorems free \<open>computations that never call the accounts service\<close>

lemma at_most_simple [free]:
  "at_most 0 (ret x)" "at_most 0 (throw e)" "at_most 0 (reads f)" "at_most 0 (raiseInl r)"
  "at_most 0 (query g)" "at_most 0 new_Date" "at_most 0 (update_db h)" "at_most 0 (on_payment m)"
  "at_most 0 the_payment" "at_most 0 (writes (\<lambda>s. s\<lparr>revision := v\<rparr>))"
  "at_most 0 (writes (\<lambda>s. s\<lparr>held := p, revision := w\<rparr>))" "at_most 0 (writes (\<lambda>s. s\<lparr>generated := Suc (generated s)\<rparr>))"
  by (simp_all add: at_most_def ret_def throw_def reads_def raiseInl_def query_def new_Date_def update_db_def writes_def
      on_payment_def the_payment_def Let_def split: option.split prod.split)

lemma free_andThen [free]: "at_most 0 m \<Longrightarrow> (\<And>x. at_most 0 (k x)) \<Longrightarrow> at_most 0 (andThen m k)"
  by (rule at_most_andThen) simp_all

lemma transaction_costs: "at_most n work \<Longrightarrow> at_most n (transaction_run work)"
proof (rule at_mostI)
  fix s x t assume work: "at_most n work" and run: "transaction_run work s = (x, t)"
  let ?start = "s\<lparr>db := tx_others (tx_script s (txs s)) (db s), txs := txs s + 1, in_tx := True\<rparr>"
  have "\<exists>u. remote u = remote s \<and> remote t = remote (snd (work u))"
  proof (cases "in_tx s")
    case True
    then show ?thesis using run by (intro exI [of _ s]) (simp add: transaction_run_def)
  next
    case False
    then show ?thesis using run by (intro exI [of _ ?start])
      (auto simp: transaction_run_def Let_def split: prod.splits sum.splits tx_fate.splits)
  qed
  then obtain u where u: "remote u = remote s" "remote t = remote (snd (work u))" by blast
  have "costs (n * maxAttempts (config (remote u))) (n * (maxAttempts (config (remote u)) - 1)) (remote u) (remote (snd (work u)))"
    using work unfolding at_most_def Let_def by blast
  then show "costs (n * maxAttempts (config (remote s))) (n * (maxAttempts (config (remote s)) - 1)) (remote s) (remote t)"
    using u by simp
qed

lemma execution_costs: "at_most n work \<Longrightarrow> at_most n (execution_run r work)"
proof (rule at_mostI)
  fix s x t assume work: "at_most n work" and run: "execution_run r work s = (x, t)"
  have "remote t = remote s \<or> (\<exists>u. remote u = remote s \<and> remote t = remote (snd (work u)))"
  proof (cases "active s = Some r")
    case True
    then show ?thesis using run by (intro disjI2 exI [of _ s]) (simp add: execution_run_def)
  next
    case False
    show ?thesis
    proof (cases "lock_script s (lock_calls s)")
      case (LockGranted unlocks)
      let ?start = "s\<lparr>lock_calls := lock_calls s + 1, active := Some r\<rparr>"
      show ?thesis using run False LockGranted by (intro disjI2 exI [of _ ?start])
        (auto simp: execution_run_def Let_def split: prod.splits)
    qed (use run False in \<open>auto simp: execution_run_def Let_def\<close>)
  qed
  then show "costs (n * maxAttempts (config (remote s))) (n * (maxAttempts (config (remote s)) - 1)) (remote s) (remote t)"
  proof (elim disjE exE conjE)
    fix u assume u: "remote u = remote s" "remote t = remote (snd (work u))"
    have "costs (n * maxAttempts (config (remote u))) (n * (maxAttempts (config (remote u)) - 1)) (remote u) (remote (snd (work u)))"
      using work unfolding at_most_def Let_def by blast
    then show ?thesis using u by simp
  qed simp
qed

lemmas free_transaction [free] = transaction_costs [where n = 0]

lemma port_costs:
  "at_most 1 (on_remote (port_debit AccountsHttpClient w m k d))"
  "at_most 1 (on_remote (port_credit AccountsHttpClient w m k d))"
  "at_most 1 (on_remote (port_findMovement AccountsHttpClient w k))"
proof -
  have moves: "at_most 1 (on_remote (movement operation type w m k d))" for operation type
  proof (rule at_mostI)
    fix s x t assume "on_remote (movement operation type w m k d) s = (x, t)"
    then have "snd (run_call (Move operation type w m k d) (remote s)) = remote t"
      by (auto simp: on_remote_def split: prod.splits sum.splits)
    then show "costs (1 * maxAttempts (config (remote s))) (1 * (maxAttempts (config (remote s)) - 1)) (remote s) (remote t)"
      using run_call_costs [of "remote s" "Move operation type w m k d"] by simp
  qed
  then show "at_most 1 (on_remote (port_debit AccountsHttpClient w m k d))"
    "at_most 1 (on_remote (port_credit AccountsHttpClient w m k d))"
    by (simp_all add: AccountsHttpClient_def client_debit_def client_credit_def)
  show "at_most 1 (on_remote (port_findMovement AccountsHttpClient w k))"
  proof (rule at_mostI)
    fix s x t assume "on_remote (port_findMovement AccountsHttpClient w k) s = (x, t)"
    then have "snd (run_call (Find w k) (remote s)) = remote t"
      by (auto simp: on_remote_def AccountsHttpClient_def split: prod.splits sum.splits)
    then show "costs (1 * maxAttempts (config (remote s))) (1 * (maxAttempts (config (remote s)) - 1)) (remote s) (remote t)"
      using run_call_costs [of "remote s" "Find w k"] by simp
  qed
qed

section \<open>The repository and the outbox\<close>

lemma free_save [free]: "at_most 0 save"
  unfolding save_def by (intro free at_most_None at_most_if)

lemma free_find [free]: "at_most 0 (findByReference r)" "at_most 0 (findByTransactionId t)"
  unfolding findByReference_def findByTransactionId_def hydrate_def by (intro free at_most_None)+

lemma free_enqueue [free]: "at_most 0 (enqueue ms)" "at_most 0 (enqueue_events es)" "at_most 0 (record_movements ls)"
  unfolding record_movements_def enqueue_events_def enqueue_def by (intro free at_most_if)+

lemma free_settle [free]: "at_most 0 (settle r)"
  unfolding settle_def completion_time_def by (intro free at_most_None)

lemma free_attempt [free]: "at_most 0 (recordRecoveryAttempt r e)"
  unfolding recordRecoveryAttempt_def by (intro free)

lemma free_stuck [free]: "at_most 0 (findStuck statuses olderThan limit)"
  unfolding findStuck_def by (intro free)

section \<open>The handlers\<close>

lemma free_error_case: "(\<And>d. at_most n (f d)) \<Longrightarrow> at_most n g \<Longrightarrow> at_most n (case e of Domain d \<Rightarrow> f d | _ \<Rightarrow> g)"
  by (cases e) simp_all

lemma free_domain_case: "at_most n a \<Longrightarrow> at_most n b \<Longrightarrow> at_most n (case d of AccountsUnavailableError _ _ \<Rightarrow> a | _ \<Rightarrow> b)"
  by (cases d) simp_all

lemmas at_most_cases = at_most_None at_most_if free_error_case free_domain_case

text \<open>
  A computation after free steps costs what its rest costs, and a costly one before free steps what it
  costs.
\<close>

lemma then_rest: "at_most 0 m \<Longrightarrow> (\<And>x. at_most n (k x)) \<Longrightarrow> at_most n (andThen m k)"
  by (rule at_most_andThen [where a = 0 and b = n]) simp_all

lemma then_free: "at_most n m \<Longrightarrow> (\<And>x. at_most 0 (k x)) \<Longrightarrow> at_most n (andThen m k)"
  by (rule at_most_andThen [where a = n and b = 0]) simp_all

lemma catch_free: "at_most n m \<Longrightarrow> (\<And>e. at_most 0 (h e)) \<Longrightarrow> at_most n (catching m h)"
  by (rule at_most_catching [where a = n and b = 0]) simp_all

lemma free_run: "at_most 0 work \<Longrightarrow> (\<And>x. at_most n (k x)) \<Longrightarrow> at_most n (andThen (transaction_run work) k)"
  by (rule then_rest [OF free_transaction])

lemmas ends_free = at_most_simple(1,2) [THEN at_most_mono, OF le0]
lemmas after_free = at_most_simple [THEN then_rest] free_find [THEN then_rest] free_run
lemmas spending = ends_free at_most_cases after_free port_costs

lemma debit_costs: "at_most 1 (debit_execute AccountsHttpClient r)"
  unfolding debit_execute_def debit_executeLocked_def
  by (rule execution_costs) (rule spending free_save then_free catch_free free)+

lemma credit_costs: "at_most 1 (credit_execute AccountsHttpClient r)"
  unfolding credit_execute_def credit_executeLocked_def
  by (rule execution_costs) (rule spending free_save then_free catch_free free)+

lemma refund_costs: "at_most 1 (refund AccountsHttpClient)"
  unfolding refund_def completion_time_def
  by (rule spending free_save then_free catch_free free)+

lemma confirm_costs: "at_most 1 (confirmDebit AccountsHttpClient p)"
  unfolding confirmDebit_def
  by (rule spending free_save then_free catch_free free)+

lemma reconcileCredit_costs: "at_most 1 (reconcileCredit AccountsHttpClient p)"
  unfolding reconcileCredit_def
  by (rule spending free_save then_free catch_free free)+

lemma compensate_costs: "at_most 2 (compensate_execute AccountsHttpClient r)"
proof -
  have confirm: "at_most 2 (andThen (if b then ret True else confirmDebit AccountsHttpClient p) k)"
    if "\<And>x. at_most 1 (k x)" for b p and k :: "bool \<Rightarrow> (network, string option) work"
  proof (rule at_most_andThen [where a = 1 and b = 1])
    show "at_most 1 (if b then ret True else confirmDebit AccountsHttpClient p)"
      by (intro at_most_if ends_free confirm_costs)
  qed (simp_all only: that one_add_one)
  have pending: "at_most 0 (if b then andThen new_Date k else ret ())" if "\<And>x. at_most 0 (k x)"
    for b and k :: "nat \<Rightarrow> (network, unit) work"
    by (intro at_most_if free that)
  show ?thesis
    unfolding compensate_execute_def compensate_executeLocked_def Let_def
    by (rule execution_costs)
      (rule ends_free at_most_cases after_free confirm then_rest [OF pending] refund_costs then_free reconcileCredit_costs
        free_save free)+
qed

section \<open>The saga, a request, the reconciliation job\<close>

lemma saga_costs: "at_most 4 (saga_run AccountsHttpClient r)"
proof -
  have debit: "at_most 1 (catching (andThen (debit_execute AccountsHttpClient ref) (\<lambda>_. ret True))
      (\<lambda>e. if isDomainError e then ret False else throw e))" for ref
    by (rule catch_free then_free debit_costs at_most_if free)+
  have credit: "at_most 3 (catching (andThen (credit_execute AccountsHttpClient ref) (\<lambda>_. ret ()))
      (\<lambda>_. andThen (compensate_execute AccountsHttpClient ref) (\<lambda>_. ret ())))" for ref
  proof (rule at_most_catching [where a = 1 and b = 2])
    show "at_most 1 (andThen (credit_execute AccountsHttpClient ref) (\<lambda>_. ret ()))"
      by (rule then_free credit_costs free)+
    show "at_most 2 (andThen (compensate_execute AccountsHttpClient ref) (\<lambda>_. ret ()))"
      by (rule then_free compensate_costs free)+
  qed simp
  have "at_most 4 (saga_runLocked AccountsHttpClient ref)" for ref
    unfolding saga_runLocked_def
  proof (rule at_most_andThen [where a = 1 and b = 3])
    show "at_most 3 (if \<not> debited then ret () else catching (andThen (credit_execute AccountsHttpClient ref) (\<lambda>_. ret ()))
      (\<lambda>_. andThen (compensate_execute AccountsHttpClient ref) (\<lambda>_. ret ())))" for debited
      by (intro at_most_if ends_free credit)
  qed (rule debit, simp)
  then show ?thesis unfolding saga_run_def by (rule execution_costs)
qed

lemma recover_costs: "at_most 4 (recover AccountsHttpClient r)"
proof -
  have compensate: "at_most 4 (andThen (compensate_execute AccountsHttpClient ref) (\<lambda>_. ret ()))" for ref
    by (intro then_free at_most_mono [OF compensate_costs] free) simp
  show ?thesis unfolding recover_def
    by (rule execution_costs)
      (rule ends_free at_most_cases after_free then_rest catch_free saga_costs compensate then_free free)+
qed

lemma forEach_costs: "(\<And>x. at_most n (body x)) \<Longrightarrow> at_most (length xs * n) (forEach xs body)"
  by (induction xs) (simp_all add: ends_free at_most_andThen [where a = n])

lemma those_payments_length: "those_payments xs = Inr ps \<Longrightarrow> length ps = length xs"
  by (induction xs arbitrary: ps) (auto simp: bindE_def split: sum.splits)

lemma findStuck_length:
  "wp (findStuck statuses olderThan limit) (\<lambda>ps t. length ps \<le> limit) (\<lambda>_ _. True) s"
proof -
  have "length ps \<le> limit" if "those_payments (map toDomain (take limit rows)) = Inr ps" for ps rows
    using those_payments_length [OF that] by simp
  then show ?thesis
    by (auto simp: wp_def findStuck_def andThen_def query_def new_Date_def raiseInl_def Let_def split: sum.splits prod.splits)
qed

lemma reconcile_costs: "at_most (4 * BATCH_SIZE) (reconcile AccountsHttpClient running)"
proof (rule at_mostI)
  fix s x t assume run: "reconcile AccountsHttpClient running s = (x, t)"
  let ?find = "\<lambda>now. findStuck [Pending, Processing, CompensationPending] (now - STUCK_AFTER_MS) BATCH_SIZE :: (network, Payment list) work"
  let ?body = "\<lambda>p. catching (recover AccountsHttpClient (reference p)) (\<lambda>error. ret ())"
  let ?bound = "\<lambda>t. costs (4 * BATCH_SIZE * maxAttempts (config (remote s))) (4 * BATCH_SIZE * (maxAttempts (config (remote s)) - 1)) (remote s) (remote t)"
  show "?bound t"
  proof (cases running)
    case True
    then show ?thesis using run by (simp add: reconcile_def ret_def)
  next
    case False
    let ?s = "s\<lparr>clock_reads := clock_reads s + 1\<rparr>"
    let ?now = "clock s (clock_reads s)"
    obtain y u where find: "?find ?now ?s = (y, u)" by (meson surj_pair)
    have same: "costs 0 0 (remote s) (remote u)" using at_mostD [OF free_stuck find] by simp
    have step: "reconcile AccountsHttpClient running s = (case (y, u) of (Inl e, v) \<Rightarrow> (Inl e, v) | (Inr ps, v) \<Rightarrow> forEach ps ?body v)"
      using False find by (simp add: reconcile_def andThen_def new_Date_def)
    show ?thesis
    proof (cases y)
      case (Inl e)
      then show ?thesis using step run same costs_mono [OF same] by simp
    next
      case (Inr ps)
      then have loop: "forEach ps ?body u = (x, t)" and few: "length ps \<le> BATCH_SIZE"
        using step run find wp_returns [OF findStuck_length] by auto
      have "at_most (length ps * 4) (forEach ps ?body)"
        by (intro forEach_costs catch_free recover_costs free)
      moreover have "length ps * 4 \<le> 4 * BATCH_SIZE" using few by linarith
      ultimately have "at_most (4 * BATCH_SIZE) (forEach ps ?body)" by (rule at_most_mono)
      from costs_sum [OF _ at_mostD [OF this loop], where a = 0] show ?thesis using same by simp
    qed
  qed
qed

lemma create_payment_costs [free]: "at_most 0 (create_payment c)"
  unfolding create_payment_def fresh_payment_reference_def
  by (rule spending free_save free)+ (simp_all add: free)

lemma idempotency_costs: "at_most 0 work \<Longrightarrow> at_most 0 (idempotency_execute j k body work)"
  unfolding idempotency_execute_def claim_def resolveExisting_def find_key_def complete_def
  by (rule spending free | assumption)+

lemma initiate_costs: "at_most 4 (initiate_execute AccountsHttpClient j c)"
proof -
  have go: "at_most 4 (andThen (raiseInl (Reference_of PAYMENT r)) (\<lambda>ref. andThen (saga_run AccountsHttpClient ref) (\<lambda>_. ret body)))"
    for r and body :: "string option"
    by (rule after_free then_free saga_costs free)+
  show ?thesis unfolding initiate_execute_def
    by (rule then_rest [OF idempotency_costs [OF create_payment_costs]])
      (auto split: option.split intro!: ends_free go)
qed

lemma post_payment_costs:
  assumes "post_payment AccountsHttpClient j body s = (answer, t)"
  shows "costs (4 * maxAttempts (config (remote s))) (4 * (maxAttempts (config (remote s)) - 1)) (remote s) (remote t)"
proof -
  have shown: "at_most 0 (byReference r)" for r
    unfolding byReference_def get_payment_def read_findByReference_def by (rule spending free)+
  have "at_most 4 (controller_initiate AccountsHttpClient j c)" for c
    unfolding controller_initiate_def
    by (rule then_free initiate_costs at_most_None free shown)+
  from at_mostD [OF this] show ?thesis
    using assms by (auto simp: post_payment_def split: list.splits prod.splits)
qed

section \<open>What it amounts to\<close>

lemma costs_total:
  assumes "costs n k s t" and "\<forall>n. jitter s n < 2 ^ 53"
  shows "exchanges t \<le> exchanges s + n \<and> (\<exists>pauses. slept t = slept s @ pauses \<and> length pauses \<le> k
    \<and> sum_list pauses \<le> k * timeoutMs (config s))"
proof -
  obtain pauses where p: "slept t = slept s @ pauses" "length pauses \<le> k" "\<forall>d \<in> set pauses. d \<le> timeoutMs (config s)"
    using assms by (auto simp: costs_def)
  have "sum_list pauses \<le> length pauses * timeoutMs (config s)"
    using p(3) by (induction pauses) (auto simp: add_mono)
  also have "\<dots> \<le> k * timeoutMs (config s)" using p(2) by (rule mult_le_mono1)
  finally show ?thesis using assms(1) p by (auto simp: costs_def)
qed

text \<open>
  A payment request ends after bounded work: whatever the database, the lock, the network and
  the clock do, \<open>POST /payments\<close> makes at most four calls to the accounts service, so at most
  \<open>4 * maxAttempts\<close> exchanges, and the pauses between them add up to at most
  \<open>4 * (maxAttempts - 1)\<close> timeouts.
\<close>

theorem payment_request_is_bounded:
  assumes "\<forall>n. jitter (remote s) n < 2 ^ 53" and "post_payment AccountsHttpClient j body s = (answer, t)"
  shows "exchanges (remote t) \<le> exchanges (remote s) + 4 * maxAttempts (config (remote s))
    \<and> (\<exists>pauses. slept (remote t) = slept (remote s) @ pauses
         \<and> length pauses \<le> 4 * (maxAttempts (config (remote s)) - 1)
         \<and> sum_list pauses \<le> 4 * (maxAttempts (config (remote s)) - 1) * timeoutMs (config (remote s)))"
  by (rule costs_total [OF post_payment_costs [OF assms(2)] assms(1)])

text \<open>
  Property C22. A tick of the reconciliation job ends after bounded work, however many payments are stuck: at
  most four calls for each of the \<open>BATCH_SIZE\<close> payments it takes, and none when the previous tick is
  still running.
\<close>

theorem reconciliation_pass_is_bounded:
  assumes "\<forall>n. jitter (remote s) n < 2 ^ 53" and "reconcile AccountsHttpClient running s = (x, t)"
  shows "exchanges (remote t) \<le> exchanges (remote s) + (if running then 0 else 80 * maxAttempts (config (remote s)))
    \<and> (\<exists>pauses. slept (remote t) = slept (remote s) @ pauses
         \<and> sum_list pauses \<le> 80 * (maxAttempts (config (remote s)) - 1) * timeoutMs (config (remote s)))"
proof (cases running)
  case True
  then show ?thesis using assms(2) by (simp add: reconcile_def ret_def)
next
  case False
  have "4 * BATCH_SIZE = 80" by (simp add: BATCH_SIZE_def)
  note total = costs_total [OF at_mostD [OF reconcile_costs assms(2)] assms(1), unfolded this]
  then show ?thesis using False by auto
qed

end
