(* ===== verification/Platform_Properties.thy ===== *)
theory Platform_Properties
  imports Platform Run_Cost
begin

text \<open>
  What the platform layer promises: the bucket a request is counted in, the environments a service boots
  on, and the bounds a booted service keeps.
\<close>

section \<open>The fingerprint\<close>

definition value36 :: "string \<Rightarrow> nat" where
  "value36 s = foldl (\<lambda>n c. n * 36 + (if of_char c < (97 :: nat) then of_char c - 48 else of_char c - 87)) 0 s"

lemma value36_snoc: "value36 (s @ [c]) = value36 s * 36 + (if of_char c < (97 :: nat) then of_char c - 48 else of_char c - 87)"
  by (simp add: value36_def)

lemma value36_base36: "value36 (base36 n) = n"
proof (induction n rule: base36.induct)
  case (1 n)
  have digit: "(if of_char (digit36 d) < (97 :: nat) then of_char (digit36 d) - 48 else of_char (digit36 d) - 87) = d" if "d < 36" for d
    using that by (simp add: digit36_def)
  show ?case
  proof (cases "n < 36")
    case True
    then show ?thesis using digit [OF True] by (subst base36.simps) (simp add: value36_def)
  next
    case False
    then show ?thesis using 1 digit [of "n mod 36"] by (subst base36.simps) (simp add: value36_snoc del: of_char_of)
  qed
qed

lemma base36_inject: "base36 m = base36 n \<longleftrightarrow> m = n"
  by (metis value36_base36)

text \<open>The same hash, computed on 32-bit words that wrap around.\<close>

definition hash32 :: "string \<Rightarrow> 32 word" where
  "hash32 v = foldl (\<lambda>h c. h * 31 + word_of_int (of_char c)) 0 v"

lemma toInt32_word: "(word_of_int (toInt32 x) :: 32 word) = word_of_int x"
proof -
  have "toInt32 x mod 2 ^ 32 = x mod 2 ^ 32" unfolding toInt32_def by (simp add: mod_simps)
  then show ?thesis by (simp add: word_of_int_eq_iff take_bit_eq_mod)
qed

lemma fingerprint_loop_word:
  "(word_of_int (fingerprint_loop h v) :: 32 word) = foldl (\<lambda>h c. h * 31 + word_of_int (of_char c)) (word_of_int h) v"
proof (induction v arbitrary: h)
  case (Cons c v)
  have "(word_of_int (toInt32 (h * 31 + of_char c)) :: 32 word) = word_of_int h * 31 + word_of_int (of_char c)"
    unfolding toInt32_word by (simp add: wi_hom_syms)
  then show ?case using Cons by simp
qed simp

lemma fingerprint_word: "fingerprint v = base36 (unat (hash32 v))"
proof -
  have "toUint32 x = unat (word_of_int x :: 32 word)" for x
    by (simp add: toUint32_def unat_eq_nat_uint uint_word_of_int)
  then show ?thesis using fingerprint_loop_word [of 0 v] by (simp add: fingerprint_def hash32_def)
qed

text \<open>No step of the loop leaves the integers a double holds exactly.\<close>

lemma toInt32_range: "- (2 ^ 31) \<le> toInt32 x \<and> toInt32 x < 2 ^ 31"
  by (simp add: toInt32_def algebra_simps)

lemma char_range: "0 \<le> (of_char c :: int)" "(of_char c :: int) < 256"
  using pos_mod_sign [of "256 :: int" "of_char c"] pos_mod_bound [of "256 :: int" "of_char c"] by simp_all

lemma fingerprint_exact:
  assumes "- (2 ^ 31) \<le> h" and "h < 2 ^ 31"
  shows "\<bar>h * 31 + of_char c\<bar> < 2 ^ 53 \<and> - (2 ^ 31) \<le> toInt32 (h * 31 + of_char c) \<and> toInt32 (h * 31 + of_char c) < 2 ^ 31"
  using assms toInt32_range [of "h * 31 + of_char c"] char_range [of c] by auto

section \<open>Buckets\<close>

lemma getTracker_key: "k \<noteq> [] \<Longrightarrow> getTracker (r\<lparr>api_key_header := One k\<rparr>) = ''internal:'' @ base36 (unat (hash32 k))"
  by (simp add: getTracker_def fingerprint_word)

lemma hash32_single: "hash32 [c] = word_of_int (of_char c)"
  by (simp add: hash32_def)

text \<open>
  Property C37. The bucket of a request that names a key is chosen by the key alone, verified or not: its
  address plays no part, two keys share a bucket exactly when their 32-bit hashes agree, and one caller
  reaches a new bucket with every new one-character key.
\<close>

theorem bucket_is_chosen_by_the_key:
  assumes "k \<noteq> []" and "k' \<noteq> []"
  shows "(getTracker (r\<lparr>api_key_header := One k\<rparr>) = getTracker (r'\<lparr>api_key_header := One k'\<rparr>) \<longleftrightarrow> hash32 k = hash32 k')
    \<and> (getTracker (r\<lparr>api_key_header := One [c]\<rparr>) = getTracker (r\<lparr>api_key_header := One [d]\<rparr>) \<longleftrightarrow> c = d)"
proof -
  have "(word_of_int (of_char c) :: 32 word) = word_of_int (of_char d) \<longleftrightarrow> c = d"
  proof -
    have "take_bit 32 (of_char x :: int) = of_char x" for x
      using char_range [of x] by (intro take_bit_int_eq_self) simp_all
    then show ?thesis by (simp add: word_of_int_eq_iff)
  qed
  then show ?thesis using assms by (simp add: getTracker_key base36_inject hash32_single word_unat_eq_iff [symmetric])
qed

section \<open>Environments a service boots on\<close>

lemma includes_text_iff: "includes_text s m \<longleftrightarrow> (\<exists>a b. s = a @ m @ b)"
proof
  assume "includes_text s m"
  then obtain i where "take (length m) (drop i s) = m" by (auto simp: includes_text_def list_ex_iff)
  then have "s = take i s @ m @ drop (length m) (drop i s)" by (metis append_take_drop_id)
  then show "\<exists>a b. s = a @ m @ b" by blast
next
  assume "\<exists>a b. s = a @ m @ b"
  then obtain a b where "s = a @ m @ b" by blast
  then have "take (length m) (drop (length a) s) = m" "length a < length s + 1" by simp_all
  then show "includes_text s m" unfolding includes_text_def list_ex_iff by (intro bexI [of _ "length a"]) auto
qed

lemma validate_schema_Inr:
  "validate_schema service schema parse raw = Inr env \<longleftrightarrow>
     env = config_of parse schema raw \<and> (\<forall>f \<in> set schema. env_rule f (env (env_name f))) \<and> placeholder_secrets env = []"
  by (auto simp: validate_schema_def Let_def filter_empty_conv)

text \<open>The three checks at start-up, each with the variables it declares.\<close>

definition boot_check :: "((string \<Rightarrow> js_number) \<Rightarrow> (string \<Rightarrow> string option) \<Rightarrow> boot_error + env) \<Rightarrow> env_field list \<Rightarrow> bool" where
  "boot_check validate schema \<longleftrightarrow> (validate, schema) \<in>
     {(accounts_validateEnv, accounts_EnvConfig), (transactions_validateEnv, transactions_EnvConfig), (payments_validateEnv, payments_EnvConfig)}"

lemma boot_check_Inr:
  assumes "boot_check validate schema"
  shows "validate parse raw = Inr env \<longleftrightarrow> env = config_of parse schema raw
    \<and> (\<forall>f \<in> set schema. env_rule f (env (env_name f))) \<and> placeholder_secrets env = []"
  using assms by (auto simp: boot_check_def accounts_validateEnv_def transactions_validateEnv_def payments_validateEnv_def validate_schema_Inr)

lemma broker_variable:
  assumes "boot_check validate schema"
  shows "find (\<lambda>f. env_name f = ''RABBITMQ_URL'') schema = Some (text_variable ''RABBITMQ_URL'' None 1)"
    and "\<And>f. f \<in> set schema \<Longrightarrow> env_name f = ''RABBITMQ_URL'' \<Longrightarrow> f = text_variable ''RABBITMQ_URL'' None 1"
proof -
  consider "schema = accounts_EnvConfig" | "schema = transactions_EnvConfig" | "schema = payments_EnvConfig"
    using assms by (auto simp: boot_check_def)
  then have "find (\<lambda>f. env_name f = ''RABBITMQ_URL'') schema = Some (text_variable ''RABBITMQ_URL'' None 1)
      \<and> (\<forall>f \<in> set schema. env_name f = ''RABBITMQ_URL'' \<longrightarrow> f = text_variable ''RABBITMQ_URL'' None 1)"
    by (cases; simp add: accounts_EnvConfig_def transactions_EnvConfig_def payments_EnvConfig_def text_variable_def number_variable_def)
  then show "find (\<lambda>f. env_name f = ''RABBITMQ_URL'') schema = Some (text_variable ''RABBITMQ_URL'' None 1)"
    "\<And>f. f \<in> set schema \<Longrightarrow> env_name f = ''RABBITMQ_URL'' \<Longrightarrow> f = text_variable ''RABBITMQ_URL'' None 1"
    by blast+
qed

lemma config_of_broker:
  assumes "boot_check validate schema"
  shows "config_of parse schema (raw(''RABBITMQ_URL'' \<mapsto> url)) = (config_of parse schema raw)(''RABBITMQ_URL'' := String url)"
proof (rule ext)
  fix name
  show "config_of parse schema (raw(''RABBITMQ_URL'' \<mapsto> url)) name
      = ((config_of parse schema raw)(''RABBITMQ_URL'' := String url)) name"
  proof (cases "name = ''RABBITMQ_URL''")
    case True
    show ?thesis unfolding True config_of_def broker_variable(1) [OF assms] by (simp add: text_variable_def)
  next
    case False
    then show ?thesis unfolding config_of_def by (simp only: fun_upd_other not_False_eq_True)
  qed
qed

lemma placeholder_secrets_iff:
  assumes "env ''NODE_ENV'' = String ''production''"
  shows "placeholder_secrets env = [] \<longleftrightarrow> (\<forall>name \<in> {''INTERNAL_API_KEY'', ''INTERNAL_API_SECRET'', ''DB_PASSWORD''}.
     \<forall>marker \<in> set PLACEHOLDERS. \<nexists>a b. toLowerCase (text_of (env name)) = a @ marker @ b)"
proof -
  have offends: "(let v = toLowerCase (text_of (env name)) in length v > 0 \<and> list_ex (includes_text v) PLACEHOLDERS)
      \<longleftrightarrow> (\<exists>marker \<in> set PLACEHOLDERS. \<exists>a b. toLowerCase (text_of (env name)) = a @ marker @ b)" for name
  proof -
    have "marker \<noteq> []" if "marker \<in> set PLACEHOLDERS" for marker using that by (auto simp: PLACEHOLDERS_def)
    then have "list_ex (includes_text v) PLACEHOLDERS \<Longrightarrow> v \<noteq> []" for v by (auto simp: list_ex_iff includes_text_iff)
    then show ?thesis by (auto simp: Let_def list_ex_iff includes_text_iff)
  qed
  show ?thesis
    unfolding placeholder_secrets_def assms filter_empty_conv offends by (simp only: text_of.simps) simp
qed

text \<open>
  Property C36. What a production process checks of its secrets, and what it does not: with \<open>NODE_ENV\<close> at
  \<open>production\<close> each of the three services starts exactly when every declared variable is well formed
  and none of its key, its secret and its database password contains, in any case, a placeholder of the
  repository. The broker's address, which holds a password too, is not among them: a service that
  starts also starts with any other text there.
\<close>

theorem production_checks_three_secrets:
  assumes "boot_check validate schema" and "config_of parse schema raw ''NODE_ENV'' = String ''production''"
  shows "(validate parse raw = Inr env \<longleftrightarrow> env = config_of parse schema raw
        \<and> (\<forall>f \<in> set schema. env_rule f (env (env_name f)))
        \<and> (\<forall>name \<in> {''INTERNAL_API_KEY'', ''INTERNAL_API_SECRET'', ''DB_PASSWORD''}.
             \<forall>marker \<in> set PLACEHOLDERS. \<nexists>a b. toLowerCase (text_of (env name)) = a @ marker @ b))
    \<and> (validate parse raw = Inr env \<and> url \<noteq> [] \<longrightarrow>
         validate parse (raw(''RABBITMQ_URL'' \<mapsto> url)) = Inr (env(''RABBITMQ_URL'' := String url)))"
proof (intro conjI impI)
  show "validate parse raw = Inr env \<longleftrightarrow> env = config_of parse schema raw
        \<and> (\<forall>f \<in> set schema. env_rule f (env (env_name f)))
        \<and> (\<forall>name \<in> {''INTERNAL_API_KEY'', ''INTERNAL_API_SECRET'', ''DB_PASSWORD''}.
             \<forall>marker \<in> set PLACEHOLDERS. \<nexists>a b. toLowerCase (text_of (env name)) = a @ marker @ b)"
    using boot_check_Inr [OF assms(1), of parse raw env] placeholder_secrets_iff [of env] assms(2) by metis
  assume started: "validate parse raw = Inr env \<and> url \<noteq> []"
  then have env: "env = config_of parse schema raw" "\<forall>f \<in> set schema. env_rule f (env (env_name f))" "placeholder_secrets env = []"
    using boot_check_Inr [OF assms(1)] by auto
  let ?new = "env(''RABBITMQ_URL'' := String url)"
  have "placeholder_secrets ?new = placeholder_secrets env" by (simp add: placeholder_secrets_def)
  moreover have "\<forall>f \<in> set schema. env_rule f (?new (env_name f))"
  proof
    fix f assume f: "f \<in> set schema"
    show "env_rule f (?new (env_name f))"
    proof (cases "env_name f = ''RABBITMQ_URL''")
      case True
      have "Suc 0 \<le> length url" using started by (cases url) auto
      with broker_variable(2) [OF assms(1) f True] show ?thesis by (simp add: text_variable_def)
    qed (use env(2) f in simp)
  qed
  ultimately show "validate parse (raw(''RABBITMQ_URL'' \<mapsto> url)) = Inr ?new"
    using env boot_check_Inr [OF assms(1)] config_of_broker [OF assms(1), of parse raw url] by simp
qed

lemma payments_env:
  assumes "payments_validateEnv parse raw = Inr env" and "f \<in> set payments_EnvConfig"
  shows "env_rule f (env (env_name f))"
  using assms unfolding payments_validateEnv_def validate_schema_Inr by blast

lemma whole_between_value: "whole_between low high v \<Longrightarrow> low \<le> integer_of v \<and> (\<forall>h. high = Some h \<longrightarrow> integer_of v \<le> h)"
  by (cases "(low, high, v)" rule: whole_between.cases) auto

text \<open>
  Property C27. A payments service that boots is bounded by its environment: it keeps credentials of at least
  16 and 32 characters, makes between one and eleven attempts per call with a timeout of at least 100
  ms, and so answers every payment request after at most 44 exchanges and pauses that add up to at
  most 40 timeouts.
\<close>

theorem booted_payments_service_is_bounded:
  assumes "payments_validateEnv parse raw = Inr env" and "config (remote s) = client_config_of parse env"
    and "\<forall>n. jitter (remote s) n < 2 ^ 53" and "post_payment AccountsHttpClient j body s = (answer, t)"
  shows "maxAttempts (config (remote s)) \<in> {1..11} \<and> 100 \<le> timeoutMs (config (remote s))
    \<and> 16 \<le> length (apiKeyHeader (config (remote s))) \<and> 32 \<le> length (apiSecretHeader (config (remote s)))
    \<and> exchanges (remote t) \<le> exchanges (remote s) + 44
    \<and> (\<exists>pauses. slept (remote t) = slept (remote s) @ pauses
         \<and> sum_list pauses \<le> 40 * timeoutMs (config (remote s)))"
proof -
  note rule = payments_env [OF assms(1)]
  have retries: "whole_between 0 (Some 10) (env ''HTTP_MAX_RETRIES'')"
    using rule [of "number_variable ''HTTP_MAX_RETRIES'' 2 0 (Some 10)"]
    by (simp add: payments_EnvConfig_def number_variable_def)
  have timeout: "whole_between 100 None (env ''HTTP_TIMEOUT_MS'')"
    using rule [of "number_variable ''HTTP_TIMEOUT_MS'' 3000 100 None"]
    by (simp add: payments_EnvConfig_def number_variable_def)
  have "text_at_least 16 (env ''INTERNAL_API_KEY'')" "text_at_least 32 (env ''INTERNAL_API_SECRET'')"
    using rule [of "text_variable ''INTERNAL_API_KEY'' None 16"] rule [of "text_variable ''INTERNAL_API_SECRET'' None 32"]
    by (simp_all add: payments_EnvConfig_def text_variable_def)
  then have secrets: "16 \<le> length (text_of (env ''INTERNAL_API_KEY''))" "32 \<le> length (text_of (env ''INTERNAL_API_SECRET''))"
    by (cases "env ''INTERNAL_API_KEY''"; cases "env ''INTERNAL_API_SECRET''"; simp)+
  let ?n = "maxAttempts (config (remote s))" and ?ms = "timeoutMs (config (remote s))"
  have n: "?n \<in> {1..11}" and ms: "100 \<le> ?ms"
    using whole_between_value [OF retries] whole_between_value [OF timeout] by (simp_all add: assms(2) client_config_of_def nat_le_iff)
  obtain pauses where cost: "exchanges (remote t) \<le> exchanges (remote s) + 4 * ?n" "slept (remote t) = slept (remote s) @ pauses"
    "sum_list pauses \<le> 4 * (?n - 1) * ?ms"
    using costs_total [OF post_payment_costs [OF assms(4)] assms(3)] by blast
  have "4 * (?n - 1) * ?ms \<le> 40 * ?ms" using n by (intro mult_le_mono1) auto
  then have "sum_list pauses \<le> 40 * ?ms" using cost(3) by linarith
  moreover have "apiKeyHeader (config (remote s)) = text_of (env ''INTERNAL_API_KEY'')"
    "apiSecretHeader (config (remote s)) = text_of (env ''INTERNAL_API_SECRET'')"
    by (simp_all add: assms(2) client_config_of_def)
  moreover have "exchanges (remote t) \<le> exchanges (remote s) + 44" using cost(1) n by auto
  ultimately show ?thesis using n ms secrets cost(2) by auto
qed

end
