(* ===== verification/Presentation_Properties.thy ===== *)
theory Presentation_Properties
  imports Presentation Initiation
begin

text \<open>
  What the edge of the payments service promises: replies that show exactly what is stored, an envelope
  for every failure, and a request that ends as the specification of the saga says.
\<close>

section \<open>The read side and the aggregate\<close>

text \<open>The view of a payment computed from the aggregate, which the read side never builds.\<close>

definition view_of_payment :: "Payment \<Rightarrow> PaymentView" where
  "view_of_payment p =
     \<lparr>pv_reference = value (reference p), pv_transactionId = transactionId p, pv_amount = amount (money p),
      pv_currency = currency (money p), pv_description = description p,
      pv_sourceWallet = value (source p), pv_destinationWallet = value (destination p),
      pv_status = status p, pv_failureReason = failureReason p,
      pv_debitTransactionReference = map_option value (debitTransactionReference p),
      pv_creditTransactionReference = map_option value (creditTransactionReference p),
      pv_refundTransactionReference = map_option value (refundTransactionReference p),
      pv_createdAt = createdAt p, pv_completedAt = completedAt p\<rparr>"

lemma optional_reference_back:
  "optional_reference v = Inr r \<Longrightarrow> v \<noteq> Some [] \<Longrightarrow> map_option value r = v"
  by (auto simp: optional_reference_def Reference_of_def split: option.splits if_splits sum.splits)

text \<open>No column of a reference is ever the empty string: the mapper writes references or nothing.\<close>

definition no_empty_references :: "PaymentRow \<Rightarrow> bool" where
  "no_empty_references row \<longleftrightarrow> debit_transaction_reference row \<noteq> Some [] \<and> credit_transaction_reference row \<noteq> Some []
     \<and> refund_transaction_reference row \<noteq> Some []"

lemma toView_toDomain:
  assumes "toDomain row = Inr p" and "no_empty_references row"
  shows "toView (payment_read_model row) = view_of_payment p"
  using assms optional_reference_back
  by (auto simp: toDomain_def restore_def bindE_def snapshot_of_row_def toView_def payment_read_model_def view_of_payment_def no_empty_references_def
      Reference_of_def Money_of_def split: sum.splits if_splits)

lemma toView_fields:
  assumes "toDomain row = Inr p"
  shows "pv_reference (toView (payment_read_model row)) = value (reference p)" "pv_status (toView (payment_read_model row)) = status p"
    "pv_transactionId (toView (payment_read_model row)) = transactionId p" "pv_amount (toView (payment_read_model row)) = amount (money p)"
  using assms by (auto simp: toDomain_def restore_def bindE_def snapshot_of_row_def toView_def payment_read_model_def Reference_of_def Money_of_def
      split: sum.splits if_splits)

lemma mapper_writes_references:
  "wf_payment q \<Longrightarrow> no_empty_references (toPersistence q row)"
  by (auto simp: no_empty_references_def toPersistence_def toSnapshot_def Let_def wf_payment_def optional_wf_def wf_ref_def
      referencePattern_iff split: option.splits)

lemma wp_byReference:
  "wp (byReference r) Q E s =
     (let t = s\<lparr>db_reads := db_reads s + 1\<rparr> in
      if \<not> read_script s (db_reads s) then E (Errors.Plain ''connection failure'') t
      else (case lookupBy row_reference r (payments (db s)) of
          None \<Rightarrow> E (Domain (PaymentNotFoundError r)) t
        | Some row \<Rightarrow> Q (Shown (toResponse (toView (payment_read_model row)))) t))"
  by (simp add: byReference_def get_payment_def read_findByReference_def lookup_read_model wp_simps Let_def split: option.split)

text \<open>
  Property C24. The read side and the aggregate agree: \<open>GET /payments/:reference\<close> answers 200 with exactly
  the fields of the payment the repository would load from the same row, although it never builds it,
  404 when there is none, and changes nothing.
\<close>

theorem read_side_agrees_with_the_aggregate:
  assumes "referencePattern ''pay'' R" and "read_script s (db_reads s)"
    and "\<And>row. lookupBy row_reference R (payments (db s)) = Some row \<Longrightarrow> toDomain row = Inr (p row) \<and> no_empty_references row"
  shows "get_one_payment R s = (Some (case lookupBy row_reference R (payments (db s)) of
       None \<Rightarrow> (404, \<lparr>env_code = ''4008'', env_message = TRANSACTION_NOT_FOUND,
                  env_data = Some (ErrorDetails [(''reference'', String R)])\<rparr>)
     | Some row \<Rightarrow> (200, \<lparr>env_code = ''200'', env_message = SUCCESS,
                  env_data = Some (Shown (toResponse (view_of_payment (p row))))\<rparr>)),
     s\<lparr>db_reads := db_reads s + 1\<rparr>)"
proof -
  have "byReference R s = (case lookupBy row_reference R (payments (db s)) of
       None \<Rightarrow> Inl (Domain (PaymentNotFoundError R))
     | Some row \<Rightarrow> Inr (Shown (toResponse (view_of_payment (p row)))), s\<lparr>db_reads := db_reads s + 1\<rparr>)"
    using assms(2) toView_toDomain assms(3)
    by (auto simp: byReference_def get_payment_def read_findByReference_def lookup_read_model andThen_def query_def ret_def throw_def
        split: option.splits)
  then show ?thesis using assms(1)
    by (auto simp: get_one_payment_def ReferencePipe_def DomainErrorFilter_def MAPPINGS_def mapping_def Let_def
        ResponseInterceptor_def ApiResponse_ok_def split: option.splits)
qed

section \<open>Failures\<close>

lemma domain_reply:
  "DomainErrorFilter e = (case e of AccountsUnavailableError _ _ \<Rightarrow> 503
       | InsufficientBalanceError _ \<Rightarrow> 422 | WalletFrozenError _ \<Rightarrow> 422 | CurrencyMismatchError _ \<Rightarrow> 422 | SameWalletError _ \<Rightarrow> 422
       | WalletNotFoundError _ \<Rightarrow> 404 | PaymentNotFoundError _ \<Rightarrow> 404 | _ \<Rightarrow> 409,
     snd (DomainErrorFilter e)) \<and> env_data (snd (DomainErrorFilter e)) = Some (ErrorDetails (details e))
     \<and> env_code (snd (DomainErrorFilter e)) \<notin> {''200'', ''201'', ''5000''}"
  by (cases e) (simp_all add: DomainErrorFilter_def MAPPINGS_def mapping_def)

text \<open>What an accepted body makes of the payment: its amount and description pass the consumer of the ledger too.\<close>

lemma accepted_body_is_recordable:
  assumes "faulty_fields InitiatePayment_rules body = []"
  shows "\<exists>m. Money_of (cmd_amount (toCommand body)) (cmd_currency (toCommand body)) = Inr m \<and> amount m \<le> AMOUNT_MAX"
    and "isSafeDescription (cmd_description (toCommand body))"
proof -
  have "isValidAmount (property_of ''amount'' body)"
    by (rule faulty_fields_none [OF assms]) (simp add: InitiatePayment_rules_def)
  then obtain n where "property_of ''amount'' body = Number n" "isValidAmount (Number n)"
    by (cases "property_of ''amount'' body") simp_all
  then show "\<exists>m. Money_of (cmd_amount (toCommand body)) (cmd_currency (toCommand body)) = Inr m \<and> amount m \<le> AMOUNT_MAX"
    using isValidAmount_Money [of n XOF] by (simp add: toCommand_def del: isValidAmount.simps)
  have "text_rule isSafeDescription (property_of ''description'' body)"
    by (rule faulty_fields_none [OF assms]) (simp add: InitiatePayment_rules_def)
  then show "isSafeDescription (cmd_description (toCommand body))"
    by (cases "property_of ''description'' body") (simp_all add: toCommand_def)
qed

text \<open>
  Property C14. Every request is answered in the envelope: \<open>POST /payments\<close> answers 201 with a payment, or a
  failure status whose application code is no success and whose data shows no payment; a body that
  breaks the contract is refused with 400 naming its faulty fields before anything is done; an error
  of the domain never becomes a 500. Only a dead process answers nothing.
\<close>

theorem every_request_is_answered:
  assumes "post_payment port j body s = (answer, t)"
  shows "case answer of
      None \<Rightarrow> fst (controller_initiate port j (toCommand body) s) = Inl ProcessDied
    | Some (st, env) \<Rightarrow>
        st = 201 \<and> env_code env = ''201'' \<and> (\<exists>r. env_data env = Some (Shown r))
        \<or> st = 400 \<and> env_code env = ''4000'' \<and> t = s
            \<and> env_data env = Some (FaultyFields (faulty_fields InitiatePayment_rules body))
        \<or> st \<in> {404, 409, 422, 503} \<and> env_code env \<notin> {''200'', ''201'', ''5000''}
            \<and> (\<exists>e. fst (controller_initiate port j (toCommand body) s) = Inl (Domain e) \<and> env_data env = Some (ErrorDetails (details e)))
        \<or> st = 500 \<and> env_code env = ''5000'' \<and> env_data env = None"
proof (cases "faulty_fields InitiatePayment_rules body")
  case (Cons f fs)
  then have "answer = invalid (f # fs)" "t = s" using assms by (simp_all add: post_payment_def)
  then show ?thesis using Cons by (simp add: invalid_def ValidationFailedException_def AppException_of_def)
next
  case Nil
  obtain x u where run: "controller_initiate port j (toCommand body) s = (x, u)" by (meson surj_pair)
  then have answer: "answer = reply 201 x" using assms Nil by (simp add: post_payment_def)
  have "wp (controller_initiate port j (toCommand body)) (\<lambda>y _. \<exists>r. y = Shown r) (\<lambda>_ _. True) s"
    unfolding controller_initiate_def wp_andThen
    by (rule wp_mono [OF wp_true]) (auto simp: wp_simps wp_byReference Let_def split: option.split)
  then have shown: "x = Inr y \<Longrightarrow> \<exists>r. y = Shown r" for y using run by (auto simp: wp_def)
  show ?thesis
  proof (cases x)
    case (Inr y)
    then show ?thesis using answer shown by (auto simp: ResponseInterceptor_def ApiResponse_created_def)
  next
    case (Inl e)
    show ?thesis
    proof (cases e)
      case (Domain d)
      obtain st env where out: "DomainErrorFilter d = (st, env)" by (meson surj_pair)
      have answered: "answer = Some (st, env)" using answer Inl Domain out by simp
      have "st \<in> {404, 409, 422, 503}"
        using out by (cases d) (simp_all add: DomainErrorFilter_def MAPPINGS_def mapping_def Let_def)
      moreover have "env_code env \<notin> {''200'', ''201'', ''5000''}" "env_data env = Some (ErrorDetails (details d))"
        using domain_reply [of d] unfolding out by simp_all
      moreover have "fst (controller_initiate port j (toCommand body) s) = Inl (Domain d)" using run Inl Domain by simp
      ultimately show ?thesis unfolding answered option.case prod.case by blast
    qed (use answer Inl run in simp_all)
  qed
qed

section \<open>A request from end to end\<close>

lemma payment_life_stored:
  assumes "payment_life R t" and "stored_payment R t = Some p"
  obtains v where "stored R (db t) p v"
proof -
  obtain p0 v where p0: "stored R (db t) p0 v"
    using payment_life_sound [OF assms(1)] by (auto simp: sound_def sound_as_def)
  then have "twin p p0" using assms(2) by (auto simp: stored_def stored_payment_def)
  with p0 have "stored R (db t) p v" using twin_sym by (intro stored_twin [OF p0])
  then show thesis by (rule that)
qed

lemma valid_amount:
  assumes "faulty_fields InitiatePayment_rules body = []"
  shows "integerOf (cmd_amount (toCommand body)) = integer_of (property_of ''amount'' body)"
    "integerOf (cmd_amount (toCommand body)) \<le> 2 ^ 53"
proof -
  obtain n where "property_of ''amount'' body = Number n" "integerOf n \<le> AMOUNT_MAX"
    using faulty_fields_none [OF assms, of "''amount''" isValidAmount]
    by (cases "property_of ''amount'' body") (auto simp: InitiatePayment_rules_def)
  then show "integerOf (cmd_amount (toCommand body)) = integer_of (property_of ''amount'' body)"
    "integerOf (cmd_amount (toCommand body)) \<le> 2 ^ 53"
    by (simp_all add: toCommand_def AMOUNT_MAX_def)
qed

lemma ended_row:
  assumes "ends_as R p final net w"
  obtains row q where "lookupBy row_reference R (payments (db w)) = Some row" "toDomain row = Inr q"
    "value (reference q) = R" "status q = final" "transactionId q = transactionId p" "money q = money p"
    "read_script w (db_reads w)"
proof -
  obtain q where q: "at_rest R w q" "same_payment p q" "status q = final" using assms by (auto simp: ends_as_def)
  then obtain row q0 where row: "lookupBy row_reference R (payments (db w)) = Some row" "toDomain row = Inr q0" "twin q0 q"
    by (auto simp: at_rest_def stored_def)
  have "value (reference q0) = R" "status q0 = final" "transactionId q0 = transactionId p" "money q0 = money p"
    using same_payment_twin [OF twin_sym [OF row(3)]] twin_spec_fields(6) [OF row(3)] q(2,3) at_rest_payment [OF q(1)]
    by (simp_all add: same_payment_def)
  moreover have "read_script w (db_reads w)" using q(1) by (simp add: at_rest_def well_behaved_def calm_db_def)
  ultimately show thesis using row by (intro that)
qed

text \<open>
  Property C7. A payment request ends as the specification says: for a valid body with a new key, in a
  world whose database and lock behave, \<open>POST /payments\<close> answers 201 with the payment in exactly the
  status the decision table of the saga gives for what the accounts service answers, leaves that
  service in the state of the table, and the payment keeps the guarantees of its life from then on.
\<close>

theorem payment_request_ends_as_specified:
  assumes "faulty_fields InitiatePayment_rules body = []" and "well_behaved R s"
    and "the_initiation j (toCommand body) s = (Inr (Some R, False), u)"
    and "net_inv (own_keys R) (remote s)" and "messages_of R (found_tables s) = []"
    and "\<forall>k \<in> own_keys R. quiet net_moved net_pending (remote s) k"
    and "stored_payment R u = Some p" and "saga_outcome AccountsHttpClient p (remote s) = Some (final, net)"
  shows "\<exists>t r. post_payment AccountsHttpClient j body s = (Some (201, ApiResponse_created (Some (Shown r))), t)
    \<and> pr_reference r = R \<and> pr_status r = final \<and> pr_transaction_id r = text_of (property_of ''transaction_id'' body)
    \<and> pr_amount r = integer_of (property_of ''amount'' body) \<and> remote t = net \<and> payment_life R t"
proof -
  let ?c = "toCommand body"
  note amount = valid_amount [OF assms(1)]
  have outside: "\<not> in_tx s" "scripts_legit R s" using assms(2) by (simp_all add: well_behaved_def scripts_legit_def)
  note born = initiated_life [OF outside(1) assms(3) amount(2) assms(4) outside(2) assms(5,6)]
  then have life: "payment_life R u" and p: "status p = Pending" "transactionId p = cmd_transactionId ?c"
      "amount (money p) = integerOf (cmd_amount ?c)" using assms(7) by auto
  obtain v where stored: "stored R (db u) p v" by (rule payment_life_stored [OF life assms(7)])
  have steady: "steady s u"
    using wp_the_initiation [OF outside(1), of j ?c] assms(3) by (simp add: wp_def)
  then have rest: "at_rest R u p" and remote: "remote u = remote s"
    using stored well_behaved_scripts assms(2) unfolding at_rest_def steady_def by blast+
  obtain ref where ref: "Reference_of PAYMENT R = Inr ref" "value ref = R"
    using at_rest_payment [OF rest] by (auto simp: wf_payment_def wf_ref_def)
  have "wp (saga_run AccountsHttpClient ref) (\<lambda>_. ends_as R p final net) (\<lambda>_ _. False) u"
    using wire.saga_implements [OF rest p(1) _ ref(2)] assms(4,8) remote by simp
  then obtain x w where run: "saga_run AccountsHttpClient ref u = (Inr x, w)" and ends: "ends_as R p final net w"
    by (rule run_returns)
  obtain row q where row: "lookupBy row_reference R (payments (db w)) = Some row" "toDomain row = Inr q"
      "value (reference q) = R" "status q = final" "transactionId q = transactionId p" "money q = money p"
      "read_script w (db_reads w)"
    by (rule ended_row [OF ends])
  let ?t = "w\<lparr>db_reads := db_reads w + 1\<rparr>"
  have reply: "post_payment AccountsHttpClient j body s = (Some (201, ApiResponse_created (Some (Shown (toResponse (toView (payment_read_model row)))))), ?t)"
    by (simp add: post_payment_def controller_initiate_def initiate_execute_def andThen_def raiseInl_def ret_def byReference_def
        get_payment_def read_findByReference_def lookup_read_model query_def ResponseInterceptor_def assms(1,3) ref(1) run row(1,7))
  have later: "payment_life R w" by (rule payment_life.saga [OF life ref(2) run])
  then have "net_inv (own_keys R) (remote w)" "scripts_legit R w" "\<not> in_tx w"
    using payment_life_sound by (fastforce simp: sound_def sound_as_def scripts_legit_def)+
  then have "elsewhere R w ?t" by (simp add: elsewhere_def steps_refl scripts_legit_def)
  then have "payment_life R ?t" by (rule payment_life.meanwhile [OF later])
  moreover have "remote ?t = net" using ends by (simp add: ends_as_def)
  ultimately show ?thesis
    using reply toView_fields [OF row(2)] row(3-6) p amount(1)
    by (intro exI [of _ ?t] exI [of _ "toResponse (toView (payment_read_model row))"]) (simp add: toResponse_def toCommand_def)
qed

end
