(* ===== verification/Presentation_Scenarios.thy ===== *)
theory Presentation_Scenarios
  imports Presentation_Properties
begin

text \<open>
  A request against the concrete world: the witnesses of \<open>Presentation_Properties\<close>.
\<close>

definition demo_body :: json_object where
  "demo_body =
     [(''transaction_id'', String ''order-0001''), (''source_wallet_reference'', String ''wlt_00000000010000000000000000''),
      (''destination_wallet_reference'', String ''wlt_00000000030000000000000000''), (''amount'', Number (num 300)),
      (''currency'', String ''XOF''), (''description'', String ''Invoice''), (''lang'', String ''fr'')]"

lemma demo_body_valid: "faulty_fields InitiatePayment_rules demo_body = []"
proof -
  have "isTransactionId ''order-0001''" "referencePattern ''wlt'' ''wlt_00000000010000000000000000''"
    "referencePattern ''wlt'' ''wlt_00000000030000000000000000''" "isSafeDescription ''Invoice''"
    by code_simp+
  then show ?thesis
    by (simp add: faulty_fields_def InitiatePayment_rules_def demo_body_def property_of_def isCurrency_def optional_rule_def
        AMOUNT_MIN_def AMOUNT_MAX_def AMOUNT_STEP_def)
qed

lemma demo_body_command: "toCommand demo_body = demo_command"
  by (simp add: toCommand_def demo_body_def property_of_def demo_command_def)

definition demo_made :: Payment where
  "demo_made = demo_payment\<lparr>reference := \<lparr>prefix = ''pay'', value = demo_new\<rparr>, createdAt := 0, updatedAt := 0\<rparr>"

lemma demo_new_is: "demo_new = ''pay_00000000010000000000000000''"
proof -
  have "random_digit 0 = CHR ''0''" by (simp add: random_digit_def digit_def ALPHABET_def)
  moreover have "encodeTime 1 = ''0000000001''" by code_simp
  ultimately show ?thesis
    by (simp add: demo_new_def Reference_generate_def RANDOM_LENGTH_def REFERENCE_BODY_LENGTH_def TIME_LENGTH_def
        map_replicate_const numeral_eq_Suc)
qed

lemma demo_made_wf: "wf_payment demo_made"
proof -
  have "referencePattern ''pay'' demo_new" unfolding demo_new_is by code_simp
  then show ?thesis using demo_payment_wf
    by (simp add: wf_payment_def demo_made_def wf_ref_def wf_fields_def demo_payment_def)
qed

lemma demo_opened_row:
  "payments (db demo_opened) = [toPersistence demo_made (default_row 2)]"
proof -
  have "referencePattern ''wlt'' ''wlt_00000000010000000000000000''" "referencePattern ''wlt'' ''wlt_00000000030000000000000000''"
    by code_simp+
  then have refs: "Reference_of WALLET ''wlt_00000000010000000000000000'' = Inr \<lparr>prefix = ''wlt'', value = ''wlt_00000000010000000000000000''\<rparr>"
    "Reference_of WALLET ''wlt_00000000030000000000000000'' = Inr \<lparr>prefix = ''wlt'', value = ''wlt_00000000030000000000000000''\<rparr>"
    by simp_all
  have money: "Money_of (num 300) XOF = Inr \<lparr>amount = 300, currency = XOF\<rparr>"
    using Money_of_num [of "\<lparr>amount = 300, currency = XOF\<rparr>"] by (simp add: wf_money_def)
  have fresh: "Reference_generate PAYMENT (Suc 0) (\<lambda>_. 0) = \<lparr>prefix = ''pay'', value = demo_new\<rparr>"
    by (simp add: demo_new_def Reference_generate_def)
  show ?thesis
    unfolding demo_opened_def idempotency_execute_def create_payment_def demo_command_def
    by (simp add: refs money fresh transaction_run_def claim_def query_def andThen_def raiseInl_def new_Date_def
        fresh_payment_reference_def reads_def writes_def initiate_def save_def the_payment_def update_db_def complete_def
        ret_def ref_equals_def demo_shop_def demo_world_def demo_made_def demo_payment_def toPersistence_def toSnapshot_def Let_def numeral_2_eq_2)
qed

lemma demo_opened_payment: "stored_payment demo_new demo_opened = Some (demo_made\<lparr>createdAt := 2, updatedAt := 2, events := []\<rparr>)"
proof -
  have "value (reference demo_made) = demo_new" "amount (money demo_made) \<le> 2 ^ 53" by (simp_all add: demo_made_def demo_payment_def)
  then show ?thesis using toDomain_fresh [OF demo_made_wf, of "default_row 2"]
    by (simp add: stored_payment_def demo_opened_row row_of_payment default_row_def)
qed

lemma demo_made_outcome: "map_option fst (saga_outcome AccountsHttpClient
    (demo_payment\<lparr>reference := \<lparr>prefix = ''pay'', value = ''pay_00000000010000000000000000''\<rparr>\<rparr>) sunny) = Some Approved"
  by code_simp

theorem payment_request_ends_as_specified_witness:
  "\<exists>t r. post_payment AccountsHttpClient demo_json demo_body demo_shop = (Some (201, ApiResponse_created (Some (Shown r))), t)
     \<and> pr_status r = Approved \<and> pr_amount r = 300 \<and> payment_life demo_new t"
proof -
  let ?p = "demo_made\<lparr>createdAt := 2, updatedAt := 2, events := []\<rparr>"
  have "saga_outcome AccountsHttpClient ?p = saga_outcome AccountsHttpClient
      (demo_payment\<lparr>reference := \<lparr>prefix = ''pay'', value = ''pay_00000000010000000000000000''\<rparr>\<rparr>)"
    by (rule outcome_cong) (simp_all add: demo_made_def demo_new_is demo_payment_def)
  then obtain net where out: "saga_outcome AccountsHttpClient ?p (remote demo_shop) = Some (Approved, net)"
    using demo_made_outcome by (auto simp: demo_shop_simps)
  have calm: "well_behaved demo_new demo_shop"
    by (simp add: well_behaved_def calm_db_def legit_tx_def demo_shop_def demo_world_def)
  have "''opening-wlt-00000000010000000000000000'' \<notin> own_keys demo_new" by (simp add: demo_new_is own_keys_def)
  then have quiet: "\<forall>k \<in> own_keys demo_new. quiet net_moved net_pending (remote demo_shop) k"
    unfolding demo_shop_simps sunny_def using demo_fresh [OF demo_ids(1)] by blast
  have inv: "net_inv (own_keys demo_new) (remote demo_shop)" using sunny_inv by (simp add: demo_shop_simps)
  have empty: "messages_of demo_new (found_tables demo_shop) = []" by (simp add: demo_shop_simps messages_of_def)
  note asked = demo_initiated [folded demo_body_command]
  from payment_request_ends_as_specified [OF demo_body_valid calm asked inv empty quiet demo_opened_payment out]
  have "\<exists>t r. post_payment AccountsHttpClient demo_json demo_body demo_shop = (Some (201, ApiResponse_created (Some (Shown r))), t)
     \<and> pr_status r = Approved \<and> pr_amount r = integer_of (property_of ''amount'' demo_body) \<and> payment_life demo_new t" by blast
  then show ?thesis by (simp add: demo_body_def property_of_def)
qed

theorem read_side_agrees_with_the_aggregate_witness:
  "fst (get_one_payment demo_new demo_opened) = Some (200, ApiResponse_ok (Some (Shown (toResponse (view_of_payment
     (demo_made\<lparr>createdAt := 2, updatedAt := 2, events := []\<rparr>))))))"
proof -
  let ?row = "toPersistence demo_made (default_row 2)"
  let ?p = "demo_made\<lparr>createdAt := 2, updatedAt := 2, events := []\<rparr>"
  have here: "lookupBy row_reference demo_new (payments (db demo_opened)) = Some ?row"
    by (simp add: demo_opened_row row_of_payment demo_made_def)
  have loaded: "toDomain ?row = Inr ?p"
    using demo_opened_payment here by (auto simp: stored_payment_def split: sum.splits)
  have "no_empty_references ?row" by (rule mapper_writes_references [OF demo_made_wf])
  moreover have "referencePattern ''pay'' demo_new" unfolding demo_new_is by code_simp
  ultimately show ?thesis
    using read_side_agrees_with_the_aggregate [of demo_new demo_opened "\<lambda>_. ?p"] here loaded demo_opened_key(3)
    by (simp add: ApiResponse_ok_def)
qed

theorem every_request_is_answered_witness:
  "fst (post_payment AccountsHttpClient demo_json [] demo_shop) \<noteq> None"
  using every_request_is_answered [of AccountsHttpClient demo_json "[]" demo_shop, OF prod.collapse [symmetric]]
  by (auto simp: post_payment_def faulty_fields_def InitiatePayment_rules_def property_of_def invalid_def split: option.splits)

end
