(* ===== verification/Seeds.thy ===== *)
theory Seeds
  imports Accounts_Ledger Ledger
begin

text \<open>
  The seed scripts of the accounts and transactions services: demo rows found by a natural key
  (email, label, transaction id) and inserted only when absent. \<open>seed()\<close> is given the answer of
  \<open>showMigrations\<close> and ends with the exit code of the process; a database it cannot connect to is the
  same exit code 1 with nothing read.
\<close>

section \<open>The accounts service\<close>

record wallet_fixture =
  fx_label :: string
  fx_balance :: int
  fx_status :: WalletStatus

record user_fixture =
  fx_email :: string
  fx_firstname :: string
  fx_lastname :: string
  fx_phone :: string
  fx_city :: string
  fx_country :: string
  fx_wallets :: "wallet_fixture list"

text \<open>The letter e with an acute accent is \<open>CHR 0xE9\<close>.\<close>

definition ACCOUNTS_FIXTURES :: "user_fixture list" where
  "ACCOUNTS_FIXTURES =
     [\<lparr>fx_email = ''awa.traore@example.com'', fx_firstname = ''Awa'', fx_lastname = ''Traor'' @ [CHR 0xE9],
       fx_phone = ''+2250700000001'', fx_city = ''Abidjan'', fx_country = ''CI'',
       fx_wallets =
         [\<lparr>fx_label = ''Compte principal'', fx_balance = 500000, fx_status = ACTIVE\<rparr>,
          \<lparr>fx_label = ''Compte '' @ [CHR 0xE9] @ ''pargne'', fx_balance = 0, fx_status = ACTIVE\<rparr>]\<rparr>,
      \<lparr>fx_email = ''kofi.mensah@example.com'', fx_firstname = ''Kofi'', fx_lastname = ''Mensah'',
       fx_phone = ''+2250700000002'', fx_city = ''Bouak'' @ [CHR 0xE9], fx_country = ''CI'',
       fx_wallets =
         [\<lparr>fx_label = ''Compte principal'', fx_balance = 25000, fx_status = ACTIVE\<rparr>,
          \<lparr>fx_label = ''Compte marchand'', fx_balance = 75000, fx_status = ACTIVE\<rparr>]\<rparr>,
      \<lparr>fx_email = ''salif.diallo@example.com'', fx_firstname = ''Salif'', fx_lastname = ''Diallo'',
       fx_phone = ''+2260700000003'', fx_city = ''Ouagadougou'', fx_country = ''BF'',
       fx_wallets = [\<lparr>fx_label = ''Compte bloqu'' @ [CHR 0xE9], fx_balance = 10000, fx_status = FROZEN\<rparr>]\<rparr>]"

definition upsertUser :: "user_fixture \<Rightarrow> User accounts_prog" where
  "upsertUser f =
     andThen (reads (\<lambda>db. lookupBy customer_email (fx_email f) (users db))) (\<lambda>existing. case existing of
       Some u \<Rightarrow> ret u
     | None \<Rightarrow>
         andThen (freshReference USER) (\<lambda>fresh.
         UserRepository_create
           \<lparr>user_id = 0, user_reference = fresh, customer_firstname = fx_firstname f,
            customer_lastname = fx_lastname f, customer_email = fx_email f,
            customer_phone_number = fx_phone f, customer_address = None, customer_city = Some (fx_city f),
            customer_country = Some (fx_country f), customer_zip_code = None, user_created_at = 0\<rparr>))"

definition label_of :: "Wallet \<Rightarrow> nat \<times> string option" where
  "label_of w = (wallet_user_id w, wallet_label w)"

definition upsertWallet :: "User \<Rightarrow> wallet_fixture \<Rightarrow> unit accounts_prog" where
  "upsertWallet user f =
     andThen (reads (\<lambda>db. lookupBy label_of (user_id user, Some (fx_label f)) (wallets db))) (\<lambda>existing. case existing of
       Some w \<Rightarrow> ret ()
     | None \<Rightarrow>
         andThen (freshReference WALLET) (\<lambda>fresh.
         andThen (WalletRepository_create
           \<lparr>wallet_id = 0, wallet_reference = fresh, wallet_user_id = user_id user, wallet_currency = ''XOF'',
            balance = fx_balance f, reserved_amount = 0, wallet_label = Some (fx_label f),
            wallet_status = fx_status f, wallet_created_at = 0\<rparr>) (\<lambda>created.
         if fx_balance f > 0
         then andThen (freshReference TRANSACTION) (\<lambda>movement.
              andThen (append_entry
                \<lparr>entry_reference = movement, entry_wallet_id = wallet_id created,
                 entry_transaction_id = opening_key fresh, entry_type = CREDIT, entry_amount = fx_balance f,
                 entry_currency = ''XOF'', balance_before = 0, balance_after = fx_balance f,
                 entry_description = ''Opening balance'', entry_payment_reference = None,
                 entry_created_at = 0\<rparr>) (\<lambda>_. ret ()))
         else ret ())))"

definition accounts_seedFixtures :: "user_fixture list \<Rightarrow> unit accounts_prog" where
  "accounts_seedFixtures fixtures =
     forEach fixtures (\<lambda>f. andThen (upsertUser f) (\<lambda>user. forEach (fx_wallets f) (upsertWallet user)))"

definition accounts_seed :: "bool \<Rightarrow> accounts_db \<Rightarrow> nat \<times> accounts_db" where
  "accounts_seed pendingMigrations db =
     (if pendingMigrations then (1, db)
      else (case transaction (accounts_seedFixtures ACCOUNTS_FIXTURES) db of
              (Inl _, d) \<Rightarrow> (1, d) | (Inr _, d) \<Rightarrow> (0, d)))"

section \<open>The transactions service\<close>

record movement_fixture =
  fm_transaction_id :: string
  fm_type :: TransactionType
  fm_amount :: int
  fm_description :: string
  fm_occurred_at :: nat

text \<open>\<open>occurred_at\<close> is the number of milliseconds \<open>new Date(iso)\<close> reads.\<close>

definition LEDGER_FIXTURES :: "movement_fixture list" where
  "LEDGER_FIXTURES =
     [\<lparr>fm_transaction_id = ''seed-movement-000001'', fm_type = DEBIT, fm_amount = 15000,
       fm_description = ''Paiement facture avril'', fm_occurred_at = 1788255000000\<rparr>,
      \<lparr>fm_transaction_id = ''seed-movement-000002'', fm_type = REFUND, fm_amount = 15000,
       fm_description = ''Remboursement facture avril'', fm_occurred_at = 1788357900000\<rparr>,
      \<lparr>fm_transaction_id = ''seed-movement-000003'', fm_type = CREDIT, fm_amount = 40000,
       fm_description = ''Virement entrant'', fm_occurred_at = 1788422400000\<rparr>]"

definition seed_movement :: "movement_fixture \<Rightarrow> unit ledger_prog" where
  "seed_movement f =
     andThen (findTransaction (fm_transaction_id f)) (\<lambda>existing. case existing of
       Some t \<Rightarrow> ret ()
     | None \<Rightarrow>
         andThen fresh_transaction_reference (\<lambda>fresh.
         andThen (append_transaction
           \<lparr>txn_id = 0, txn_reference = fresh, txn_transaction_id = fm_transaction_id f,
            txn_payment_reference = ''pay_01hq3m8x0000zt7k9d2v4bqf1c'', txn_type = fm_type f,
            txn_wallet_reference = ''wlt_01hq3m8x0000zt7k9d2v4bqf1c'',
            txn_user_reference = ''usr_01hq3m8x0000zt7k9d2v4bqf1c'', txn_amount = fm_amount f,
            txn_currency = ''XOF'', txn_description = fm_description f, txn_status = APPROVED,
            txn_occurred_at = fm_occurred_at f, txn_recorded_at = 0\<rparr>) (\<lambda>_. ret ())))"

definition ledger_seed :: "bool \<Rightarrow> ledger_db \<Rightarrow> nat \<times> ledger_db" where
  "ledger_seed pendingMigrations db =
     (if pendingMigrations then (1, db)
      else (case forEach LEDGER_FIXTURES seed_movement db of
              (Inl _, d) \<Rightarrow> (1, d\<lparr>transactions := transactions db\<rparr>) | (Inr _, d) \<Rightarrow> (0, d)))"

section \<open>What a pass establishes\<close>

definition grows :: "accounts_db \<Rightarrow> accounts_db \<Rightarrow> bool" where
  "grows a b \<longleftrightarrow> (\<exists>us ws. users b = users a @ us \<and> wallets b = wallets a @ ws)"

lemma seeded_refl: "grows a a"
  by (simp add: grows_def)

lemma seeded_trans: "grows a b \<Longrightarrow> grows b c \<Longrightarrow> grows a c"
  by (auto simp: grows_def)

definition wallet_present :: "User \<Rightarrow> wallet_fixture \<Rightarrow> accounts_db \<Rightarrow> bool" where
  "wallet_present u f db \<longleftrightarrow> lookupBy label_of (user_id u, Some (fx_label f)) (wallets db) \<noteq> None"

definition user_present :: "user_fixture \<Rightarrow> accounts_db \<Rightarrow> bool" where
  "user_present f db \<longleftrightarrow> (\<exists>u. lookupBy customer_email (fx_email f) (users db) = Some u
     \<and> (\<forall>w \<in> set (fx_wallets f). wallet_present u w db))"

lemma wallet_present_grows: "wallet_present u f a \<Longrightarrow> grows a b \<Longrightarrow> wallet_present u f b"
  by (auto simp: wallet_present_def grows_def lookupBy_append)

lemma user_present_grows: "user_present f a \<Longrightarrow> grows a b \<Longrightarrow> user_present f b"
  unfolding user_present_def using wallet_present_grows
  by (fastforce simp: grows_def lookupBy_append)

lemma upsertUser_spec:
  "wp (upsertUser f) (\<lambda>u d. grows db d \<and> lookupBy customer_email (fx_email f) (users d) = Some u) (\<lambda>_ _. True) db"
  by (auto simp: wp_def upsertUser_def andThen_def reads_def ret_def freshReference_def UserRepository_create_def
      unique_violation_def throw_def Let_def grows_def lookupBy_append split: option.split prod.split)

lemma upsertWallet_spec:
  "wp (upsertWallet u f) (\<lambda>_ d. grows db d \<and> wallet_present u f d) (\<lambda>_ _. True) db"
  by (auto simp: wp_def upsertWallet_def andThen_def reads_def ret_def freshReference_def WalletRepository_create_def
      append_entry_def unique_violation_def numeric_out_of_range_def throw_def Let_def grows_def lookupBy_append
      wallet_present_def label_of_def split: option.split prod.split)

lemma accounts_seedFixtures_spec:
  "wp (accounts_seedFixtures fixtures) (\<lambda>_ d. \<forall>f \<in> set fixtures. user_present f d) (\<lambda>_ _. True) db"
proof -
  have wallets_there: "wp (forEach fs (upsertWallet u)) (\<lambda>_ t. grows s t \<and> (\<forall>w \<in> set fs. wallet_present u w t)) (\<lambda>_ _. True) s"
    for fs u s
    by (rule forEach_establishes [OF upsertWallet_spec wallet_present_grows seeded_refl seeded_trans]) assumption+
  have "wp (andThen (upsertUser f) (\<lambda>user. forEach (fx_wallets f) (upsertWallet user)))
      (\<lambda>_ t. grows s t \<and> user_present f t) (\<lambda>_ _. True) s" for f s
    unfolding wp_andThen
  proof (rule wp_mono [OF upsertUser_spec], goal_cases)
    case (1 u d)
    have "user_present f t" if "grows d t" "\<forall>w \<in> set (fx_wallets f). wallet_present u w t" for t
      using 1 that by (fastforce simp: user_present_def grows_def lookupBy_append split: option.split)
    then show ?case using 1 seeded_trans by (intro wp_mono [OF wallets_there]) blast+
  qed simp
  then have "wp (accounts_seedFixtures fixtures) (\<lambda>_ t. grows db t \<and> (\<forall>f \<in> set fixtures. user_present f t)) (\<lambda>_ _. True) db"
    unfolding accounts_seedFixtures_def
    by (rule forEach_establishes [OF _ user_present_grows seeded_refl seeded_trans]) assumption+
  then show ?thesis by (rule wp_mono) simp_all
qed

lemma accounts_seedFixtures_idle:
  assumes "\<forall>f \<in> set fixtures. user_present f db"
  shows "accounts_seedFixtures fixtures db = (Inr (), db)"
  unfolding accounts_seedFixtures_def
proof (rule forEach_idle)
  fix f assume "f \<in> set fixtures"
  then obtain u where u: "lookupBy customer_email (fx_email f) (users db) = Some u"
    "\<forall>w \<in> set (fx_wallets f). wallet_present u w db" using assms by (auto simp: user_present_def)
  have "upsertUser f db = (Inr u, db)" using u(1) by (simp add: upsertUser_def andThen_def reads_def ret_def)
  moreover have "forEach (fx_wallets f) (upsertWallet u) db = (Inr (), db)"
    by (rule forEach_idle) (use u(2) in \<open>auto simp: upsertWallet_def andThen_def reads_def ret_def wallet_present_def\<close>)
  ultimately show "andThen (upsertUser f) (\<lambda>user. forEach (fx_wallets f) (upsertWallet user)) db = (Inr (), db)"
    by (simp add: andThen_def)
qed

section \<open>The books\<close>

lemma keeps_upsertUser: "keeps {} (upsertUser f)"
  by (rule keeps_tables)
    (simp add: upsertUser_def andThen_def reads_def ret_def freshReference_def UserRepository_create_def
      unique_violation_def throw_def Let_def split: prod.split option.split)

lemma upsertWallet_rows:
  assumes "upsertWallet u f db = (Inr x, d)" and "\<not> wallet_present u f db"
  shows "\<exists>w e. wallets d = wallets db @ [w] \<and> ledger d = (if fx_balance f > 0 then ledger db @ [e] else ledger db)
     \<and> lookupBy wallet_reference (wallet_reference w) (wallets db) = None
     \<and> wallet_id w = length (wallets db) \<and> balance w = fx_balance f \<and> reserved_amount w = 0
     \<and> (fx_balance f > 0 \<longrightarrow> entry_wallet_id e = wallet_id w \<and> signed_amount e = fx_balance f
       \<and> entry_amount e = fx_balance f \<and> entry_type e = CREDIT \<and> balance_after e = fx_balance f \<and> balance_before e = 0
       \<and> lookupBy entry_key (entry_key e) (ledger db) = None
       \<and> lookupBy entry_reference (entry_reference e) (ledger db) = None)"
proof -
  obtain m1 b1 where d1: "refs db (drawn db) = (m1, b1)" by fastforce
  obtain m2 b2 where d2: "refs db (Suc (drawn db)) = (m2, b2)" by fastforce
  let ?w = "\<lparr>wallet_id = length (wallets db), wallet_reference = generateReference WALLET m1 b1,
    wallet_user_id = user_id u, wallet_currency = ''XOF'', balance = fx_balance f, reserved_amount = 0,
    wallet_label = Some (fx_label f), wallet_status = fx_status f, wallet_created_at = now_ms db\<rparr>"
  let ?e = "\<lparr>entry_reference = generateReference TRANSACTION m2 b2, entry_wallet_id = length (wallets db),
    entry_transaction_id = opening_key (generateReference WALLET m1 b1), entry_type = CREDIT,
    entry_amount = fx_balance f, entry_currency = ''XOF'', balance_before = 0, balance_after = fx_balance f,
    entry_description = ''Opening balance'', entry_payment_reference = None, entry_created_at = now_ms db\<rparr>"
  have "wallets d = wallets db @ [?w] \<and> ledger d = (if fx_balance f > 0 then ledger db @ [?e] else ledger db)
     \<and> lookupBy wallet_reference (wallet_reference ?w) (wallets db) = None
     \<and> (fx_balance f > 0 \<longrightarrow> lookupBy entry_key (entry_key ?e) (ledger db) = None
          \<and> lookupBy entry_reference (entry_reference ?e) (ledger db) = None)"
    using assms
    by (simp add: upsertWallet_def wallet_present_def andThen_def reads_def ret_def freshReference_def d1 d2 entry_key_def
          WalletRepository_create_def append_entry_def unique_violation_def numeric_out_of_range_def throw_def Let_def
          split: if_splits) auto
  then show ?thesis
    by (intro exI [of _ ?w] exI [of _ ?e]) (simp add: signed_amount_def delta_of_def)
qed

lemma upsertWallet_keeps:
  assumes "accounts_inv db" and "0 \<le> fx_balance f" and "fx_balance f \<le> AMOUNT_MAX"
  shows "wp (upsertWallet u f) (\<lambda>_ d. accounts_inv d) (\<lambda>_ _. True) db"
proof -
  have b: "bigint_ok (fx_balance f)" "\<bar>fx_balance f\<bar> \<le> 2 ^ 53"
    using assms(2,3) by (simp_all add: bigint_ok_def AMOUNT_MAX_def)
  have "accounts_inv d" if run: "upsertWallet u f db = (Inr x, d)" for x d
  proof (cases "wallet_present u f db")
    case True
    then show ?thesis using run assms(1)
      by (auto simp: wallet_present_def upsertWallet_def andThen_def reads_def ret_def)
  next
    case False
    from upsertWallet_rows [OF run this] obtain w e where
      rows: "wallets d = wallets db @ [w]" "ledger d = (if fx_balance f > 0 then ledger db @ [e] else ledger db)"
      and w: "lookupBy wallet_reference (wallet_reference w) (wallets db) = None"
        "wallet_id w = length (wallets db)" "balance w = fx_balance f" "reserved_amount w = 0"
      and e: "fx_balance f > 0 \<longrightarrow> entry_wallet_id e = wallet_id w \<and> signed_amount e = fx_balance f
       \<and> entry_amount e = fx_balance f \<and> entry_type e = CREDIT \<and> balance_after e = fx_balance f \<and> balance_before e = 0
       \<and> lookupBy entry_key (entry_key e) (ledger db) = None
       \<and> lookupBy entry_reference (entry_reference e) (ledger db) = None" by blast
    show ?thesis by (rule opening_inv [OF assms(1,2) b w rows]) (use e in blast)
  qed
  then show ?thesis by (auto simp: wp_def split: prod.split sum.split)
qed

lemma accounts_seedFixtures_keeps:
  assumes "accounts_inv db"
  shows "wp (accounts_seedFixtures ACCOUNTS_FIXTURES) (\<lambda>_ d. accounts_inv d) (\<lambda>_ _. True) db"
  unfolding accounts_seedFixtures_def
proof (rule wp_forEach_returns [where I = accounts_inv, OF _ assms])
  fix f s assume f: "f \<in> set ACCOUNTS_FIXTURES" and s: "accounts_inv s"
  have amounts: "\<forall>w \<in> set (fx_wallets f). 0 \<le> fx_balance w \<and> fx_balance w \<le> AMOUNT_MAX"
    using f by (auto simp: ACCOUNTS_FIXTURES_def AMOUNT_MAX_def)
  have user: "wp (upsertUser f) (\<lambda>_. accounts_inv) (\<lambda>_ _. True) s"
    by (rule wp_mono [OF keeps_upsertUser [rule_format, OF s]]) simp_all
  show "wp (andThen (upsertUser f) (\<lambda>user. forEach (fx_wallets f) (upsertWallet user))) (\<lambda>_. accounts_inv) (\<lambda>_ _. True) s"
    unfolding wp_andThen
    by (rule wp_mono [OF user]) (use amounts in \<open>auto intro!: wp_forEach_returns upsertWallet_keeps\<close>)
qed

text \<open>
  Seeding is repeatable and keeps the books: whatever the database holds, the seed either
  fails with exit code 1 and leaves every table as it was, or leaves each demo user with each of its
  wallets present, every balance still being the sum of the movements booked on it; and a database
  where they are all present, the one just seeded included, is left untouched by another run, so no
  wallet is credited twice.
\<close>

theorem accounts_seed_is_repeatable:
  assumes "accounts_inv db" and "accounts_seed pending db = (exit_code, d)"
  shows "accounts_inv d
    \<and> (exit_code = 1 \<and> users d = users db \<and> wallets d = wallets db \<and> ledger d = ledger db
       \<or> exit_code = 0 \<and> (\<forall>f \<in> set ACCOUNTS_FIXTURES. user_present f d))
    \<and> (\<forall>d'. (\<forall>f \<in> set ACCOUNTS_FIXTURES. user_present f d') \<longrightarrow> accounts_seed False d' = (0, d'))"
proof -
  obtain x u where run: "accounts_seedFixtures ACCOUNTS_FIXTURES db = (x, u)" by (meson surj_pair)
  have "accounts_inv d \<and> (exit_code = 1 \<and> users d = users db \<and> wallets d = wallets db \<and> ledger d = ledger db
       \<or> exit_code = 0 \<and> (\<forall>f \<in> set ACCOUNTS_FIXTURES. user_present f d))"
  proof (cases "pending \<or> isl x")
    case True
    then have "exit_code = 1" "users d = users db" "wallets d = wallets db" "ledger d = ledger db"
      using assms(2) run by (auto simp: accounts_seed_def transaction_def split: sum.splits if_splits)
    then show ?thesis using assms(1) accounts_inv_tables by blast
  next
    case False
    then have "exit_code = 0" "x = Inr ()" "d = u"
      using assms(2) run by (auto simp: accounts_seed_def transaction_def split: sum.splits)
    then show ?thesis
      using run wp_returns [OF accounts_seedFixtures_keeps [OF assms(1)]]
        wp_returns [OF accounts_seedFixtures_spec [of ACCOUNTS_FIXTURES db]] by auto
  qed
  moreover have "accounts_seed False d' = (0, d')" if "\<forall>f \<in> set ACCOUNTS_FIXTURES. user_present f d'" for d'
    using accounts_seedFixtures_idle [OF that] by (simp add: accounts_seed_def transaction_def)
  ultimately show ?thesis by blast
qed

section \<open>The ledger\<close>

lemma ledger_seed_idle:
  assumes "\<forall>f \<in> set LEDGER_FIXTURES. lookupBy txn_transaction_id (fm_transaction_id f) (transactions db) \<noteq> None"
  shows "ledger_seed False db = (0, db)"
proof -
  have "forEach LEDGER_FIXTURES seed_movement db = (Inr (), db)"
    by (rule forEach_idle) (use assms in \<open>auto simp: seed_movement_def findTransaction_def andThen_def reads_def ret_def\<close>)
  then show ?thesis by (simp add: ledger_seed_def)
qed

end
