(* ===== verification/Payments_Seed.thy ===== *)
theory Payments_Seed
  imports Handlers Coherence
begin

text \<open>
  The seed script of the payments service: one payment of each terminal status, brought there through
  the aggregate, inserted when its transaction id is absent, its events dropped.
\<close>

definition newPayment :: "string \<Rightarrow> int \<Rightarrow> ('r, unit) work" where
  "newPayment t n =
     andThen (raiseInl (Money_of (num n) XOF)) (\<lambda>m.
     andThen (raiseInl (Reference_of WALLET ''wlt_01hq3m8x0000zt7k9d2v4bqf1c'')) (\<lambda>src.
     andThen (raiseInl (Reference_of WALLET ''wlt_01hq3m8x0000zt7k9d2v4bqf9z'')) (\<lambda>dst.
     andThen new_Date (\<lambda>now.
     andThen fresh_payment_reference (\<lambda>fresh.
     andThen (raiseInl (initiate \<lparr>in_transactionId = t, in_money = m, in_source = src, in_destination = dst,
        in_description = ''Paiement de demonstration'', in_metadata = None\<rparr> fresh now)) (\<lambda>p.
     writes (\<lambda>s. s\<lparr>held := Some p, revision := None\<rparr>)))))))"

definition now_on_payment :: "(nat \<Rightarrow> (Payment, exn, unit) prog) \<Rightarrow> ('r, unit) work" where
  "now_on_payment method = andThen new_Date (\<lambda>now. on_payment (method now))"

definition with_reference :: "string \<Rightarrow> (Reference \<Rightarrow> nat \<Rightarrow> (Payment, exn, unit) prog) \<Rightarrow> ('r, unit) work" where
  "with_reference text method = andThen (raiseInl (Reference_of TRANSACTION text)) (\<lambda>r. now_on_payment (method r))"

definition PAYMENT_FIXTURES :: "(string \<times> ('r, unit) work) list" where
  "PAYMENT_FIXTURES =
     [(''seed-payment-approved-01'',
        andThen (newPayment ''seed-payment-approved-01'' 25000) (\<lambda>_.
        andThen (now_on_payment markProcessing) (\<lambda>_.
        andThen (with_reference ''trx_01hq3m8x0000zt7k9d2v4bqf1c'' markDebited) (\<lambda>_.
        with_reference ''trx_01hq3m8x0000zt7k9d2v4bqf9z'' approve)))),
      (''seed-payment-declined-01'',
        andThen (newPayment ''seed-payment-declined-01'' 900000) (\<lambda>_.
        now_on_payment (decline INSUFFICIENT_BALANCE_REASON))),
      (''seed-payment-compensated-01'',
        andThen (newPayment ''seed-payment-compensated-01'' 5000) (\<lambda>_.
        andThen (now_on_payment markProcessing) (\<lambda>_.
        andThen (with_reference ''trx_01hq3m8x0000zt7k9d2v4bqf1c'' markDebited) (\<lambda>_.
        with_reference ''trx_01hq3m8x0000zt7k9d2v4bqfaa'' compensate))))]"

text \<open>\<open>payments.save(payments.create(row))\<close>: an insert, the row having no version yet.\<close>

definition insert_payment :: "Payment \<Rightarrow> ('r, unit) work" where
  "insert_payment p =
     andThen new_Date (\<lambda>now.
     andThen (query (\<lambda>d. lookupBy row_reference (value (reference p)) (payments d) \<noteq> None
                      \<or> lookupBy row_transaction_id (transactionId p) (payments d) \<noteq> None)) (\<lambda>conflict.
     if conflict then throw (Plain ''duplicate key value violates unique constraint'')
     else update_db (\<lambda>d. d\<lparr>payments := payments d @ [toPersistence p (default_row now)]\<rparr>)))"

definition payments_seedFixtures :: "(string \<times> ('r, unit) work) list \<Rightarrow> ('r, unit) work" where
  "payments_seedFixtures fixtures =
     forEach fixtures (\<lambda>(t, build).
       andThen (query (\<lambda>d. lookupBy row_transaction_id t (payments d))) (\<lambda>existing. case existing of
         Some row \<Rightarrow> ret ()
       | None \<Rightarrow>
           andThen build (\<lambda>_.
           andThen (on_payment pullEvents) (\<lambda>_.
           andThen the_payment insert_payment))))"

definition payments_seed :: "bool \<Rightarrow> 'r world \<Rightarrow> nat \<times> 'r world" where
  "payments_seed pendingMigrations s =
     (if pendingMigrations then (1, s)
      else (case transaction_run (payments_seedFixtures PAYMENT_FIXTURES) s of
              (Inl _, t) \<Rightarrow> (1, t) | (Inr _, t) \<Rightarrow> (0, t)))"

section \<open>What a fixture builds\<close>

lemma seed_references:
  "referencePattern ''wlt'' ''wlt_01hq3m8x0000zt7k9d2v4bqf1c''" "referencePattern ''wlt'' ''wlt_01hq3m8x0000zt7k9d2v4bqf9z''"
  "referencePattern ''trx'' ''trx_01hq3m8x0000zt7k9d2v4bqf1c''" "referencePattern ''trx'' ''trx_01hq3m8x0000zt7k9d2v4bqf9z''"
  "referencePattern ''trx'' ''trx_01hq3m8x0000zt7k9d2v4bqfaa''"
  by code_simp+

lemma newPayment_spec:
  assumes "5 \<le> n" and "n mod 5 = 0"
  shows "wp (newPayment t n) (\<lambda>_ u. db u = db s \<and> (\<exists>p. held u = Some p \<and> lifecycle p [] \<and> transactionId p = t
     \<and> status p = Pending \<and> debitTransactionReference p = None \<and> amount (money p) = n)) (\<lambda>_ _. False) s"
proof -
  have money: "Money_of (num n) XOF = Inr \<lparr>amount = n, currency = XOF\<rparr>"
    using Money_of_num [of "\<lparr>amount = n, currency = XOF\<rparr>"] assms by (simp add: wf_money_def)
  let ?input = "\<lparr>in_transactionId = t, in_money = \<lparr>amount = n, currency = XOF\<rparr>,
    in_source = \<lparr>prefix = ''wlt'', value = ''wlt_01hq3m8x0000zt7k9d2v4bqf1c''\<rparr>,
    in_destination = \<lparr>prefix = ''wlt'', value = ''wlt_01hq3m8x0000zt7k9d2v4bqf9z''\<rparr>,
    in_description = ''Paiement de demonstration'', in_metadata = None\<rparr>"
  have input: "input_wf ?input" using assms seed_references by (simp add: input_wf_def wf_money_def wf_ref_def)
  have "lifecycle p []" if "initiate ?input (Reference_generate PAYMENT a d) b = Inr p" for a b d p
    by (rule lifecycle.start [OF that input Reference_generate_wf])
  note born = this
  have refs: "Reference_of WALLET ''wlt_01hq3m8x0000zt7k9d2v4bqf1c'' = Inr \<lparr>prefix = ''wlt'', value = ''wlt_01hq3m8x0000zt7k9d2v4bqf1c''\<rparr>"
    "Reference_of WALLET ''wlt_01hq3m8x0000zt7k9d2v4bqf9z'' = Inr \<lparr>prefix = ''wlt'', value = ''wlt_01hq3m8x0000zt7k9d2v4bqf9z''\<rparr>"
    using seed_references by simp_all
  show ?thesis using born
    by (simp add: newPayment_def wp_simps fresh_payment_reference_def money refs initiate_def ref_equals_def)
qed

text \<open>The payment in hand after some steps of a fixture: its status, and what it carries.\<close>

definition seeding :: "'r world \<Rightarrow> string \<Rightarrow> (Payment \<Rightarrow> bool) \<Rightarrow> 'r world \<Rightarrow> bool" where
  "seeding s t P u \<longleftrightarrow> db u = db s \<and> (\<exists>p. held u = Some p \<and> lifecycle p [] \<and> transactionId p = t
     \<and> amount (money p) \<le> 900000 \<and> P p)"

lemma step_spec:
  assumes "seeding s t P u" and "op_wf op" and "\<And>now. method now = apply_op op now"
    and "\<And>p now. P p \<Longrightarrow> \<exists>q. apply_op op now p = (Inr (), q) \<and> Q q"
  shows "wp (now_on_payment method) (\<lambda>_. seeding s t Q) (\<lambda>_ _. False) u"
proof -
  obtain p where p: "db u = db s" "held u = Some p" "lifecycle p []" "transactionId p = t" "amount (money p) \<le> 900000" "P p"
    using assms(1) by (auto simp: seeding_def)
  obtain q where q: "apply_op op (clock u (clock_reads u)) p = (Inr (), q)" "Q q" using assms(4) [OF p(6)] by blast
  have "lifecycle q []" "transactionId q = t" "amount (money q) \<le> 900000"
    using lifecycle.operation [OF p(3) assms(2) q(1)] apply_op_identity(2,5) [of op "clock u (clock_reads u)" p] q(1) p(4,5) by simp_all
  then show ?thesis using p(1,2) q assms(3)
    by (simp add: now_on_payment_def wp_andThen wp_new_Date wp_on_payment_op [where p = p] seeding_def)
qed

lemma new_spec:
  assumes "5 \<le> n" and "n mod 5 = 0" and "n \<le> 900000"
  shows "wp (newPayment t n) (\<lambda>_. seeding s t (\<lambda>p. status p = Pending)) (\<lambda>_ _. False) s"
  by (rule wp_mono [OF newPayment_spec [OF assms(1,2)]]) (use assms(3) in \<open>auto simp: seeding_def\<close>)

lemma processing_spec:
  "seeding s t (\<lambda>p. status p = Pending) u \<Longrightarrow>
    wp (now_on_payment markProcessing) (\<lambda>_. seeding s t (\<lambda>p. status p = Processing)) (\<lambda>_ _. False) u"
  by (erule step_spec [where op = MarkProcessing]) (auto simp: markProcessing_iff)

lemma reference_spec:
  assumes "seeding s t P u" and "referencePattern ''trx'' text"
    and "\<And>r now. method r now = apply_op (op r) now" and "\<And>r. wf_ref TRANSACTION r \<Longrightarrow> op_wf (op r)"
    and "\<And>r p now. P p \<Longrightarrow> \<exists>q. apply_op (op r) now p = (Inr (), q) \<and> Q q"
  shows "wp (with_reference text method) (\<lambda>_. seeding s t Q) (\<lambda>_ _. False) u"
proof -
  have r: "Reference_of TRANSACTION text = Inr \<lparr>prefix = ''trx'', value = text\<rparr>" using assms(2) by simp
  have "wp (now_on_payment (method \<lparr>prefix = ''trx'', value = text\<rparr>)) (\<lambda>_. seeding s t Q) (\<lambda>_ _. False) u"
    by (rule step_spec [OF assms(1) assms(4) assms(3) assms(5)]) (use assms(2) in \<open>simp_all add: wf_ref_def\<close>)
  then show ?thesis by (simp add: with_reference_def wp_andThen wp_raiseInl r)
qed

lemma debited_spec:
  "seeding s t (\<lambda>p. status p = Processing) u \<Longrightarrow> referencePattern ''trx'' text \<Longrightarrow>
    wp (with_reference text markDebited)
      (\<lambda>_. seeding s t (\<lambda>p. status p = Processing \<and> debitTransactionReference p \<noteq> None)) (\<lambda>_ _. False) u"
  by (erule reference_spec [where op = MarkDebited]) (auto simp: markDebited_iff)

abbreviation terminal :: "Payment \<Rightarrow> bool" where
  "terminal p \<equiv> status p \<in> set TERMINAL_STATUSES"

lemma approved_spec:
  "seeding s t (\<lambda>p. status p = Processing \<and> debitTransactionReference p \<noteq> None) u \<Longrightarrow> referencePattern ''trx'' text \<Longrightarrow>
    wp (with_reference text approve) (\<lambda>_. seeding s t terminal) (\<lambda>_ _. False) u"
  by (erule reference_spec [where op = Approve]) (auto simp: approve_iff TERMINAL_STATUSES_def)

lemma compensated_spec:
  "seeding s t (\<lambda>p. status p = Processing \<and> debitTransactionReference p \<noteq> None) u \<Longrightarrow> referencePattern ''trx'' text \<Longrightarrow>
    wp (with_reference text compensate) (\<lambda>_. seeding s t terminal) (\<lambda>_ _. False) u"
  by (erule reference_spec [where op = Compensate]) (auto simp: compensate_iff TERMINAL_STATUSES_def)

lemma declined_spec:
  "seeding s t (\<lambda>p. status p = Pending) u \<Longrightarrow>
    wp (now_on_payment (decline reason)) (\<lambda>_. seeding s t terminal) (\<lambda>_ _. False) u"
  by (erule step_spec [where op = "Decline reason"]) (auto simp: decline_iff TERMINAL_STATUSES_def)

lemma fixture_spec:
  assumes "(t, build) \<in> set PAYMENT_FIXTURES"
  shows "wp build (\<lambda>_. seeding s t terminal) (\<lambda>_ _. False) s"
proof -
  note chain = wp_mono [OF new_spec] wp_mono [OF processing_spec] wp_mono [OF debited_spec] seed_references
    approved_spec compensated_spec declined_spec
  from assms show ?thesis
    unfolding PAYMENT_FIXTURES_def
    by (auto simp: wp_andThen intro!: chain)
qed

section \<open>The pass\<close>

definition fixture_ids :: "string list" where
  "fixture_ids = [''seed-payment-approved-01'', ''seed-payment-declined-01'', ''seed-payment-compensated-01'']"

lemma all_fixtures:
  "(\<forall>f \<in> set (PAYMENT_FIXTURES :: (string \<times> ('r, unit) work) list). P (fst f)) \<longleftrightarrow> (\<forall>k \<in> set fixture_ids. P k)"
  by (simp add: PAYMENT_FIXTURES_def fixture_ids_def)

definition seeded_row :: "PaymentRow \<Rightarrow> bool" where
  "seeded_row row \<longleftrightarrow> (\<exists>p. toDomain row = Inr p \<and> wf_payment p \<and> terminal p \<and> events p = [])"

definition only_adds :: "'r world \<Rightarrow> 'r world \<Rightarrow> bool" where
  "only_adds s t \<longleftrightarrow> (\<exists>more. db t = (db s)\<lparr>payments := payments (db s) @ more\<rparr> \<and> list_all seeded_row more)"

definition payment_present :: "string \<Rightarrow> 'r world \<Rightarrow> bool" where
  "payment_present t s \<longleftrightarrow> lookupBy row_transaction_id t (payments (db s)) \<noteq> None"

lemma only_adds_refl: "db t = db s \<Longrightarrow> only_adds s t"
  by (auto simp: only_adds_def intro: exI [of _ "[]"])

lemma only_adds_trans: "only_adds s t \<Longrightarrow> only_adds t u \<Longrightarrow> only_adds s u"
  unfolding only_adds_def by (elim exE conjE) (rule_tac x = "more @ morea" in exI, simp)

lemma payment_present_grows: "payment_present t a \<Longrightarrow> only_adds a b \<Longrightarrow> payment_present t b"
  by (auto simp: payment_present_def only_adds_def lookupBy_append)

lemma insert_spec:
  assumes "seeding s t terminal u"
  shows "wp (andThen (on_payment pullEvents) (\<lambda>_. andThen the_payment insert_payment))
    (\<lambda>_ v. only_adds s v \<and> payment_present t v) (\<lambda>_ _. True) u"
proof -
  obtain p where p: "db u = db s" "held u = Some p" "lifecycle p []" "transactionId p = t" "amount (money p) \<le> 900000" "terminal p"
    using assms by (auto simp: seeding_def)
  let ?q = "p\<lparr>events := []\<rparr>"
  have wf: "wf_payment ?q" using lifecycle_inv [OF p(3)] by (simp add: wf_payment_def wf_fields_def)
  have "seeded_row (toPersistence ?q (default_row now))" for now
    using toDomain_fresh [OF wf, of "default_row now"] p(5,6) wf
    by (auto simp: seeded_row_def wf_payment_def wf_fields_def)
  then show ?thesis using p(1,2,4)
    by (auto simp: wp_andThen wp_on_payment_op [where m = pullEvents and q = ?q, OF p(2)] pullEvents_def wp_the_payment
        insert_payment_def wp_new_Date wp_query wp_update_db wp_if wp_throw only_adds_def payment_present_def
        lookupBy_append row_of_payment intro!: exI)
qed

lemma fixtures_pass:
  fixes s :: "'a world"
  shows "wp (payments_seedFixtures PAYMENT_FIXTURES) (\<lambda>_ t. only_adds s t
     \<and> (\<forall>f \<in> set (PAYMENT_FIXTURES :: (string \<times> ('a, unit) work) list). payment_present (fst f) t)) (\<lambda>_ _. True) s"
  unfolding payments_seedFixtures_def
proof (rule forEach_establishes [where P = "\<lambda>f. payment_present (fst f)" and grows = only_adds])
  fix f :: "string \<times> ('a, unit) work" and s :: "'a world" assume f: "f \<in> set PAYMENT_FIXTURES"
  obtain t build where tb: "f = (t, build)" by fastforce
  have built: "wp build (\<lambda>_. seeding u t terminal) (\<lambda>_ _. True) u" for u
    by (rule wp_mono [OF fixture_spec]) (use f tb in auto)
  have "wp (andThen build (\<lambda>_. andThen (on_payment pullEvents) (\<lambda>_. andThen the_payment insert_payment)))
      (\<lambda>_ v. only_adds s v \<and> payment_present t v) (\<lambda>_ _. True) u" if "db u = db s" for u
    unfolding wp_andThen [where m = build]
    by (rule wp_mono [OF built [of u]], rule wp_mono [OF insert_spec [where s = u]])
      (use that only_adds_trans [OF only_adds_refl [OF that]] in auto)
  then show "wp ((\<lambda>(t, build).
       andThen (query (\<lambda>d. lookupBy row_transaction_id t (payments d))) (\<lambda>existing. case existing of
         Some row \<Rightarrow> ret ()
       | None \<Rightarrow> andThen build (\<lambda>_. andThen (on_payment pullEvents) (\<lambda>_. andThen the_payment insert_payment)))) f)
     (\<lambda>_ v. only_adds s v \<and> payment_present (fst f) v) (\<lambda>_ _. True) s"
    unfolding tb by (auto simp: wp_andThen [where m = "query h" for h] wp_query wp_ret only_adds_refl payment_present_def
        split: option.split)
qed (auto intro: payment_present_grows only_adds_refl only_adds_trans)

lemma fixtures_spec:
  "wp (payments_seedFixtures PAYMENT_FIXTURES)
     (\<lambda>_ t. only_adds s t \<and> (\<forall>k \<in> set fixture_ids. payment_present k t)) (\<lambda>_ _. True) s"
  by (rule wp_mono [OF fixtures_pass]) (simp_all add: all_fixtures [where P = "\<lambda>k. payment_present k t" for t])

lemma fixtures_idle:
  fixes s :: "'a world"
  assumes "\<forall>t \<in> set fixture_ids. payment_present t s"
  shows "wp (payments_seedFixtures PAYMENT_FIXTURES) (\<lambda>_ t. db t = db s) (\<lambda>_ t. db t = db s) s"
proof -
  have "payment_present (fst f) s" if "f \<in> set PAYMENT_FIXTURES" for f :: "string \<times> ('a, unit) work"
    using assms that all_fixtures [where P = "\<lambda>k. payment_present k s" and 'r = 'a] by blast
  then show ?thesis
    unfolding payments_seedFixtures_def
    by (intro wp_forEach) (fastforce simp: wp_andThen wp_query wp_ret payment_present_def split: option.split)+
qed

text \<open>
  The payments seed replays history and announces nothing: when it ends with exit code 0 all
  it did to the database is append payments, each of which reads back as a well-formed payment in a
  terminal status with no event; the outbox is untouched, every fixture is present, and on a
  database where every fixture is present the seed changes nothing.
\<close>

theorem payments_seed_announces_nothing:
  assumes "\<not> in_tx s" and "payments_seed pending s = (0, t)"
    and "found = tx_others (tx_script s (txs s)) (db s)"
  shows "(\<exists>more. db t = found\<lparr>payments := payments found @ more\<rparr> \<and> outbox (db t) = outbox found
       \<and> list_all (\<lambda>row. \<exists>p. toDomain row = Inr p \<and> wf_payment p \<and> status p \<in> set TERMINAL_STATUSES \<and> events p = []) more
       \<and> ((\<forall>k \<in> set fixture_ids. lookupBy row_transaction_id k (payments found) \<noteq> None) \<longrightarrow> more = []))
    \<and> (\<forall>k \<in> set fixture_ids. lookupBy row_transaction_id k (payments (db t)) \<noteq> None)"
proof -
  let ?start = "s\<lparr>db := found, txs := txs s + 1, in_tx := True\<rparr>"
  obtain x u where run: "payments_seedFixtures PAYMENT_FIXTURES ?start = (x, u)" by (meson surj_pair)
  have ok: "x = Inr ()" "db t = db u" using assms run
    by (auto simp: payments_seed_def transaction_run_def Let_def split: if_splits sum.splits tx_fate.splits)
  have "only_adds ?start u" and present: "\<forall>k \<in> set fixture_ids. payment_present k u"
    using wp_returns [OF fixtures_spec] run ok(1) by blast+
  then obtain more where more: "db u = found\<lparr>payments := payments found @ more\<rparr>" "list_all seeded_row more"
    by (auto simp: only_adds_def)
  moreover have "db u = found" if "\<forall>k \<in> set fixture_ids. payment_present k ?start"
    using wp_returns [OF fixtures_idle [OF that]] run ok(1) by fastforce
  then have "more = []" if "\<forall>k \<in> set fixture_ids. payment_present k ?start"
    using that more(1) by (metis append_self_conv payments_db.select_convs(1) payments_db.surjective payments_db.update_convs(1))
  ultimately show ?thesis unfolding ok(2)
    using present by (intro conjI exI [of _ more]) (auto simp: payment_present_def seeded_row_def list_all_iff)
qed

end
