(* ===== verification/Users.thy ===== *)
theory Users
  imports Accounts_Properties
begin

text \<open>
  The public face of the accounts service: the rules of a registration, \<open>UsersController\<close>, the creation of
  a wallet as its client sees it, and the shapes of the replies. Whether a text is an e-mail address is
  decided by \<open>validator\<close>, the argument \<open>isEmail\<close>.
\<close>

section \<open>Requests\<close>

text \<open>
  \<open>NAME_REGEX\<close>, \<open>PHONE_REGEX\<close> and \<open>COUNTRY_REGEX\<close>.
\<close>

definition name_char :: "char \<Rightarrow> bool" where
  "name_char c \<longleftrightarrow> unicode_letter (of_char c) \<or> c = CHR '' '' \<or> of_char c = (39 :: nat) \<or> c = CHR ''-''"

fun isName :: "string \<Rightarrow> bool" where
  "isName [] = False"
| "isName (c # cs) = (unicode_letter (of_char c) \<and> length cs \<le> 99 \<and> list_all name_char cs)"

definition isPhoneNumber :: "string \<Rightarrow> bool" where
  "isPhoneNumber s \<longleftrightarrow>
     (let digits = (case s of [] \<Rightarrow> [] | c # cs \<Rightarrow> if c = CHR ''+'' then cs else s)
      in 8 \<le> length digits \<and> length digits \<le> 15 \<and> list_all (between (CHR ''0'') (CHR ''9'')) digits)"

definition isCountry :: "string \<Rightarrow> bool" where
  "isCountry s \<longleftrightarrow> length s = 2 \<and> list_all (between (CHR ''A'') (CHR ''Z'')) s"

definition CreateUser_rules :: "(string \<Rightarrow> bool) \<Rightarrow> field_rule list" where
  "CreateUser_rules isEmail =
     [(''customer_firstname'', text_rule isName),
      (''customer_lastname'', text_rule isName),
      (''customer_email'', text_rule (\<lambda>s. isEmail s \<and> length s \<le> 320)),
      (''customer_phone_number'', text_rule isPhoneNumber),
      (''customer_address'', optional_rule (text_rule (\<lambda>s. length s \<le> 255))),
      (''customer_city'', optional_rule (text_rule (\<lambda>s. length s \<le> 100))),
      (''customer_country'', optional_rule (text_rule isCountry)),
      (''customer_zip_code'', optional_rule (text_rule (\<lambda>s. length s \<le> 16)))]"

definition CreateUserRequest_of :: "json_object \<Rightarrow> CreateUserRequest" where
  "CreateUserRequest_of body =
     \<lparr>new_firstname = text_of (property_of ''customer_firstname'' body),
      new_lastname = text_of (property_of ''customer_lastname'' body),
      new_email = text_of (property_of ''customer_email'' body),
      new_phone_number = text_of (property_of ''customer_phone_number'' body),
      new_address = optional_text_of (property_of ''customer_address'' body),
      new_city = optional_text_of (property_of ''customer_city'' body),
      new_country = optional_text_of (property_of ''customer_country'' body),
      new_zip_code = optional_text_of (property_of ''customer_zip_code'' body)\<rparr>"

section \<open>Responses\<close>

record UserResponse =
  ur_reference :: string
  ur_firstname :: string
  ur_lastname :: string
  ur_email :: string
  ur_phone_number :: string
  ur_address :: "string option"
  ur_city :: "string option"
  ur_country :: "string option"
  ur_zip_code :: "string option"
  ur_created_at :: js_value

definition UserResponse_from :: "User \<Rightarrow> UserResponse" where
  "UserResponse_from u =
     \<lparr>ur_reference = user_reference u, ur_firstname = customer_firstname u, ur_lastname = customer_lastname u,
      ur_email = customer_email u, ur_phone_number = customer_phone_number u,
      ur_address = customer_address u, ur_city = customer_city u, ur_country = customer_country u,
      ur_zip_code = customer_zip_code u, ur_created_at = Iso (user_created_at u)\<rparr>"

record WalletResponse =
  wr_reference :: string
  wr_user_reference :: string
  wr_currency :: string
  wr_balance :: int
  wr_available_balance :: int
  wr_label :: "string option"
  wr_status :: WalletStatus
  wr_created_at :: js_value

definition WalletResponse_from :: "Wallet \<Rightarrow> string \<Rightarrow> WalletResponse" where
  "WalletResponse_from w userReference =
     \<lparr>wr_reference = wallet_reference w, wr_user_reference = userReference, wr_currency = wallet_currency w,
      wr_balance = read_balance w,
      wr_available_balance = js_sub (read_balance w) (bigintTransformer_from (Some (reserved_amount w))),
      wr_label = wallet_label w, wr_status = wallet_status w, wr_created_at = Iso (wallet_created_at w)\<rparr>"

section \<open>The endpoints\<close>

definition post_user :: "(string \<Rightarrow> bool) \<Rightarrow> json_object \<Rightarrow> UserResponse accounts_prog" where
  "post_user isEmail body =
     andThen (validated (CreateUser_rules isEmail) body) (\<lambda>_.
     andThen (createUser (CreateUserRequest_of body)) (\<lambda>u. ret (UserResponse_from u)))"

definition get_user :: "string \<Rightarrow> UserResponse accounts_prog" where
  "get_user path =
     andThen (pipe_reference USER path) (\<lambda>r.
     andThen (findUser r) (\<lambda>u. ret (UserResponse_from u)))"

text \<open>\<open>WalletsController.create\<close> with its reply.\<close>

definition create_wallet :: "json_object \<Rightarrow> WalletResponse accounts_prog" where
  "create_wallet body =
     andThen (post_wallet body) (\<lambda>(wallet, userReference). ret (WalletResponse_from wallet userReference))"

section \<open>Registration\<close>

definition next_user_reference :: "accounts_db \<Rightarrow> string" where
  "next_user_reference db = generateReference USER (fst (refs db (drawn db))) (snd (refs db (drawn db)))"

text \<open>The text under which an address is stored and compared.\<close>

definition mailbox :: "json_object \<Rightarrow> string" where
  "mailbox body = toLowerCase (text_of (property_of ''customer_email'' body))"

definition user_row :: "json_object \<Rightarrow> accounts_db \<Rightarrow> User" where
  "user_row body db = (let c = CreateUserRequest_of body in
     \<lparr>user_id = length (users db), user_reference = next_user_reference db, customer_firstname = new_firstname c,
      customer_lastname = new_lastname c, customer_email = mailbox body,
      customer_phone_number = new_phone_number c, customer_address = new_address c, customer_city = new_city c,
      customer_country = map_option toUpperCase (new_country c), customer_zip_code = new_zip_code c,
      user_created_at = now_ms db\<rparr>)"

lemma createUser_cases:
  "createUser (CreateUserRequest_of body) db =
     (if lookupBy user_reference (next_user_reference db) (users db) \<noteq> None
      then (Inl (Driver \<lparr>sqlstate = Some ''23505'', err_constraint = Some ''uq_users_reference''\<rparr>), db\<lparr>drawn := drawn db + 1\<rparr>)
      else if lookupBy customer_email (mailbox body) (users db) \<noteq> None
      then (Inl (Refused (ValidationFailedException (Some (FieldErrors [''customer_email''])))), db\<lparr>drawn := drawn db + 1\<rparr>)
      else (Inr (user_row body db), db\<lparr>drawn := drawn db + 1, users := users db @ [user_row body db]\<rparr>))"
  by (simp add: createUser_def freshReference_def UserRepository_create_def tryCatch_def andThen_def unique_violation_def
      isUniqueViolationOf_def isUniqueViolation_def PG_UNIQUE_VIOLATION_def refuse_def throw_def next_user_reference_def
      user_row_def mailbox_def CreateUserRequest_of_def Let_def split: prod.splits)

lemma post_user_cases:
  "post_user isEmail body db =
     (if faulty_fields (CreateUser_rules isEmail) body \<noteq> []
      then (Inl (Refused (ValidationFailedException (Some (FieldErrors (faulty_fields (CreateUser_rules isEmail) body))))), db)
      else if lookupBy user_reference (next_user_reference db) (users db) \<noteq> None
      then (Inl (Driver \<lparr>sqlstate = Some ''23505'', err_constraint = Some ''uq_users_reference''\<rparr>), db\<lparr>drawn := drawn db + 1\<rparr>)
      else if lookupBy customer_email (mailbox body) (users db) \<noteq> None
      then (Inl (Refused (ValidationFailedException (Some (FieldErrors [''customer_email''])))), db\<lparr>drawn := drawn db + 1\<rparr>)
      else (Inr (UserResponse_from (user_row body db)), db\<lparr>drawn := drawn db + 1, users := users db @ [user_row body db]\<rparr>))"
  by (simp add: post_user_def validated_def andThen_def ret_def refuse_def throw_def createUser_cases
      split: list.split)

text \<open>
  Property C40. A registration is found again and stands alone: from the answer of \<open>POST /users\<close> on,
  whatever is registered after it, \<open>GET /users/:reference\<close> answers the same document, with the
  address in lower case, and every later registration of the address, in any spelling of its case, is
  refused without a row; it is refused by naming the address whenever its body is valid and its
  generated reference is new.
\<close>

theorem registered_user_is_found_and_unique:
  assumes "post_user isEmail body db = (Inr r, db')" and "users later = users db' @ newer"
  shows "get_user (ur_reference r) later = (Inr r, later) \<and> ur_email r = mailbox body
    \<and> (\<forall>again. mailbox again = ur_email r \<longrightarrow>
         (\<exists>e out. post_user isEmail again later = (Inl e, out) \<and> users out = users later
            \<and> (faulty_fields (CreateUser_rules isEmail) again = []
                 \<and> lookupBy user_reference (next_user_reference later) (users later) = None
               \<longrightarrow> e = Refused (ValidationFailedException (Some (FieldErrors [''customer_email'']))))))"
proof -
  let ?u = "user_row body db"
  have new: "lookupBy user_reference (user_reference ?u) (users db) = None"
      "lookupBy customer_email (customer_email ?u) (users db) = None"
    and r: "r = UserResponse_from ?u" and users: "users db' = users db @ [?u]"
    using assms(1) by (auto simp: post_user_cases user_row_def Let_def split: if_splits)
  have found: "lookupBy user_reference (user_reference ?u) (users later) = Some ?u"
    and taken: "lookupBy customer_email (customer_email ?u) (users later) = Some ?u"
    using new assms(2) users by (simp_all add: lookupBy_append)
  have "referencePattern ''usr'' (user_reference ?u)"
    using generateReference_pattern [of USER] by (simp add: user_row_def next_user_reference_def Let_def)
  then have "get_user (user_reference ?u) later = (Inr (UserResponse_from ?u), later)"
    using found by (simp add: get_user_def pipe_reference_def ReferencePipe_def findUser_def
        UserRepository_findByReference_def andThen_def reads_def ret_def)
  then show ?thesis
    using taken by (auto simp: r UserResponse_from_def post_user_cases user_row_def Let_def)
qed

definition awa :: json_object where
  "awa = [(''customer_firstname'', String ''Awa''), (''customer_lastname'', String ''Traore''),
     (''customer_email'', String ''Awa.Traore@example.com''), (''customer_phone_number'', String ''+2250700000000''),
     (''customer_city'', Null)]"

definition awa_again :: json_object where
  "awa_again = [(''customer_firstname'', String ''A''), (''customer_lastname'', String ''T''),
     (''customer_email'', String ''AWA.TRAORE@example.com''), (''customer_phone_number'', String ''22507000000'')]"

definition registered :: "accounts_db" where
  "registered = snd (post_user (\<lambda>s. CHR ''@'' \<in> set s) awa (empty_db (\<lambda>n. (n, \<lambda>_. 0)) 0))"

lemma registration_of_awa:
  "post_user (\<lambda>s. CHR ''@'' \<in> set s) awa (empty_db (\<lambda>n. (n, \<lambda>_. 0)) 0)
     = (Inr (UserResponse_from (user_row awa (empty_db (\<lambda>n. (n, \<lambda>_. 0)) 0))), registered)"
proof -
  have "case post_user (\<lambda>s. CHR ''@'' \<in> set s) awa (empty_db (\<lambda>n. (n, \<lambda>_. 0)) 0) of (Inr _, _) \<Rightarrow> True | _ \<Rightarrow> False"
    by code_simp
  then show ?thesis
    by (auto simp: registered_def post_user_cases split: if_splits)
qed

theorem registered_user_is_found_and_unique_witness:
  "fst (get_user (''usr_'' @ zeros 26) registered) = Inr (UserResponse_from (user_row awa (empty_db (\<lambda>n. (n, \<lambda>_. 0)) 0)))
   \<and> fst (post_user (\<lambda>s. CHR ''@'' \<in> set s) awa_again registered)
       = Inl (Refused (ValidationFailedException (Some (FieldErrors [''customer_email'']))))"
proof -
  have "''usr_'' @ zeros 26 = ur_reference (UserResponse_from (user_row awa (empty_db (\<lambda>n. (n, \<lambda>_. 0)) 0)))"
    "mailbox awa_again = mailbox awa"
    "faulty_fields (CreateUser_rules (\<lambda>s. CHR ''@'' \<in> set s)) awa_again = []"
    "lookupBy user_reference (next_user_reference registered) (users registered) = None"
    by code_simp+
  with registered_user_is_found_and_unique [OF registration_of_awa, of registered "[]"]
  show ?thesis by (metis append_Nil2 fst_conv)
qed

end
