(* ===== verification/Operations.thy ===== *)
theory Operations
  imports Relay
begin

text \<open>
  What the people who run the platform see: the health probes of the three services and the command
  line around \<open>PaymentOperations\<close>. Whether the database answers, the uptime and the clock are inputs.
\<close>

section \<open>Health\<close>

datatype HealthStatus = Healthy | Degraded

record HealthDto =
  health_service :: string
  health_status :: HealthStatus
  database_up :: bool
  health_outbox_pending :: "int option"
  uptime_seconds :: nat
  checked_at :: js_value

definition health_check :: "string \<Rightarrow> bool \<Rightarrow> nat \<Rightarrow> nat \<Rightarrow> HealthDto" where
  "health_check service ping uptimeMs now =
     \<lparr>health_service = service, health_status = (if ping then Healthy else Degraded), database_up = ping,
      health_outbox_pending = None, uptime_seconds = uptimeMs div 1000, checked_at = Iso now\<rparr>"

definition accounts_check :: "bool \<Rightarrow> nat \<Rightarrow> nat \<Rightarrow> HealthDto" where
  "accounts_check = health_check ''accounts''"

definition transactions_check :: "bool \<Rightarrow> nat \<Rightarrow> nat \<Rightarrow> HealthDto" where
  "transactions_check = health_check ''transactions''"

text \<open>The payments service also counts the messages it owes the broker; \<open>-1\<close> when it cannot.\<close>

definition pendingOutbox :: "bool \<Rightarrow> payments_db \<Rightarrow> int" where
  "pendingOutbox counted d = (if counted then int (count_if (\<lambda>row. published_at row = None) (outbox d)) else - 1)"

definition payments_check :: "bool \<Rightarrow> bool \<Rightarrow> payments_db \<Rightarrow> nat \<Rightarrow> nat \<Rightarrow> HealthDto" where
  "payments_check ping counted d uptimeMs now =
     (health_check ''payments'' ping uptimeMs now)
       \<lparr>health_outbox_pending := Some (if ping then pendingOutbox counted d else - 1)\<rparr>"

lemma payments_check_pending:
  "health_outbox_pending (payments_check True True d u now) = Some (int (outbox_pending (metrics now d)))"
  by (simp add: payments_check_def pendingOutbox_def metrics_def Let_def count_if_def)

section \<open>The command line\<close>

text \<open>
  What a run prints: the metrics, the answer to a retry, or the complaint of \<open>catch\<close>. \<open>connection\<close> and \<open>query\<close>
  hold the message with which the database refuses, if it does.
\<close>

datatype printed = Metrics operational_metrics | Retried string bool | Complaint string

definition usage :: string where
  "usage = ''Usage: pnpm ops metrics | pnpm ops retry-outbox <uuid>''"

definition operations_main :: "(nat \<Rightarrow> string) \<Rightarrow> string list \<Rightarrow> string option \<Rightarrow> string option \<Rightarrow> nat \<Rightarrow> payments_db
    \<Rightarrow> (nat \<times> printed) \<times> payments_db" where
  "operations_main uuid args connection refusal now d =
     (let command = (case args of [] \<Rightarrow> None | c # _ \<Rightarrow> Some c);
          ident = (case args of _ # i # _ \<Rightarrow> i | _ \<Rightarrow> [])
      in if command \<noteq> Some ''metrics'' \<and> \<not> (command = Some ''retry-outbox'' \<and> ident \<noteq> []) then ((1, Complaint usage), d)
      else (case connection of
          Some m \<Rightarrow> ((1, Complaint m), d)
        | None \<Rightarrow>
            if command = Some ''metrics''
            then (case refusal of
                Some m \<Rightarrow> ((1, Complaint m), d)
              | None \<Rightarrow> ((0, Metrics (metrics now d)), d))
            else (case refusal of
                Some m \<Rightarrow> ((1, Complaint (if isUuid ident then m else ''Expected an outbox UUID'')), d)
              | None \<Rightarrow> (case retryOutbox uuid ident now d of
                    (Inl e, d') \<Rightarrow> ((1, Complaint ''Expected an outbox UUID''), d')
                  | (Inr retried, d') \<Rightarrow> ((if retried then 0 else 1, Retried ident retried), d')))))"

lemma one_hit:
  assumes "distinct (map k xs)" and "\<And>x. P x \<Longrightarrow> k x = v"
  shows "(count_if P xs = 0 \<and> map (\<lambda>x. if P x then f x else x) xs = xs)
    \<or> (count_if P xs = 1 \<and> (\<exists>x \<in> set xs. P x \<and> map (\<lambda>x. if P x then f x else x) xs = updateBy k (k x) f xs))"
proof (cases "\<exists>x \<in> set xs. P x")
  case False
  then have "filter P xs = []" "map (\<lambda>x. if P x then f x else x) xs = xs" by (auto simp: filter_empty_conv map_idI)
  then show ?thesis by (simp add: count_if_def)
next
  case True
  then obtain x where x: "x \<in> set xs" "P x" by blast
  then have hit: "P y \<longleftrightarrow> k y = k x" if "y \<in> set xs" for y
    using that assms by (metis distinct_map inj_onD)
  have "map (\<lambda>x. if P x then f x else x) xs = updateBy k (k x) f xs"
    unfolding updateBy_def using hit by (simp cong: map_cong)
  moreover have "count_if P xs = 1"
  proof -
    have "filter P xs = filter (\<lambda>y. y = x) xs"
      using hit x(1) assms(1) by (intro filter_cong) (metis distinct_map inj_onD)+
    moreover have "length (filter (\<lambda>y. y = x) xs) = 1"
      using x(1) assms(1) by (induction xs) (auto simp: filter_empty_conv)
    ultimately show ?thesis by (simp add: count_if_def)
  qed
  ultimately show ?thesis using x by blast
qed

lemma operations_main_cases:
  assumes "operations_main uuid args connection refusal now d = ((exit_code, out), d')"
  obtains "exit_code = 1" "d' = d" | "exit_code = 0" "d' = d" "hd args = ''metrics''"
    | ident retried where "retryOutbox uuid ident now d = (Inr retried, d')" "exit_code = (if retried then 0 else 1)"
    | ident e where "retryOutbox uuid ident now d = (Inl e, d')" "exit_code = 1"
proof -
  let ?ident = "case args of _ # i # _ \<Rightarrow> i | _ \<Rightarrow> []"
  obtain r d2 where r: "retryOutbox uuid ?ident now d = (r, d2)" by fastforce
  have "exit_code = 1 \<and> d' = d \<or> exit_code = 0 \<and> d' = d \<and> hd args = ''metrics''
      \<or> (\<exists>x. r = Inr x \<and> d' = d2 \<and> exit_code = (if x then 0 else 1)) \<or> (\<exists>e. r = Inl e \<and> d' = d2 \<and> exit_code = 1)"
    using assms unfolding operations_main_def Let_def r
    by (cases args; cases connection; cases refusal; cases r) (simp_all split: if_splits)
  with r that show thesis by blast
qed

text \<open>
  The exit code tells the truth: a run that ends with 1 changed nothing, a \<open>retry-outbox\<close> that ends with 0
  gave exactly one exhausted and unpublished message its attempts back.
\<close>

theorem exit_code_tells_the_truth:
  assumes "inj uuid" and "distinct (map outbox_id (outbox d))"
    and "operations_main uuid args connection refusal now d = ((exit_code, out), d')"
  shows "(exit_code = 1 \<longrightarrow> d' = d)
    \<and> (exit_code = 0 \<and> hd args = ''retry-outbox'' \<longrightarrow>
         (\<exists>row \<in> set (outbox d). published_at row = None \<and> OUTBOX_MAX_ATTEMPTS \<le> attempts row
            \<and> d' = d\<lparr>outbox := updateBy outbox_id (outbox_id row)
                (\<lambda>r. r\<lparr>attempts := 0, last_error := None, next_attempt_at := now\<rparr>) (outbox d)\<rparr>))"
proof -
  let ?hit = "\<lambda>ident row. uuid (outbox_id row) = map lower_char ident \<and> published_at row = None \<and> attempts row \<ge> OUTBOX_MAX_ATTEMPTS"
  have key: "?hit ident row \<Longrightarrow> outbox_id row = inv uuid (map lower_char ident)" for ident row
    using inv_f_f [OF assms(1), of "outbox_id row"] by simp
  have hits: "(count_if (?hit ident) (outbox d) = 0 \<and> map (\<lambda>row. if ?hit ident row then f row else row) (outbox d) = outbox d)
    \<or> (count_if (?hit ident) (outbox d) = 1 \<and> (\<exists>row \<in> set (outbox d). ?hit ident row
         \<and> map (\<lambda>row. if ?hit ident row then f row else row) (outbox d) = updateBy outbox_id (outbox_id row) f (outbox d)))"
    for ident f using one_hit [where P = "?hit ident" and f = f, OF assms(2) key] by blast
  have retry: "d'' = d \<and> \<not> retried \<or> retried \<and> (\<exists>row \<in> set (outbox d). published_at row = None \<and> OUTBOX_MAX_ATTEMPTS \<le> attempts row
      \<and> d'' = d\<lparr>outbox := updateBy outbox_id (outbox_id row) (\<lambda>r. r\<lparr>attempts := 0, last_error := None, next_attempt_at := now\<rparr>) (outbox d)\<rparr>)"
    if "retryOutbox uuid ident now d = (Inr retried, d'')" for ident retried d''
    using that hits [of ident "\<lambda>row. row\<lparr>attempts := 0, last_error := None, next_attempt_at := now\<rparr>"]
    by (auto simp: retryOutbox_def Let_def split: if_splits)
  have refused: "d'' = d" if "retryOutbox uuid ident now d = (Inl e, d'')" for ident e d''
    using that by (auto simp: retryOutbox_def Let_def split: if_splits)
  from assms(3) show ?thesis
    by (rule operations_main_cases) (use retry refused in \<open>auto split: if_splits\<close>)
qed

end
