(* ===== verification/Migrations.thy ===== *)
theory Migrations
  imports Initiation Relay
begin

text \<open>
  The migrations that carry a decision: the triggers behind the two ledgers, the rewrite
  of the movement types behind them, the repair of idempotency keys stranded by the old protocol, and
  the columns the schedulers rely on. Statements run in one transaction, so a migration that fails
  leaves the table as it was.
\<close>

section \<open>Append-only tables\<close>

text \<open>
  A table with its row triggers. A trigger fires before its operations, for each row they touch; its
  function either lets the row pass or raises, which fails the statement. \<open>TRUNCATE\<close> touches no single
  row, so no row trigger fires.
\<close>

datatype operation = INSERT | UPDATE | DELETE

fun TG_OP :: "operation \<Rightarrow> string" where
  "TG_OP INSERT = ''INSERT''"
| "TG_OP UPDATE = ''UPDATE''"
| "TG_OP DELETE = ''DELETE''"

record row_trigger =
  trigger_name :: string
  fires_before :: "operation list"
  raises :: "operation \<Rightarrow> string option"

record 'row guarded =
  stored_rows :: "'row list"
  triggers :: "row_trigger list"

datatype 'row statement =
    InsertRow 'row
  | UpdateRows "'row \<Rightarrow> bool" "'row \<Rightarrow> 'row"
  | DeleteRows "'row \<Rightarrow> bool"
  | Truncate
  | CreateTrigger row_trigger
  | DropTrigger string

definition refusal :: "operation \<Rightarrow> row_trigger list \<Rightarrow> string option" where
  "refusal operation gs =
     (case List.map_filter (\<lambda>g. if operation \<in> set (fires_before g) then raises g operation else None) gs of
        [] \<Rightarrow> None | m # _ \<Rightarrow> Some m)"

text \<open>\<open>touch operation t next\<close>: the statement proceeds to \<open>next\<close> unless a trigger raises for a row it touches.\<close>

definition touch :: "operation \<Rightarrow> bool \<Rightarrow> 'row guarded \<Rightarrow> 'row guarded \<Rightarrow> string + 'row guarded" where
  "touch operation touched t next = (case refusal operation (triggers t) of
     Some m \<Rightarrow> if touched then Inl m else Inr next | None \<Rightarrow> Inr next)"

fun run_statement :: "'row statement \<Rightarrow> 'row guarded \<Rightarrow> string + 'row guarded" where
  "run_statement (InsertRow r) t = touch INSERT True t (t\<lparr>stored_rows := stored_rows t @ [r]\<rparr>)"
| "run_statement (UpdateRows chosen f) t =
     touch UPDATE (list_ex chosen (stored_rows t)) t (t\<lparr>stored_rows := map (\<lambda>r. if chosen r then f r else r) (stored_rows t)\<rparr>)"
| "run_statement (DeleteRows chosen) t =
     touch DELETE (list_ex chosen (stored_rows t)) t (t\<lparr>stored_rows := filter (\<lambda>r. \<not> chosen r) (stored_rows t)\<rparr>)"
| "run_statement Truncate t = Inr (t\<lparr>stored_rows := []\<rparr>)"
| "run_statement (CreateTrigger g) t =
     (if list_ex (\<lambda>h. trigger_name h = trigger_name g) (triggers t) then Inl ''trigger already exists''
      else Inr (t\<lparr>triggers := triggers t @ [g]\<rparr>))"
| "run_statement (DropTrigger name) t = Inr (t\<lparr>triggers := filter (\<lambda>h. trigger_name h \<noteq> name) (triggers t)\<rparr>)"

fun run_statements :: "'row statement list \<Rightarrow> 'row guarded \<Rightarrow> string + 'row guarded" where
  "run_statements [] t = Inr t"
| "run_statements (x # xs) t = (case run_statement x t of Inl e \<Rightarrow> Inl e | Inr u \<Rightarrow> run_statements xs u)"

definition in_transaction :: "'row guarded \<Rightarrow> 'row statement list \<Rightarrow> 'row guarded" where
  "in_transaction t xs = (case run_statements xs t of Inl e \<Rightarrow> t | Inr u \<Rightarrow> u)"

definition new_table :: "'row guarded" where
  "new_table = \<lparr>stored_rows = [], triggers = []\<rparr>"

text \<open>The functions, the triggers and the end of the migrations that create the two ledgers.\<close>

definition ledger_entries_append_only :: "operation \<Rightarrow> string option" where
  "ledger_entries_append_only operation = Some (''ledger_entries is append-only (attempted '' @ TG_OP operation @ '')'')"

definition transactions_append_only :: "operation \<Rightarrow> string option" where
  "transactions_append_only operation = Some (''transactions is append-only (attempted '' @ TG_OP operation @ '')'')"

definition trg_ledger_entries_append_only :: row_trigger where
  "trg_ledger_entries_append_only =
     \<lparr>trigger_name = ''trg_ledger_entries_append_only'', fires_before = [UPDATE, DELETE], raises = ledger_entries_append_only\<rparr>"

definition trg_transactions_append_only :: row_trigger where
  "trg_transactions_append_only =
     \<lparr>trigger_name = ''trg_transactions_append_only'', fires_before = [UPDATE, DELETE], raises = transactions_append_only\<rparr>"

definition InitAccounts_up :: "'row statement list" where
  "InitAccounts_up = [CreateTrigger trg_ledger_entries_append_only]"

definition InitTransactions_up :: "'row statement list" where
  "InitTransactions_up = [CreateTrigger trg_transactions_append_only]"

section \<open>The case of the movement types\<close>

text \<open>A row is its \<open>type\<close> column with the rest. \<open>initcap\<close> is PostgreSQL's, on words of letters and digits.\<close>

fun initcap_from :: "bool \<Rightarrow> string \<Rightarrow> string" where
  "initcap_from inside [] = []"
| "initcap_from inside (c # cs) =
     (if inside then lower_char c else upper_char c) # initcap_from (unicode_letter (of_char c) \<or> unicode_number (of_char c)) cs"

definition initcap :: "string \<Rightarrow> string" where
  "initcap s = initcap_from False s"

text \<open>The trigger is created anew over the function that is there, here with its events written out.\<close>

definition UppercaseMovementType_up :: "(string \<times> 'rest) statement list" where
  "UppercaseMovementType_up =
     [DropTrigger ''trg_ledger_entries_append_only'',
      UpdateRows (\<lambda>_. True) (\<lambda>(type, rest). (toUpperCase type, rest)),
      CreateTrigger \<lparr>trigger_name = ''trg_ledger_entries_append_only'', fires_before = [UPDATE, DELETE],
        raises = ledger_entries_append_only\<rparr>]"

definition UppercaseMovementType_down :: "(string \<times> 'rest) statement list" where
  "UppercaseMovementType_down =
     [DropTrigger ''trg_ledger_entries_append_only'',
      UpdateRows (\<lambda>_. True) (\<lambda>(type, rest). (initcap type, rest)),
      CreateTrigger \<lparr>trigger_name = ''trg_ledger_entries_append_only'', fires_before = [UPDATE, DELETE],
        raises = ledger_entries_append_only\<rparr>]"

text \<open>The old spelling of a type and the one the code knows.\<close>

lemma movement_type_texts:
  "toUpperCase (initcap (type_text t)) = type_text t" "initcap (type_text t) \<in> {''Credit'', ''Debit'', ''Refund''}"
proof -
  have "\<forall>t \<in> {CREDIT, DEBIT, REFUND}. toUpperCase (initcap (type_text t)) = type_text t
      \<and> initcap (type_text t) \<in> {''Credit'', ''Debit'', ''Refund''}"
    by code_simp
  then show "toUpperCase (initcap (type_text t)) = type_text t" "initcap (type_text t) \<in> {''Credit'', ''Debit'', ''Refund''}"
    by (cases t; simp)+
qed

section \<open>What the triggers enforce\<close>

definition refuses :: "row_trigger \<Rightarrow> bool" where
  "refuses g \<longleftrightarrow> {UPDATE, DELETE} \<subseteq> set (fires_before g) \<and> raises g UPDATE \<noteq> None \<and> raises g DELETE \<noteq> None"

lemma refuses_triggers: "refuses trg_ledger_entries_append_only" "refuses trg_transactions_append_only"
  by (simp_all add: refuses_def trg_ledger_entries_append_only_def trg_transactions_append_only_def
      ledger_entries_append_only_def transactions_append_only_def)

lemma refusal_Some:
  assumes "g \<in> set gs" and "refuses g" and "operation \<in> {UPDATE, DELETE}"
  shows "\<exists>m. refusal operation gs = Some m"
proof -
  let ?ms = "List.map_filter (\<lambda>g. if operation \<in> set (fires_before g) then raises g operation else None) gs"
  have "set ?ms \<noteq> {}" using assms by (auto simp: List.map_filter_def refuses_def intro!: bexI [of _ g])
  then show ?thesis by (cases ?ms) (simp_all add: refusal_def)
qed

text \<open>A statement that neither truncates nor drops the trigger leaves it and every row in place.\<close>

lemma statement_keeps:
  assumes "g \<in> set (triggers t)" and "refuses g" and "x \<noteq> Truncate" and "x \<noteq> DropTrigger (trigger_name g)"
    and "run_statement x t = Inr u"
  shows "g \<in> set (triggers u) \<and> (\<exists>more. stored_rows u = stored_rows t @ more)"
proof (cases x)
  case (UpdateRows chosen f)
  obtain m where "refusal UPDATE (triggers t) = Some m" using refusal_Some [OF assms(1,2)] by blast
  then have "\<not> list_ex chosen (stored_rows t)" "u = t\<lparr>stored_rows := map (\<lambda>r. if chosen r then f r else r) (stored_rows t)\<rparr>"
    using assms(5) UpdateRows by (auto simp: touch_def split: if_splits)
  moreover from this have "map (\<lambda>r. if chosen r then f r else r) (stored_rows t) = stored_rows t"
    by (intro map_idI) (auto simp: list_ex_iff)
  ultimately show ?thesis using assms(1) by simp
next
  case (DeleteRows chosen)
  obtain m where "refusal DELETE (triggers t) = Some m" using refusal_Some [OF assms(1,2)] by blast
  then have "\<not> list_ex chosen (stored_rows t)" "u = t\<lparr>stored_rows := filter (\<lambda>r. \<not> chosen r) (stored_rows t)\<rparr>"
    using assms(5) DeleteRows by (auto simp: touch_def split: if_splits)
  then show ?thesis using assms(1) by (auto simp: list_ex_iff filter_id_conv)
qed (use assms in \<open>auto simp: touch_def split: option.splits if_splits\<close>)

definition harmless :: "row_trigger \<Rightarrow> 'row statement list \<Rightarrow> bool" where
  "harmless g tx \<longleftrightarrow> Truncate \<notin> set tx \<and> DropTrigger (trigger_name g) \<notin> set tx"

lemma statements_keep:
  assumes "g \<in> set (triggers t)" and "refuses g" and "harmless g tx" and "run_statements tx t = Inr u"
  shows "g \<in> set (triggers u) \<and> (\<exists>more. stored_rows u = stored_rows t @ more)"
  using assms(1,3,4)
proof (induction tx arbitrary: t)
  case (Cons x tx)
  then obtain v where v: "run_statement x t = Inr v" "run_statements tx v = Inr u" by (auto split: sum.splits)
  have "g \<in> set (triggers v) \<and> (\<exists>more. stored_rows v = stored_rows t @ more)"
    by (rule statement_keeps [OF Cons.prems(1) assms(2) _ _ v(1)]) (use Cons.prems(2) in \<open>auto simp: harmless_def\<close>)
  moreover have "harmless g tx" using Cons.prems(2) by (simp add: harmless_def)
  ultimately show ?case using Cons.IH [OF _ _ v(2)] by fastforce
qed simp

text \<open>\<open>amends\<close>: the rows of \<open>t\<close> are still in place in \<open>u\<close>, but for the spelling of their types.\<close>

definition amends :: "(string \<times> 'rest) guarded \<Rightarrow> (string \<times> 'rest) guarded \<Rightarrow> bool" where
  "amends t u \<longleftrightarrow> (\<exists>more. map snd (stored_rows u) = map snd (stored_rows t) @ more)"

lemma rewrite_keeps:
  assumes "trg_ledger_entries_append_only \<in> set (triggers t)" and "tx = UppercaseMovementType_up \<or> tx = UppercaseMovementType_down"
  shows "trg_ledger_entries_append_only \<in> set (triggers (in_transaction t tx)) \<and> amends t (in_transaction t tx)"
proof -
  have rest: "amends t u" if "stored_rows u = map (\<lambda>(type, rest). (f type, rest)) (stored_rows t)" for f u
    unfolding amends_def that by (simp add: comp_def split_def)
  have kept: "in_transaction t tx = t \<or> (\<exists>f. stored_rows (in_transaction t tx) = map (\<lambda>(type, rest). (f type, rest)) (stored_rows t)
      \<and> trg_ledger_entries_append_only \<in> set (triggers (in_transaction t tx)))"
    using assms(2) unfolding in_transaction_def UppercaseMovementType_up_def UppercaseMovementType_down_def
    by (elim disjE) (auto simp: touch_def trg_ledger_entries_append_only_def split: option.splits if_splits)
  moreover have "amends t t" by (simp add: amends_def)
  ultimately show ?thesis using assms(1) rest by metis
qed

abbreviation "ledger_after t history \<equiv> foldl in_transaction t history"

lemma history_keeps:
  assumes "g \<in> {trg_ledger_entries_append_only, trg_transactions_append_only}" and "g \<in> set (triggers t)"
    and "list_all (\<lambda>tx. harmless g tx \<or> g = trg_ledger_entries_append_only
        \<and> (tx = UppercaseMovementType_up \<or> tx = UppercaseMovementType_down)) history"
  shows "g \<in> set (triggers (ledger_after t history)) \<and> amends t (ledger_after t history)"
  using assms(2,3)
proof (induction history arbitrary: t)
  case (Cons tx history)
  have step: "g \<in> set (triggers (in_transaction t tx)) \<and> amends t (in_transaction t tx)"
  proof (cases "harmless g tx")
    case True
    then show ?thesis
      using statements_keep [OF Cons.prems(1) _ True] refuses_triggers assms(1) Cons.prems(1)
      by (fastforce simp: in_transaction_def amends_def split: sum.split)
  next
    case False
    then show ?thesis using rewrite_keeps [of t tx] Cons.prems by auto
  qed
  have "amends a c" if "amends a b" "amends b c" for a b c :: "(string \<times> 'a) guarded"
    using that unfolding amends_def by (metis append_assoc)
  then show ?case using Cons.IH [of "in_transaction t tx"] step Cons.prems(2) unfolding foldl_Cons list.pred_inject(2) by blast
qed (simp add: amends_def)

text \<open>
  Property C29. What the migrations enforce on the two ledgers. From the creation of the table on, every update
  and every deletion that selects a row fails as long as the trigger stands; so, whatever transactions
  run, every row ever stored stays in its place, and only the two rewrites of the accounts ledger change
  the spelling of its type, unless somebody truncates the table or drops the trigger by its name.
  Truncation is refused by nothing.
\<close>

theorem append_only_is_enforced:
  assumes "(setup, g) \<in> {(InitAccounts_up, trg_ledger_entries_append_only), (InitTransactions_up, trg_transactions_append_only)}"
    and "list_all (\<lambda>tx. harmless g tx \<or> g = trg_ledger_entries_append_only
        \<and> (tx = UppercaseMovementType_up \<or> tx = UppercaseMovementType_down)) (before @ after)"
    and "t = ledger_after (in_transaction new_table setup) before" and "u = ledger_after t after"
  shows "g \<in> set (triggers u) \<and> (\<exists>more. map snd (stored_rows u) = map snd (stored_rows t) @ more)
    \<and> (list_ex chosen (stored_rows u) \<longrightarrow>
         (\<exists>m. run_statement (UpdateRows chosen f) u = Inl m) \<and> (\<exists>m. run_statement (DeleteRows chosen) u = Inl m))
    \<and> run_statement Truncate u = Inr (u\<lparr>stored_rows := []\<rparr>)"
proof -
  have g: "g \<in> {trg_ledger_entries_append_only, trg_transactions_append_only}" using assms(1) by auto
  then have refuses: "refuses g" using refuses_triggers by auto
  have "g \<in> set (triggers (in_transaction new_table setup))"
    using assms(1) by (auto simp: InitAccounts_up_def InitTransactions_up_def new_table_def in_transaction_def)
  then have t: "g \<in> set (triggers t)" using history_keeps [OF g, of "in_transaction new_table setup" before] assms(2,3) by simp
  then have u: "g \<in> set (triggers u)" "amends t u" using history_keeps [OF g t, of after] assms(2,4) by auto
  from refusal_Some [OF u(1) refuses] obtain m n where
    "refusal UPDATE (triggers u) = Some m" "refusal DELETE (triggers u) = Some n" by blast
  then show ?thesis using u by (auto simp: touch_def amends_def)
qed

text \<open>
  While nothing else guards the table the refusals are the messages of the migrations, and the rewrite of the
  types gives every movement a type the code knows and is undone by its inverse.
\<close>

lemma refusal_messages:
  "stored_rows t \<noteq> [] \<Longrightarrow> triggers t = [trg_ledger_entries_append_only]
    \<Longrightarrow> run_statement (DeleteRows (\<lambda>_. True)) t = Inl ''ledger_entries is append-only (attempted DELETE)''"
  "stored_rows t \<noteq> [] \<Longrightarrow> triggers t = [trg_transactions_append_only]
    \<Longrightarrow> run_statement (UpdateRows (\<lambda>_. True) f) t = Inl ''transactions is append-only (attempted UPDATE)''"
  by (auto simp: touch_def refusal_def List.map_filter_simps trg_ledger_entries_append_only_def trg_transactions_append_only_def
      ledger_entries_append_only_def transactions_append_only_def list_ex_iff neq_Nil_conv)

lemma run_uppercase:
  assumes "triggers t = [trg_ledger_entries_append_only]"
  shows "in_transaction t UppercaseMovementType_up = t\<lparr>stored_rows := map (\<lambda>(type, rest). (toUpperCase type, rest)) (stored_rows t)\<rparr>"
    "in_transaction t UppercaseMovementType_down = t\<lparr>stored_rows := map (\<lambda>(type, rest). (initcap type, rest)) (stored_rows t)\<rparr>"
  using assms by (simp_all add: in_transaction_def UppercaseMovementType_up_def UppercaseMovementType_down_def touch_def
      refusal_def List.map_filter_simps trg_ledger_entries_append_only_def)

theorem rewrite_is_undone:
  assumes "triggers t = [trg_ledger_entries_append_only]"
    and "list_all (\<lambda>(type, _). \<exists>m. type = initcap (type_text m)) (stored_rows t)"
  shows "list_all (\<lambda>(type, _). \<exists>m. type = type_text m) (stored_rows (in_transaction t UppercaseMovementType_up))
    \<and> in_transaction (in_transaction t UppercaseMovementType_up) UppercaseMovementType_down = t"
proof -
  have "map (\<lambda>(type, rest). (initcap (toUpperCase type), rest)) (stored_rows t) = stored_rows t"
    using assms(2) by (intro map_idI) (auto simp: list_all_iff movement_type_texts)
  moreover have "list_all (\<lambda>(type, _). \<exists>m. type = type_text m) (map (\<lambda>(type, rest). (toUpperCase type, rest)) (stored_rows t))"
    using assms(2) movement_type_texts(1) by (fastforce simp: list_all_iff)
  ultimately show ?thesis using assms(1) by (simp add: run_uppercase comp_def split_def)
qed

text \<open>The guard has two gaps: truncation, and whoever may drop the trigger, as the rewrite itself does.\<close>

lemma truncation_is_not_refused: "stored_rows (in_transaction t [Truncate]) = []"
  by (simp add: in_transaction_def)

lemma migration_amends_a_row:
  "stored_rows (in_transaction \<lparr>stored_rows = [(''Credit'', x)], triggers = [trg_ledger_entries_append_only]\<rparr>
    UppercaseMovementType_up) = [(''CREDIT'', x)]"
proof -
  have "toUpperCase ''Credit'' = ''CREDIT''" by code_simp
  then show ?thesis by (simp add: run_uppercase)
qed

section \<open>Stranded idempotency keys\<close>

definition RecoverIdempotency_up :: "payments_db \<Rightarrow> payments_db" where
  "RecoverIdempotency_up d =
     (let completed = map (\<lambda>k. case lookupBy row_transaction_id (key_text k) (payments d) of
              None \<Rightarrow> k
            | Some p \<Rightarrow> if key_status k = IN_PROGRESS
                then k\<lparr>key_payment := Some (row_reference p), response_body := Some (row_reference p), key_status := COMPLETED\<rparr>
                else k) (idempotency_keys d)
      in d\<lparr>idempotency_keys := filter (\<lambda>k. \<not> (key_status k = IN_PROGRESS
             \<and> lookupBy row_transaction_id (key_text k) (payments d) = None)) completed\<rparr>)"

definition RecoverIdempotency_down :: "payments_db \<Rightarrow> payments_db" where
  "RecoverIdempotency_down d = d"

definition recovered_key :: "payments_db \<Rightarrow> IdempotencyRow \<Rightarrow> IdempotencyRow option" where
  "recovered_key d row =
     (if key_status row \<noteq> IN_PROGRESS then Some row
      else map_option (\<lambda>p. row\<lparr>key_payment := Some (row_reference p), response_body := Some (row_reference p), key_status := COMPLETED\<rparr>)
             (lookupBy row_transaction_id (key_text row) (payments d)))"

lemma recovered_keys:
  "idempotency_keys (RecoverIdempotency_up d) = List.map_filter (recovered_key d) (idempotency_keys d)"
proof -
  have "filter (\<lambda>k. \<not> (key_status k = IN_PROGRESS \<and> lookupBy row_transaction_id (key_text k) (payments d) = None))
      (map (\<lambda>k. case lookupBy row_transaction_id (key_text k) (payments d) of None \<Rightarrow> k
        | Some p \<Rightarrow> if key_status k = IN_PROGRESS
            then k\<lparr>key_payment := Some (row_reference p), response_body := Some (row_reference p), key_status := COMPLETED\<rparr> else k) ks)
     = List.map_filter (recovered_key d) ks" for ks
    by (induction ks) (auto simp: recovered_key_def List.map_filter_def split: option.splits)
  then show ?thesis by (simp add: RecoverIdempotency_up_def)
qed

lemma lookup_map_filter:
  assumes "distinct (map k rows)" and "\<And>r r'. f r = Some r' \<Longrightarrow> k r' = k r"
  shows "lookupBy k x (List.map_filter f rows) = (case lookupBy k x rows of None \<Rightarrow> None | Some r \<Rightarrow> f r)"
  using assms(1)
proof (induction rows)
  case (Cons r rows)
  show ?case
  proof (cases "k r = x")
    case True
    then have none: "lookupBy k x rows = None" using Cons.prems unfolding lookupBy_None by (auto simp: image_iff)
    then have "lookupBy k x (List.map_filter f rows) = None" using Cons by simp
    then show ?thesis using True assms(2) [of r] by (cases "f r") (simp_all add: List.map_filter_simps)
  next
    case False
    then show ?thesis using Cons assms(2) [of r] by (cases "f r") (simp_all add: List.map_filter_simps)
  qed
qed (simp add: List.map_filter_simps)

lemma recovered_lookup:
  assumes "distinct (map key_text (idempotency_keys d))"
  shows "lookupBy key_text k (idempotency_keys (RecoverIdempotency_up d)) =
    (case lookupBy key_text k (idempotency_keys d) of None \<Rightarrow> None | Some row \<Rightarrow> recovered_key d row)"
  unfolding recovered_keys by (rule lookup_map_filter [OF assms]) (auto simp: recovered_key_def split: if_splits)

text \<open>
  Property C28. Keys stranded by the old protocol are repaired: after the migration a finished key is as
  it was, a key in progress is completed with the reference of its payment when there is one and gone
  when there is none, so that the same request is answered with that reference, or may be made anew;
  running the migration again changes nothing.
\<close>

theorem stranded_keys_are_recovered:
  assumes "distinct (map key_text (idempotency_keys d))"
    and "lookupBy key_text (cmd_transactionId c) (idempotency_keys d) = Some row"
    and "key_status row = IN_PROGRESS" and "request_hash row = hash_payload j (command_payload c)"
    and "\<not> in_tx s" and "tx_fate (tx_script s (txs s)) = TxCommits" and "\<forall>n. read_script s n"
    and "found_tables s = RecoverIdempotency_up d"
  shows "(case lookupBy row_transaction_id (cmd_transactionId c) (payments d) of
       Some p \<Rightarrow> fst (initiate_execute port j c s) = Inr (Some (row_reference p))
     | None \<Rightarrow> lookupBy key_text (cmd_transactionId c) (idempotency_keys (found_tables s)) = None)
    \<and> (\<forall>k r. lookupBy key_text k (idempotency_keys d) = Some r \<and> key_status r \<noteq> IN_PROGRESS
         \<longrightarrow> lookupBy key_text k (idempotency_keys (found_tables s)) = Some r)
    \<and> payments (found_tables s) = payments d
    \<and> RecoverIdempotency_up (found_tables s) = found_tables s"
proof -
  have key: "key_text row = cmd_transactionId c" using lookupBy_Some [OF assms(2)] by simp
  have "fst (initiate_execute port j c s) = Inr (Some (row_reference p))"
    if p: "lookupBy row_transaction_id (cmd_transactionId c) (payments d) = Some p" for p
  proof -
    let ?row = "row\<lparr>key_payment := Some (row_reference p), response_body := Some (row_reference p), key_status := COMPLETED\<rparr>"
    have "lookupBy key_text (cmd_transactionId c) (idempotency_keys (found_tables s)) = Some ?row"
      using recovered_lookup [OF assms(1)] assms(2,3,8) p by (simp add: recovered_key_def key)
    from stored_key_decides [OF assms(5-7) this, of port j] assms(4) show ?thesis by auto
  qed
  note answered = this
  have kept: "recovered_key d r = Some r" if "r \<in> set (idempotency_keys (RecoverIdempotency_up d))" for r
    using that unfolding recovered_keys by (auto simp: List.map_filter_def recovered_key_def split: if_splits)
  have same: "payments (RecoverIdempotency_up d) = payments d" "outbox (RecoverIdempotency_up d) = outbox d"
    by (simp_all add: RecoverIdempotency_up_def Let_def)
  have again: "recovered_key (RecoverIdempotency_up d) = recovered_key d"
    by (rule ext) (simp add: recovered_key_def same)
  have "List.map_filter (recovered_key d) ks = ks" if "\<forall>r \<in> set ks. recovered_key d r = Some r" for ks
    using that by (induction ks) (simp_all add: List.map_filter_simps)
  then have "idempotency_keys (RecoverIdempotency_up (RecoverIdempotency_up d)) = idempotency_keys (RecoverIdempotency_up d)"
    using kept unfolding recovered_keys [of "RecoverIdempotency_up d"] by (simp add: again)
  then have "RecoverIdempotency_up (RecoverIdempotency_up d) = RecoverIdempotency_up d"
    using same by (intro payments_db.equality) (simp_all add: RecoverIdempotency_up_def Let_def)
  with answered show ?thesis
    using recovered_lookup [OF assms(1)] assms(2,3,8) same key by (auto simp: recovered_key_def split: option.split)
qed

section \<open>Columns of the schedulers\<close>

text \<open>\<open>ADD COLUMN ... NOT NULL DEFAULT\<close> on existing rows; \<open>now\<close> is the time of the migration.\<close>

definition PaymentVersion_up :: "payments_db \<Rightarrow> payments_db" where
  "PaymentVersion_up d = d\<lparr>payments := map (\<lambda>p. p\<lparr>version := 1\<rparr>) (payments d)\<rparr>"

definition ReconciliationSchedule_up :: "nat \<Rightarrow> payments_db \<Rightarrow> payments_db" where
  "ReconciliationSchedule_up now d =
     d\<lparr>payments := map (\<lambda>p. p\<lparr>reconciliation_attempts := 0, next_reconciliation_at := now, last_reconciliation_error := None\<rparr>)
        (payments d)\<rparr>"

definition OutboxSchedule_up :: "nat \<Rightarrow> payments_db \<Rightarrow> payments_db" where
  "OutboxSchedule_up now d = d\<lparr>outbox := map (\<lambda>m. m\<lparr>next_attempt_at := now\<rparr>) (outbox d)\<rparr>"

text \<open>Nothing old is forgotten: what was unpublished and not given up is due from the migration on.\<close>

lemma migrated_messages_are_due:
  assumes "m \<in> set (outbox (OutboxSchedule_up now d))" and "published_at m = None" and "attempts m < OUTBOX_MAX_ATTEMPTS"
    and "now \<le> later"
  shows "due later m"
  using assms by (auto simp: OutboxSchedule_up_def due_def)

section \<open>Concrete tables\<close>

text \<open>A ledger that took a credit, was rewritten, and then refused an attempt to empty it.\<close>

definition old_ledger :: "(string \<times> nat) guarded" where
  "old_ledger = ledger_after (in_transaction new_table InitAccounts_up)
     [[InsertRow (''Credit'', 1)], UppercaseMovementType_up, [DeleteRows (\<lambda>_. True)]]"

theorem append_only_is_enforced_witness:
  "trg_ledger_entries_append_only \<in> set (triggers old_ledger)
   \<and> (\<exists>more. map snd (stored_rows old_ledger) = [1 :: nat] @ more)"
proof -
  let ?before = "[[InsertRow (''Credit'', 1 :: nat)]]" and ?after = "[UppercaseMovementType_up, [DeleteRows (\<lambda>_. True)]]"
  have "stored_rows (ledger_after (in_transaction new_table InitAccounts_up) ?before) = [(''Credit'', 1)]"
    by (simp add: in_transaction_def new_table_def InitAccounts_up_def touch_def refusal_def List.map_filter_simps
        trg_ledger_entries_append_only_def)
  then show ?thesis
    using append_only_is_enforced [where before = ?before and after = ?after, OF _ _ refl refl,
        of InitAccounts_up trg_ledger_entries_append_only]
    by (simp add: old_ledger_def harmless_def)
qed

definition stranded :: payments_db where
  "stranded = \<lparr>payments = [(default_row 0)\<lparr>row_reference := demo_new, row_transaction_id := ''order-0001''\<rparr>],
     idempotency_keys =
       [\<lparr>key_text = ''order-0001'', request_hash = hash_payload demo_json (command_payload demo_command),
         key_status = IN_PROGRESS, key_payment = None, response_body = None\<rparr>,
        \<lparr>key_text = ''order-0002'', request_hash = [], key_status = IN_PROGRESS, key_payment = None, response_body = None\<rparr>],
     outbox = []\<rparr>"

theorem stranded_keys_are_recovered_witness:
  "fst (initiate_execute AccountsHttpClient demo_json demo_command (demo_shop\<lparr>db := RecoverIdempotency_up stranded\<rparr>)) = Inr (Some demo_new)
   \<and> fst (initiate_execute AccountsHttpClient demo_json demo_command (demo_shop\<lparr>db := stranded\<rparr>)) = Inl (Domain (RequestInProgressError ''order-0001''))"
proof -
  let ?s = "demo_shop\<lparr>db := RecoverIdempotency_up stranded\<rparr>"
  have s: "\<not> in_tx ?s" "tx_fate (tx_script ?s (txs ?s)) = TxCommits" "\<forall>n. read_script ?s n"
    "found_tables ?s = RecoverIdempotency_up stranded" "found_tables (demo_shop\<lparr>db := stranded\<rparr>) = stranded"
    by (simp_all add: demo_shop_simps found_tables_def) (simp_all add: demo_shop_def demo_world_def)
  have distinct: "distinct (map key_text (idempotency_keys stranded))" by (simp add: stranded_def)
  have row: "lookupBy key_text (cmd_transactionId demo_command) (idempotency_keys stranded) =
      Some \<lparr>key_text = ''order-0001'', request_hash = hash_payload demo_json (command_payload demo_command),
         key_status = IN_PROGRESS, key_payment = None, response_body = None\<rparr>"
    by (simp add: stranded_def demo_command_def)
  have "fst (initiate_execute AccountsHttpClient demo_json demo_command ?s) = Inr (Some demo_new)"
    using stranded_keys_are_recovered [where port = AccountsHttpClient and j = demo_json, OF distinct row _ _ s(1-4)]
    by (simp add: stranded_def demo_command_def)
  moreover
  let ?old = "demo_shop\<lparr>db := stranded\<rparr>"
  have old: "\<not> in_tx ?old" "tx_fate (tx_script ?old (txs ?old)) = TxCommits" "\<forall>n. read_script ?old n"
    using s(1-3) by simp_all
  have old_row: "lookupBy key_text (cmd_transactionId demo_command) (idempotency_keys (found_tables ?old)) =
      Some \<lparr>key_text = ''order-0001'', request_hash = hash_payload demo_json (command_payload demo_command),
         key_status = IN_PROGRESS, key_payment = None, response_body = None\<rparr>"
    unfolding s(5) by (rule row)
  have "fst (initiate_execute AccountsHttpClient demo_json demo_command ?old) = Inl (Domain (RequestInProgressError ''order-0001''))"
    using stored_key_decides [where port = AccountsHttpClient and j = demo_json, OF old old_row]
    by (elim exE conjE) (simp add: demo_command_def)
  ultimately show ?thesis by auto
qed

end
