(* ===== verification/Doubles.thy ===== *)
theory Doubles
  imports Initiation
begin

text \<open>
  \<open>src/testing/doubles.ts\<close>: the in-memory idempotency repository the specs of the service run against. The
  interface \<open>IdempotencyRepository\<close> is the locale \<open>idempotency_store\<close>; the repository over the database and the
  double are both interpretations of it, so what a spec observes with the double is what the service
  does with the database.
\<close>

section \<open>The interface\<close>

text \<open>What a store holds is read through \<open>look\<close>; an operation that fails leaves it as it was.\<close>

definition claimed_row :: "string \<Rightarrow> string \<Rightarrow> IdempotencyRow" where
  "claimed_row k hash =
     \<lparr>key_text = k, request_hash = hash, key_status = IN_PROGRESS, key_payment = None, response_body = None\<rparr>"

definition completed_row :: "string \<Rightarrow> string \<Rightarrow> IdempotencyRow \<Rightarrow> IdempotencyRow" where
  "completed_row paymentReference body row =
     row\<lparr>key_status := COMPLETED, key_payment := Some paymentReference, response_body := Some body\<rparr>"

locale idempotency_store =
  fixes look :: "'s \<Rightarrow> string \<Rightarrow> IdempotencyRow option"
    and claim_op :: "string \<Rightarrow> string \<Rightarrow> ('s, 'e, bool) prog"
    and find_op :: "string \<Rightarrow> ('s, 'e, IdempotencyRow option) prog"
    and complete_op :: "string \<Rightarrow> string \<Rightarrow> string \<Rightarrow> ('s, 'e, unit) prog"
  assumes claim_law: "wp (claim_op k h)
      (\<lambda>claimed t. claimed = (look s k = None) \<and> look t = (if claimed then (look s)(k \<mapsto> claimed_row k h) else look s))
      (\<lambda>_ t. look t = look s) s"
    and find_law: "wp (find_op k) (\<lambda>row t. row = look s k \<and> look t = look s) (\<lambda>_ t. look t = look s) s"
    and complete_law: "wp (complete_op k p b)
      (\<lambda>_ t. look t = (look s)(k := map_option (completed_row p b) (look s k))) (\<lambda>_ t. look t = look s) s"

datatype store_call = Claim string string | FindKey string | Complete string string string

datatype store_answer = Claimed bool | Found "IdempotencyRow option" | Completed

text \<open>What every store answers, as a function of what it holds.\<close>

fun store_answers :: "store_call \<Rightarrow> (string \<Rightarrow> IdempotencyRow option) \<Rightarrow> store_answer \<times> (string \<Rightarrow> IdempotencyRow option)" where
  "store_answers (Claim k h) m = (Claimed (m k = None), if m k = None then m(k \<mapsto> claimed_row k h) else m)"
| "store_answers (FindKey k) m = (Found (m k), m)"
| "store_answers (Complete k p b) m = (Completed, m(k := map_option (completed_row p b) (m k)))"

fun store_run :: "(string \<Rightarrow> string \<Rightarrow> ('s, 'e, bool) prog) \<Rightarrow> (string \<Rightarrow> ('s, 'e, IdempotencyRow option) prog)
    \<Rightarrow> (string \<Rightarrow> string \<Rightarrow> string \<Rightarrow> ('s, 'e, unit) prog) \<Rightarrow> store_call \<Rightarrow> ('s, 'e, store_answer) prog" where
  "store_run claim_op find_op complete_op (Claim k h) = andThen (claim_op k h) (\<lambda>b. ret (Claimed b))"
| "store_run claim_op find_op complete_op (FindKey k) = andThen (find_op k) (\<lambda>row. ret (Found row))"
| "store_run claim_op find_op complete_op (Complete k p b) = andThen (complete_op k p b) (\<lambda>_. ret Completed)"

fun store_runs :: "(store_call \<Rightarrow> ('s, 'e, store_answer) prog) \<Rightarrow> store_call list \<Rightarrow> ('s, 'e, store_answer list) prog" where
  "store_runs run [] = ret []"
| "store_runs run (c # cs) = andThen (run c) (\<lambda>a. andThen (store_runs run cs) (\<lambda>as. ret (a # as)))"

fun answers_of :: "store_call list \<Rightarrow> (string \<Rightarrow> IdempotencyRow option) \<Rightarrow> store_answer list \<times> (string \<Rightarrow> IdempotencyRow option)" where
  "answers_of [] m = ([], m)"
| "answers_of (c # cs) m = (case store_answers c m of (a, m') \<Rightarrow> (case answers_of cs m' of (as, n) \<Rightarrow> (a # as, n)))"

context idempotency_store
begin

lemma one_call:
  "wp (store_run claim_op find_op complete_op c)
     (\<lambda>a t. (a, look t) = store_answers c (look s)) (\<lambda>_ t. look t = look s) s"
proof (cases c)
  case (Claim k h)
  show ?thesis unfolding Claim store_run.simps wp_andThen
    by (rule wp_mono [OF claim_law]) (auto simp: wp_ret)
next
  case (FindKey k)
  show ?thesis unfolding FindKey store_run.simps wp_andThen
    by (rule wp_mono [OF find_law]) (auto simp: wp_ret)
next
  case (Complete k p b)
  show ?thesis unfolding Complete store_run.simps wp_andThen
    by (rule wp_mono [OF complete_law]) (auto simp: wp_ret)
qed

lemma all_calls:
  "wp (store_runs (store_run claim_op find_op complete_op) cs)
     (\<lambda>as t. (as, look t) = answers_of cs (look s)) (\<lambda>_ _. True) s"
proof (induction cs arbitrary: s)
  case (Cons c cs)
  show ?case unfolding store_runs.simps wp_andThen [where m = "store_run claim_op find_op complete_op c"]
  proof (rule wp_mono [OF one_call], goal_cases)
    case (1 a t)
    show ?case unfolding wp_andThen
      by (rule wp_mono [OF Cons.IH]) (use 1 in \<open>auto simp: wp_ret split: prod.splits\<close>)
  qed simp
qed (simp add: wp_ret)

end

section \<open>The double\<close>

text \<open>\<open>InMemoryIdempotencyRepository\<close>: a JavaScript \<open>Map\<close> by key; its operations never fail.\<close>

type_synonym memory_store = "string \<Rightarrow> IdempotencyRow option"

type_synonym 'a memory_prog = "(memory_store, exn, 'a) prog"

definition memory_claim :: "string \<Rightarrow> string \<Rightarrow> bool memory_prog" where
  "memory_claim k hash rows =
     (if rows k \<noteq> None then (Inr False, rows)
      else (Inr True, rows(k \<mapsto> \<lparr>key_text = k, request_hash = hash, key_status = IN_PROGRESS, key_payment = None,
                               response_body = None\<rparr>)))"

definition memory_find :: "string \<Rightarrow> IdempotencyRow option memory_prog" where
  "memory_find k rows = (Inr (rows k), rows)"

definition memory_complete :: "string \<Rightarrow> string \<Rightarrow> string \<Rightarrow> unit memory_prog" where
  "memory_complete k paymentReference body rows = (case rows k of
     None \<Rightarrow> (Inr (), rows)
   | Some row \<Rightarrow> (Inr (), rows(k \<mapsto> row\<lparr>key_status := COMPLETED, key_payment := Some paymentReference,
                                     response_body := Some body\<rparr>)))"

text \<open>\<open>transaction\<close>: an exception puts the rows back.\<close>

definition memory_transaction :: "'a memory_prog \<Rightarrow> 'a memory_prog" where
  "memory_transaction work rows = (case work rows of
     (Inl e, _) \<Rightarrow> (Inl e, rows)
   | (Inr x, rows') \<Rightarrow> (Inr x, rows'))"

lemma memory_transaction_restores:
  "wp (memory_transaction work) (\<lambda>x after. work rows = (Inr x, after)) (\<lambda>_ after. after = rows) rows"
  by (auto simp: wp_def memory_transaction_def split: prod.splits sum.splits)

definition table_look :: "'r world \<Rightarrow> string \<Rightarrow> IdempotencyRow option" where
  "table_look s k = lookupBy key_text k (idempotency_keys (db s))"

interpretation memory: idempotency_store "\<lambda>rows. rows" memory_claim memory_find memory_complete
  by unfold_locales
    (auto simp: wp_def memory_claim_def memory_find_def memory_complete_def claimed_row_def completed_row_def
      split: option.splits)

interpretation table: idempotency_store table_look claim find_key complete
proof unfold_locales
  show "wp (claim k h) (\<lambda>claimed t. claimed = (table_look s k = None)
      \<and> table_look t = (if claimed then (table_look s)(k \<mapsto> claimed_row k h) else table_look s)) (\<lambda>_ t. table_look t = table_look s) s"
    for k h and s :: "'a world"
    by (auto simp: wp_claim Let_def table_look_def fun_eq_iff lookupBy_append claimed_row_def split: option.split)
  show "wp (find_key k) (\<lambda>row t. row = table_look s k \<and> table_look t = table_look s) (\<lambda>_ t. table_look t = table_look s) s"
    for k and s :: "'a world"
    by (simp add: find_key_def wp_query table_look_def fun_eq_iff)
  show "wp (complete k p b) (\<lambda>_ t. table_look t = (table_look s)(k := map_option (completed_row p b) (table_look s k)))
      (\<lambda>_ t. table_look t = table_look s) s" for k p b and s :: "'a world"
    by (auto simp: complete_def wp_simps table_look_def fun_eq_iff completed_row_def [abs_def]
        lookupBy_updateBy_same lookupBy_updateBy_other)
qed

abbreviation "run_memory \<equiv> store_runs (store_run memory_claim memory_find memory_complete)"
abbreviation "run_table \<equiv> store_runs (store_run claim find_key complete)"

text \<open>
  The double the specs run against behaves as the repository: from the same keys, any sequence of claims,
  lookups and completions that the database serves is answered alike by both, and leaves the same
  keys; the double always answers.
\<close>

theorem double_agrees_with_repository:
  assumes "run_table calls s = (Inr answers, t)"
  shows "run_memory calls (table_look s) = (Inr answers, table_look t)"
proof -
  have table: "(answers, table_look t) = answers_of calls (table_look s)"
    using table.all_calls [of calls s] assms by (simp add: wp_def)
  have "wp (run_memory calls) (\<lambda>as u. (as, u) = answers_of calls m) (\<lambda>_ _. False) m" for m
  proof (induction calls arbitrary: m)
    case (Cons c calls)
    have "wp (store_run memory_claim memory_find memory_complete c) (\<lambda>a u. (a, u) = store_answers c m) (\<lambda>_ _. False) m"
      using memory.one_call [of c m]
      by (cases c) (auto simp: wp_def andThen_def ret_def memory_claim_def memory_find_def memory_complete_def split: option.splits if_splits)
    then show ?case unfolding store_runs.simps wp_andThen [where m = "store_run memory_claim memory_find memory_complete c"]
    proof (rule wp_mono, goal_cases)
      case (1 a u)
      show ?case unfolding wp_andThen
        by (rule wp_mono [OF Cons.IH]) (use 1 in \<open>auto simp: wp_ret split: prod.splits\<close>)
    qed simp
  qed (simp add: wp_ret)
  from this [of "table_look s"] show ?thesis
    unfolding table [symmetric] by (auto simp: wp_def split: prod.splits sum.splits)
qed

end
