(* ===== verification/Startup.thy ===== *)
theory Startup
  imports Platform Presentation
begin

text \<open>
  The start of the three services: \<open>main.ts\<close>, what their root modules build from the environment, and the
  logger. \<open>env\<close> is \<open>process.env\<close> at start-up and \<open>parse\<close> is JavaScript's \<open>Number\<close>. The filter chain that a
  start registers is checked against the answers of \<open>Presentation\<close>.
\<close>

section \<open>The logger\<close>

record PlatformLoggerOptions =
  serviceName :: string
  log_level :: "string option"
  pretty :: bool

record LoggerParams =
  level :: string
  base_service_name :: string
  redact_paths :: "string list"
  censor :: string
  pretty_transport :: bool

definition platformLoggerParams :: "(string \<Rightarrow> string option) \<Rightarrow> PlatformLoggerOptions \<Rightarrow> LoggerParams" where
  "platformLoggerParams env options =
     \<lparr>level = (case log_level options of Some l \<Rightarrow> l
        | None \<Rightarrow> (case env ''LOG_LEVEL'' of Some l \<Rightarrow> l | None \<Rightarrow> ''info'')),
      base_service_name = serviceName options,
      redact_paths = [''x-api-key'', ''x-api-secret'', ''authorization''],
      censor = ''[redacted]'',
      pretty_transport = pretty options\<rparr>"

text \<open>The line of a request: its id and its headers, censored; a health probe is not logged.\<close>

record request_line =
  line_id :: string
  line_url :: string
  line_headers :: "(string \<times> string) list"

definition request_log :: "LoggerParams \<Rightarrow> string \<Rightarrow> (string \<times> string) list \<Rightarrow> string \<Rightarrow> request_line option" where
  "request_log params url headers uuid =
     (if url = ''/health'' then None
      else Some \<lparr>line_id = correlationIdOf (case map_of headers ''x-correlation-id'' of None \<Rightarrow> Absent | Some v \<Rightarrow> One v) uuid,
                 line_url = url,
                 line_headers = map (\<lambda>(name, v). (name, if name \<in> set (redact_paths params) then censor params else v)) headers\<rparr>)"

text \<open>
  Credentials do not reach the log: two requests that differ only in their credentials leave the same
  line.
\<close>

theorem credentials_are_not_logged:
  assumes "list_all2 (\<lambda>(name, v) (name', v'). name = name'
      \<and> (name \<notin> {''x-api-key'', ''x-api-secret'', ''authorization''} \<longrightarrow> v = v')) headers headers'"
  shows "request_log (platformLoggerParams env options) url headers uuid
    = request_log (platformLoggerParams env options) url headers' uuid"
proof -
  have "map_of headers ''x-correlation-id'' = map_of headers' ''x-correlation-id''
    \<and> map (\<lambda>(name, v). (name, if name \<in> {''x-api-key'', ''x-api-secret'', ''authorization''} then x else v)) headers
      = map (\<lambda>(name, v). (name, if name \<in> {''x-api-key'', ''x-api-secret'', ''authorization''} then x else v)) headers'" for x
    using assms by (induction rule: list_all2_induct) auto
  then show ?thesis by (simp add: request_log_def platformLoggerParams_def)
qed

section \<open>Global filters\<close>

text \<open>The framework asks the filters in the opposite order of their registration.\<close>

datatype global_filter = CatchAll | CatchDomainError

fun catches :: "global_filter \<Rightarrow> exn \<Rightarrow> bool" where
  "catches CatchAll e = True"
| "catches CatchDomainError e = isDomainError e"

fun caught :: "global_filter \<Rightarrow> exn \<Rightarrow> http_reply" where
  "caught CatchDomainError (Domain d) = DomainErrorFilter d"
| "caught _ e = AllExceptionsFilter (Unknown (exn_message e))"

definition answer_of :: "global_filter list \<Rightarrow> exn \<Rightarrow> http_reply option" where
  "answer_of registered e = map_option (\<lambda>f. caught f e) (find (\<lambda>f. catches f e) (rev registered))"

section \<open>\<open>main.ts\<close>\<close>

record rmq_consumer =
  consumed_url :: "string option"
  consumed_queue :: string
  durable :: bool
  noAck :: bool
  prefetchCount :: nat

record service_start =
  hardened :: Hardened
  global_filters :: "global_filter list"
  docs_path :: "string option"
  listens_on :: js_number
  consumer :: "rmq_consumer option"
  logs :: LoggerParams
  rate_limits :: ThrottlerSettings

definition docs_enabled :: "(string \<Rightarrow> string option) \<Rightarrow> bool" where
  "docs_enabled env \<longleftrightarrow> env ''SWAGGER_ENABLED'' = Some ''true'' \<or> env ''NODE_ENV'' \<noteq> Some ''production''"

definition setupSwagger :: "string option \<Rightarrow> string" where
  "setupSwagger configured = (case configured of None \<Rightarrow> ''docs'' | Some path \<Rightarrow> path)"

definition root_module :: "(string \<Rightarrow> js_number) \<Rightarrow> (string \<Rightarrow> string option) \<Rightarrow> string \<Rightarrow> LoggerParams \<times> ThrottlerSettings" where
  "root_module parse env service =
     (platformLoggerParams env \<lparr>serviceName = service, log_level = None, pretty = (env ''NODE_ENV'' = Some ''development'')\<rparr>,
      throttlerSettingsFrom (\<lambda>name. map_option parse (env name)))"

definition bootstrap :: "(string \<Rightarrow> js_number) \<Rightarrow> (string \<Rightarrow> string option) \<Rightarrow> string \<Rightarrow> global_filter list
    \<Rightarrow> rmq_consumer option \<Rightarrow> nat \<Rightarrow> service_start" where
  "bootstrap parse env service filters consumed fallback =
     (let docsEnabled = docs_enabled env in
      \<lparr>hardened = applyHttpHardening parse
         \<lparr>docsEnabled = docsEnabled, bodyLimit = None, corsOrigins = env ''CORS_ORIGINS'', trustProxy = env ''TRUST_PROXY''\<rparr>,
       global_filters = filters,
       docs_path = (if docsEnabled then Some (setupSwagger None) else None),
       listens_on = (case env ''PORT'' of None \<Rightarrow> num (int fallback) | Some p \<Rightarrow> parse p),
       consumer = consumed,
       logs = fst (root_module parse env service),
       rate_limits = snd (root_module parse env service)\<rparr>)"

definition accounts_bootstrap :: "(string \<Rightarrow> js_number) \<Rightarrow> (string \<Rightarrow> string option) \<Rightarrow> service_start" where
  "accounts_bootstrap parse env = bootstrap parse env ''accounts'' [CatchAll] None 3001"

definition transactions_bootstrap :: "(string \<Rightarrow> js_number) \<Rightarrow> (string \<Rightarrow> string option) \<Rightarrow> service_start" where
  "transactions_bootstrap parse env = bootstrap parse env ''transactions'' [CatchAll]
     (Some \<lparr>consumed_url = env ''RABBITMQ_URL'', consumed_queue = ''transactions.events'', durable = True, noAck = False,
            prefetchCount = 16\<rparr>) 3002"

definition payments_bootstrap :: "(string \<Rightarrow> js_number) \<Rightarrow> (string \<Rightarrow> string option) \<Rightarrow> service_start" where
  "payments_bootstrap parse env = bootstrap parse env ''payments'' [CatchAll, CatchDomainError] None 3003"

lemmas service_starts = accounts_bootstrap_def transactions_bootstrap_def payments_bootstrap_def bootstrap_def

text \<open>
  The chain the payments service registers gives every exception of a handler the answer of \<open>reply\<close>; in
  the other order every business refusal would be an internal error.
\<close>

theorem registered_filters_answer:
  assumes "e \<noteq> ProcessDied"
  shows "answer_of (global_filters (payments_bootstrap parse env)) e = reply st (Inl e)"
  using assms by (cases e) (simp_all add: service_starts answer_of_def Let_def)

lemma filters_in_the_other_order: "map_option fst (answer_of [CatchDomainError, CatchAll] (Domain d)) = Some 500"
  by (simp add: answer_of_def)

text \<open>
  In production the documentation is served only when asked for, and a service that serves none keeps
  its content policy; no browser origin is admitted unless one is named.
\<close>

theorem production_serves_no_documentation:
  assumes "started \<in> {accounts_bootstrap parse env, transactions_bootstrap parse env, payments_bootstrap parse env}"
  shows "(docs_path started = None \<longleftrightarrow> contentSecurityPolicy (hardened started))
    \<and> (env ''NODE_ENV'' = Some ''production'' \<longrightarrow> (docs_path started \<noteq> None \<longleftrightarrow> env ''SWAGGER_ENABLED'' = Some ''true''))
    \<and> (env ''CORS_ORIGINS'' = None \<longrightarrow> cors (hardened started) = None)"
proof -
  obtain service filters consumed fallback where started: "started = bootstrap parse env service filters consumed fallback"
    using assms unfolding accounts_bootstrap_def transactions_bootstrap_def payments_bootstrap_def by blast
  have "cors_origins None = []" by (simp add: cors_origins_def trim_def)
  then show ?thesis
    unfolding started bootstrap_def Let_def applyHttpHardening_def docs_enabled_def by simp
qed

end
