(* ===== verification/Spec2Isabelle.thy ===== *)
theory Spec2Isabelle
  imports Payment_Properties Accounts_Properties Payment_Scenarios Initiation Ledger_Scenarios Client_Scenarios
    Platform_Scenarios Users Operations Migrations Doubles Queries Startup
begin

text \<open>
  Verification of the Paynah payment platform: three NestJS services and the package they share.

  THE PROGRAM. \<open>services/payments\<close> moves an amount from one wallet to another. Its saga debits the source,
  credits the destination, and refunds the debit when the credit fails; each call goes over HTTP to
  \<open>services/accounts\<close>, which owns users, wallets and an append-only ledger of movements and applies a
  movement at most once per idempotency key. The payments service keeps the payment and an outbox in
  its own database; a relay publishes the outbox to a broker, and \<open>services/transactions\<close> consumes the
  events into a second append-only ledger. A reconciliation job takes up payments that a crash or a
  timeout left unfinished. No transaction spans two services, so everything the system promises
  about money rests on idempotency keys, on a per-payment lock, on what is written before a call and
  on what is concluded after it. That is what the development is about.

  HOW THE CODE IS MODELLED. A method is one definition that follows its statements, in the program
  type of \<open>Prelude\<close>: a function from the state to a result (\<open>Inl\<close> an exception, \<open>Inr\<close> a value) and
  the state left behind; an exception does not undo what was written before it. Everything the code
  cannot decide is an input of the state and quantified over in the theorems: the fate of every HTTP
  exchange (answered, executed with the reply lost, lost, left in flight and executed later, the
  process dies), the outcome of every local transaction and of every attempt to take the lock, what
  other workers commit in between, clocks and random draws.

  THE THEORIES, with the files under \<open>src/\<close> they model.

  \<^item> \<open>Prelude\<close>: programs, the calculus \<open>wp\<close>, tables as lists.
  \<^item> \<open>Contract\<close>, \<open>Shared\<close>: \<open>packages/shared\<close>. Amounts, references and their generation, transaction
    ids, descriptions; codes, exceptions, body validation, envelope, pagination, correlation ids,
    PostgreSQL errors and \<open>bigint\<close> columns read as JavaScript numbers.
  \<^item> \<open>Errors\<close>, \<open>Domain\<close>, \<open>Payment\<close>, \<open>Payment_Properties\<close>: \<open>services/payments/src/domain\<close>. The aggregate,
    its value objects, transitions, events and snapshot; its state machine is final in the terminal
    statuses, successful operations keep its fields in agreement with its status, and a snapshot restores
    the payment.
  \<^item> \<open>Accounts\<close>, \<open>Accounts_Ledger\<close>, \<open>Accounts_Properties\<close>: \<open>services/accounts/src\<close> (users, wallets, ledger,
    guard, endpoints). The books balance under any interference, a movement is its decision table
    \<open>movement_spec\<close>, and it is all or nothing, races under its own key included.
    \<open>Users\<close>: the rules of a registration, the endpoints of users and the replies to them; a registration is
    found again and its address is taken from then on.
  \<^item> \<open>Resilience\<close>, \<open>Accounts_Client\<close>, \<open>Client_Properties\<close>, \<open>Client_Scenarios\<close>:
    \<open>services/payments/src/infrastructure/http\<close>. Retry policy, circuit breaker, the HTTP adapter and
    the network; bounds on exchanges and waiting, and when the circuit opens and closes.
  \<^item> \<open>Ports\<close>, \<open>Accounts_Contract\<close>: the port the handlers use, its laws as the locale \<open>accounts_contract\<close>,
    and the interpretation \<open>wire\<close>, which proves them for the client over the network and the accounts
    service. All lemmas of the saga are proved in the locale and reach the code through \<open>wire\<close>.
  \<^item> \<open>Persistence\<close>: \<open>infrastructure/persistence\<close> and the two writers of the outbox. Tables,
    transactions that abort or commit unheard, the advisory lock, repositories with the optimistic
    lock, the ORM mapper.
  \<^item> \<open>Handlers\<close>: \<open>application\<close> and the reconciliation job, statement by statement.
  \<^item> \<open>Coherence\<close>, \<open>Saga\<close>: the invariant that ties a stored payment to the movements and to the requests in
    flight under its three keys and to its outbox, status by status, and that every handler keeps
    it however it ends. \<open>Payment_Life\<close> closes it under every order of runs, crashes and foreign
    traffic (\<open>payment_life\<close>); \<open>Conservation\<close> adds the balances: a life of a payment never creates or destroys
    money between the wallets; \<open>Saga_Outcome\<close> proves that with a working database and lock the
    handlers implement two decision tables over the answers of the port; \<open>Initiation\<close> starts a life.
  \<^item> \<open>Relay\<close>, \<open>Relay_Properties\<close>, \<open>Operations\<close>: \<open>infrastructure/messaging\<close>, \<open>infrastructure/operations\<close> and
    the health probes. Delivery before marking, progress with a working broker, what an operator sees
    and repairs, and what the exit code of the command line says.
  \<^item> \<open>Ledger\<close>, \<open>Ledger_Properties\<close>: \<open>services/transactions/src\<close>, and the composition with the outbox:
    which messages of a payment the consumer records, and which it discards. The pages of a history fit
    together although the database may read the rows in another order for each.
  \<^item> \<open>Presentation\<close>, \<open>Presentation_Properties\<close>: \<open>services/payments/src/presentation\<close> with the read side and
    the query handlers. Every request gets exactly one envelope; the read side shows what the aggregate
    holds; a request from the validated body to the answered status is the decision table.
  \<^item> \<open>Run_Cost\<close>: termination. From every state a handler, a request and a tick of the job end after a
    bounded number of calls.
  \<^item> \<open>Queries\<close>: the two listings from the text of a query string to the rows. An accepted listing shows at most
    a hundred rows, those the parameters select, and the ledger is never listed without a scope.
  \<^item> \<open>Platform\<close>, \<open>Platform_Properties\<close>: rate-limit buckets, start-up checks of the three environments,
    HTTP hardening, correlation.
  \<^item> \<open>Startup\<close>: the three \<open>main.ts\<close> with the logger. The order of the global filters gives every exception the
    answer the endpoints are modelled with; credentials do not reach the log; production serves no
    documentation unless it is asked to.
  \<^item> \<open>Seeds\<close>, \<open>Payments_Seed\<close>: the three seed scripts.
  \<^item> \<open>Migrations\<close>: the migrations that carry a decision, over the tables of the other theories. The triggers
    behind the two ledgers and what they do not refuse, the rewrite of the movement types, the repair of
    stranded idempotency keys, the columns of the schedulers.
  \<^item> \<open>Doubles\<close>: \<open>services/payments/src/testing\<close>. The idempotency repository as the locale \<open>idempotency_store\<close>
    with two interpretations, the table of the service and the in-memory double its specs run against.
  \<^item> \<open>Concrete_World\<close> and the theories named \<open>_Scenarios\<close>: concrete databases, networks and runs on which the
    hypotheses of the theorems hold.

  BOUNDS. No definition uses fuel. The retry loops recurse on the attempts that are left
  (\<open>maxAttempts\<close> of the configuration), the passes over batches on the batch, and the relay on the
  rows it took; all are structural. What the code bounds by constants is proved with them: twenty
  payments per pass of the job, fifty messages per pass of the relay, at most four calls of the
  accounts service for a payment in one run, and at most eleven attempts per call on a booted service.

  WHAT THE THEOREMS ASSUME. A worker that holds the advisory lock of a payment holds it for the run, so
  what others commit meanwhile leaves that payment alone (\<open>legit_tx\<close>). Requests under the three keys of
  a payment come from its handlers (\<open>legit_exchange\<close>); everybody else may do anything the accounts
  service allows. Concurrent transactions of one database are serialised in the order of their commits,
  with the interference placed at the points where the code reads. Between the two services a gateway
  may answer 429 and 5xx on its own, and every other status comes from the accounts service. Readings of
  the clock inside one synchronous step are one instant. Requests under one key that are in flight land
  between the exchanges of a handler, not between two statements of the service that serves another;
  those races are the subject of \<open>Accounts_Properties\<close>. The database orders the rows of a history by its
  keys and no further (\<open>query_plan\<close>). Other relays deliver a row before they mark it (\<open>relay_legit\<close>). Strings hold the code points U+0000 to U+00FF.
  SHA-256, JSON quoting, JavaScript's reading of numbers and dates from text, the collation that orders
  the keys of a body, the digits of the random source and the counting of the throttler library are
  arguments of the definitions.

  NOT MODELLED. Dependency injection, which is declarations for the framework; the
  column lists and plain indexes of the first migrations, whose unique constraints are in the operations
  that insert rows; the fixtures of the specs and the doubles that only count calls; the
  texts of log lines and OpenAPI decorators, which decide nothing the other parts rely on; query strings
  with nested objects.
\<close>

end
